theory Spec2Isabelle
  imports
    Complex_Main
    "HOL-Library.AList"
    "HOL-Library.Char_ord"
    "HOL-Library.List_Lexorder"
    "HOL-Library.Product_Lexorder"
begin

section \<open>Text and byte primitives of the language library\<close>

text \<open>
  \<open>http_server.py\<close> reads text from \<open>/proc\<close> and takes it apart with \<open>str.split\<close>,
  \<open>int\<close>, \<open>str.isdigit\<close> and \<open>bytes.decode\<close>. Text is a list of characters whose
  codes are the code points 0..255; a byte string is a list of characters whose codes are
  the byte values. The character classes below are the library's on that range.
\<close>

definition code :: "char \<Rightarrow> int" where
  "code c = of_char c"

definition whitespace :: "char list" where
  \<comment> \<open>the characters for which \<open>str.isspace\<close> holds: 9 to 13, 28 to 32, 133 and 160\<close>
  "whitespace =
     [CHR 0x09, CHR 0x0A, CHR 0x0B, CHR 0x0C, CHR 0x0D, CHR 0x1C, CHR 0x1D, CHR 0x1E, CHR 0x1F,
      CHR 0x20, CHR 0x85, CHR 0xA0]"

definition isspace :: "char \<Rightarrow> bool" where
  \<comment> \<open>\<open>str.isspace\<close> on one character: what \<open>str.split()\<close> separates at\<close>
  "isspace c = (c \<in> set whitespace)"

definition int_space :: "char \<Rightarrow> bool" where
  \<comment> \<open>the white space \<open>int()\<close> strips at both ends: 9 to 13, 32, 133 and 160\<close>
  "int_space c = (c \<in> set [CHR 0x09, CHR 0x0A, CHR 0x0B, CHR 0x0C, CHR 0x0D, CHR 0x20, CHR 0x85, CHR 0xA0])"

definition isdigit_char :: "char \<Rightarrow> bool" where
  \<comment> \<open>\<open>str.isdigit\<close> on one character: the ASCII digits and the superscripts 2, 3, 1\<close>
  "isdigit_char c = (c \<in> set (''0123456789'' @ [CHR 0xB2, CHR 0xB3, CHR 0xB9]))"

definition isdigit :: "string \<Rightarrow> bool" where
  "isdigit s = (s \<noteq> [] \<and> list_all isdigit_char s)"

definition digit_value :: "char \<Rightarrow> int" where
  \<comment> \<open>value of a digit in bases up to 36; 37 for any other character\<close>
  "digit_value c =
     (let n = code c in
      if 48 \<le> n \<and> n \<le> 57 then n - 48
      else if 97 \<le> n \<and> n \<le> 122 then n - 87
      else if 65 \<le> n \<and> n \<le> 90 then n - 55
      else 37)"

fun split_words :: "string \<Rightarrow> string \<Rightarrow> string list" where
  "split_words [] w = (if w = [] then [] else [w])"
| "split_words (c # cs) w =
     (if isspace c then (if w = [] then split_words cs [] else w # split_words cs [])
      else split_words cs (w @ [c]))"

definition split :: "string \<Rightarrow> string list" where
  \<comment> \<open>\<open>s.split()\<close>: the maximal runs of characters that are not white space\<close>
  "split s = split_words s []"

fun split_at :: "char \<Rightarrow> string \<Rightarrow> string \<Rightarrow> string list" where
  "split_at sep [] w = [w]"
| "split_at sep (c # cs) w =
     (if c = sep then w # split_at sep cs [] else split_at sep cs (w @ [c]))"

definition split_on :: "char \<Rightarrow> string \<Rightarrow> string list" where
  \<comment> \<open>\<open>s.split(sep)\<close> for a separator of one character; empty pieces are kept\<close>
  "split_on sep s = split_at sep s []"

definition startswith :: "'a list \<Rightarrow> 'a list \<Rightarrow> bool" where
  \<comment> \<open>\<open>s.startswith(p)\<close>, written \<open>startswith p s\<close>\<close>
  "startswith p s = (take (length p) s = p)"

fun contains :: "'a list \<Rightarrow> 'a list \<Rightarrow> bool" where
  \<comment> \<open>\<open>p in s\<close>, written \<open>contains p s\<close>\<close>
  "contains p [] = (p = [])"
| "contains p (x # xs) = (startswith p (x # xs) \<or> contains p xs)"

fun int_digits :: "int \<Rightarrow> string \<Rightarrow> int \<Rightarrow> bool \<Rightarrow> int option" where
  \<comment> \<open>the digits after the first one: single underscores between digits, then only
      white space; the flag says that the previous character was an underscore\<close>
  "int_digits base [] acc us = (if us then None else Some acc)"
| "int_digits base (c # cs) acc us =
     (if c = CHR ''_'' then (if us then None else int_digits base cs acc True)
      else if digit_value c < base then int_digits base cs (acc * base + digit_value c) False
      else if us then None
      else if list_all int_space (c # cs) then Some acc
      else None)"

definition strip_sign :: "string \<Rightarrow> bool \<times> string" where
  "strip_sign s =
     (case s of
        [] \<Rightarrow> (False, s)
      | c # r \<Rightarrow> if c = CHR ''+'' then (False, r) else if c = CHR ''-'' then (True, r) else (False, s))"

definition strip_prefix :: "int \<Rightarrow> string \<Rightarrow> string" where
  \<comment> \<open>base 16 accepts \<open>0x\<close> or \<open>0X\<close> in front, and one underscore after it\<close>
  "strip_prefix base s =
     (case s of
        a # b # r \<Rightarrow>
          if base = 16 \<and> a = CHR ''0'' \<and> (b = CHR ''x'' \<or> b = CHR ''X'')
          then (case r of [] \<Rightarrow> r | u # r' \<Rightarrow> if u = CHR ''_'' then r' else r)
          else s
      | _ \<Rightarrow> s)"

definition py_int :: "int \<Rightarrow> string \<Rightarrow> int option" where
  \<comment> \<open>\<open>int(s, base)\<close> for base 10 or 16; \<open>None\<close> is \<open>ValueError\<close>\<close>
  "py_int base s =
     (case strip_sign (dropWhile int_space s) of
        (neg, s2) \<Rightarrow>
          (case strip_prefix base s2 of
             [] \<Rightarrow> None
           | c # r \<Rightarrow>
               if digit_value c < base
               then (case int_digits base r (digit_value c) False of
                       None \<Rightarrow> None
                     | Some v \<Rightarrow> Some (if neg then - v else v))
               else None))"

definition is_cont :: "int \<Rightarrow> bool" where
  \<comment> \<open>a UTF-8 continuation byte\<close>
  "is_cont b = (128 \<le> b \<and> b \<le> 191)"

fun decode_ignore :: "string \<Rightarrow> int list" where
  \<comment> \<open>\<open>b.decode('utf-8', 'ignore')\<close>, as the list of code points: a byte that starts no
      valid sequence is dropped, and so is a sequence cut short (its lead byte and the
      continuation bytes accepted so far)\<close>
  "decode_ignore [] = []"
| "decode_ignore (x # r) =
     (if code x < 128 then code x # decode_ignore r
      else if code x < 194 then decode_ignore r
      else if code x < 224 then
        (case r of
           [] \<Rightarrow> []
         | y # r1 \<Rightarrow>
             if is_cont (code y)
             then ((code x mod 32) * 64 + code y mod 64) # decode_ignore r1
             else decode_ignore r)
      else if code x < 240 then
        (case r of
           [] \<Rightarrow> []
         | y # r1 \<Rightarrow>
             if \<not> is_cont (code y) \<or> (code x = 224 \<and> code y < 160) \<or> (code x = 237 \<and> 160 \<le> code y)
             then decode_ignore r
             else (case r1 of
                     [] \<Rightarrow> []
                   | z # r2 \<Rightarrow>
                       if is_cont (code z)
                       then ((code x mod 16) * 4096 + (code y mod 64) * 64 + code z mod 64)
                              # decode_ignore r2
                       else decode_ignore r1))
      else if code x < 245 then
        (case r of
           [] \<Rightarrow> []
         | y # r1 \<Rightarrow>
             if \<not> is_cont (code y) \<or> (code x = 240 \<and> code y < 144) \<or> (code x = 244 \<and> 144 \<le> code y)
             then decode_ignore r
             else (case r1 of
                     [] \<Rightarrow> []
                   | z # r2 \<Rightarrow>
                       if \<not> is_cont (code z) then decode_ignore r1
                       else (case r2 of
                               [] \<Rightarrow> []
                             | u # r3 \<Rightarrow>
                                 if is_cont (code u)
                                 then ((code x mod 8) * 262144 + (code y mod 64) * 4096
                                        + (code z mod 64) * 64 + code u mod 64) # decode_ignore r3
                                 else decode_ignore r2)))
      else decode_ignore r)"

section \<open>The /proc file system as discovery reads it\<close>

text \<open>
  \<open>discover_servers\<close> opens \<open>/proc/net/tcp\<close> and \<open>/proc/net/tcp6\<close>, lists \<open>/proc\<close>, and
  for every entry reads \<open>cmdline\<close> and the links under \<open>fd\<close>. One scan sees:
  \<^item> for each table, that \<open>open\<close> raised \<open>FileNotFoundError\<close>, \<open>PermissionError\<close> or another
    \<open>OSError\<close>, or the lines that \<open>next(f)\<close> and the iteration over the file deliver, and
    whether the reading then reaches the end of the file or meets bytes that the codec of the
    locale rejects (\<open>UnicodeDecodeError\<close>);
  \<^item> the error that listing \<open>/proc\<close> raised, if it raised one (\<open>iterdir\<close> lists the whole
    directory before it yields the first entry);
  \<^item> the entries of \<open>/proc\<close> in the order \<open>iterdir\<close> yields them, each with its name, the
    bytes of \<open>cmdline\<close> (\<open>None\<close> when reading raised), and the links under \<open>fd\<close>
    (\<open>None\<close> when listing the directory raised; for each link its target, or \<open>None\<close> when
    \<open>os.readlink\<close> raised \<open>OSError\<close>).
\<close>

datatype oserror = ProcessLookupError | PermissionError | OtherOSError

datatype exn = StopIteration | ValueError | UnicodeDecodeError | IndexError | OverflowError | OSError oserror

datatype read_end = Eof | Undecodable

datatype table_file = Missing | Denied | Unopenable | Lines "string list" read_end

record proc_entry =
  d_name :: string
  d_cmdline :: "string option"
  d_fd :: "string option list option"

record procfs =
  tcp :: table_file
  tcp6 :: table_file
  entries :: "proc_entry list"
  listing :: "oserror option"

type_synonym inode_map = "(int \<times> int) list"
  \<comment> \<open>the dictionary \<open>inode_map\<close>, in insertion order; looked up with \<open>map_of\<close>\<close>

definition table_row :: "string \<Rightarrow> (int \<times> int) option" where
  \<comment> \<open>what one line of a table adds to \<open>inode_map\<close>: (inode, port), or nothing\<close>
  "table_row line =
     (let parts = split line in
      if length parts < 10 then None
      else
        let local = parts ! 1; st = parts ! 3; inode = parts ! 9 in
        if st \<noteq> ''0A'' then None
        else (case split_on CHR '':'' local of
                [ip, phex] \<Rightarrow>
                  (case py_int 16 phex of
                     None \<Rightarrow> None
                   | Some port \<Rightarrow>
                       (case py_int 10 inode of
                          None \<Rightarrow> None
                        | Some inode_i \<Rightarrow> Some (inode_i, port)))
              | _ \<Rightarrow> None))"

fun read_rows :: "string list \<Rightarrow> inode_map \<Rightarrow> inode_map" where
  "read_rows [] m = m"
| "read_rows (line # rest) m =
     (case table_row line of
        None \<Rightarrow> read_rows rest m
      | Some (inode_i, port) \<Rightarrow> read_rows rest (AList.update inode_i port m))"

fun read_table :: "table_file \<Rightarrow> inode_map \<Rightarrow> exn + inode_map" where
  "read_table Missing m = Inr m"
| "read_table Denied m = Inr m"
| "read_table Unopenable m = Inl (OSError OtherOSError)"
    \<comment> \<open>no handler for any other error of \<open>open\<close>\<close>
| "read_table (Lines [] Eof) m = Inl StopIteration"
    \<comment> \<open>\<open>next(f)\<close> on a file without a first line\<close>
| "read_table (Lines [] Undecodable) m = Inl UnicodeDecodeError"
| "read_table (Lines (header # rows) Eof) m = Inr (read_rows rows m)"
| "read_table (Lines (header # rows) Undecodable) m = Inl UnicodeDecodeError"
    \<comment> \<open>raised by \<open>for line in f\<close>, outside the \<open>try\<close> around the parsing of a row; what
        the rows before it added to \<open>inode_map\<close> is lost with the call\<close>

definition read_tables :: "procfs \<Rightarrow> exn + inode_map" where
  "read_tables P =
     (case read_table (tcp P) [] of
        Inl e \<Rightarrow> Inl e
      | Inr m \<Rightarrow> read_table (tcp6 P) m)"

definition program_name :: "int list" where
  "program_name = map code ''http_server.py''"

definition is_server :: "string \<Rightarrow> bool" where
  \<comment> \<open>the bytes of \<open>cmdline\<close>: split at NUL, empty pieces dropped, each piece decoded;
      some piece contains the program's name\<close>
  "is_server raw =
     list_ex (\<lambda>t. contains program_name t)
       (map decode_ignore (filter (\<lambda>c. c \<noteq> []) (split_on (CHR 0x00) raw)))"

definition socket_inode :: "string \<Rightarrow> int option" where
  \<comment> \<open>a link target \<open>socket:[N]\<close> names inode \<open>N\<close>: \<open>int(target[8:-1])\<close>\<close>
  "socket_inode target =
     (if startswith ''socket:['' target then py_int 10 (butlast (drop 8 target)) else None)"

fun scan_fds :: "inode_map \<Rightarrow> string option list \<Rightarrow> int list \<Rightarrow> int list" where
  \<comment> \<open>the loop over \<open>fd_dir.iterdir()\<close>; \<open>seen\<close> is a set, kept as a list without repetition\<close>
  "scan_fds m [] seen = seen"
| "scan_fds m (l # ls) seen =
     (case l of
        None \<Rightarrow> scan_fds m ls seen
      | Some target \<Rightarrow>
          (case socket_inode target of
             None \<Rightarrow> scan_fds m ls seen
           | Some inode_i \<Rightarrow>
               (case map_of m inode_i of
                  None \<Rightarrow> scan_fds m ls seen
                | Some port \<Rightarrow>
                    if port \<noteq> 0 then scan_fds m ls (List.insert port seen)
                    else scan_fds m ls seen)))"

fun scan_procs :: "inode_map \<Rightarrow> proc_entry list \<Rightarrow> (int \<times> int) list \<Rightarrow> exn + (int \<times> int) list" where
  \<comment> \<open>the loop over \<open>Path('/proc').iterdir()\<close>\<close>
  "scan_procs m [] results = Inr results"
| "scan_procs m (d # ds) results =
     (if \<not> isdigit (d_name d) then scan_procs m ds results
      else (case py_int 10 (d_name d) of
              None \<Rightarrow> Inl ValueError
            | Some pid \<Rightarrow>
                (case d_cmdline d of
                   None \<Rightarrow> scan_procs m ds results
                 | Some raw \<Rightarrow>
                     if \<not> is_server raw then scan_procs m ds results
                     else
                       let seen = (case d_fd d of None \<Rightarrow> [] | Some ls \<Rightarrow> scan_fds m ls [])
                       in scan_procs m ds (results @ map (Pair pid) seen))))"

definition discover_servers :: "procfs \<Rightarrow> exn + (int \<times> int) list" where
  "discover_servers P =
     (case read_tables P of
        Inl e \<Rightarrow> Inl e
      | Inr m \<Rightarrow>
          if m = [] then Inr []
          else (case listing P of
                  Some e \<Rightarrow> Inl (OSError e)
                | None \<Rightarrow>
                    (case scan_procs m (entries P) [] of
                       Inl e \<Rightarrow> Inl e
                     | Inr results \<Rightarrow> Inr (sort results))))"

section \<open>The operating system as the controller uses it\<close>

text \<open>
  The controller prints, scans \<open>/proc\<close>, signals processes, sleeps, touches the file system,
  probes a port and forks. The operating system is a record of operations on a world of
  any type \<open>'w\<close>; nothing is assumed about how the world answers. Every function of the
  controller returns how it ended, the world it left, and the events it caused, in order.
\<close>

datatype signal = SIGTERM | SIGKILL | SIG0
  \<comment> \<open>\<open>SIG0\<close> is \<open>os.kill(pid, 0)\<close>, the liveness check\<close>

datatype color = Color_G | Color_R | Color_Y | Color_C

datatype serve_end = BindFailed string | Interrupted | Forever

datatype event =
    Cprint string color
  | Print string
  | Scan "exn + (int \<times> int) list"
  | Kill int signal "oserror option"
  | Sleep
  | Mkdir string
  | Replace string string
  | Connect string int
  | Fork
  | Setsid
  | Chdir string
  | OpenLog string
  | Serve string int
  | LogWrite string
  | UrlOpen string

datatype outcome = Returned | Exited int | Raised exn | Serving

record 'w os =
  os_scan :: "'w \<Rightarrow> procfs \<times> 'w"
  os_kill :: "int \<Rightarrow> signal \<Rightarrow> 'w \<Rightarrow> oserror option \<times> 'w"
  os_sleep :: "'w \<Rightarrow> 'w"
  os_resolve :: "string \<Rightarrow> 'w \<Rightarrow> string"
  os_exists :: "string \<Rightarrow> 'w \<Rightarrow> bool"
  os_is_dir :: "string \<Rightarrow> 'w \<Rightarrow> bool"
  os_mkdir :: "string \<Rightarrow> 'w \<Rightarrow> exn option \<times> 'w"
  os_replace :: "string \<Rightarrow> string \<Rightarrow> 'w \<Rightarrow> exn option \<times> 'w"
  os_connect :: "string \<Rightarrow> int \<Rightarrow> 'w \<Rightarrow> (exn + bool) \<times> 'w"
  os_fork :: "'w \<Rightarrow> (exn + int) \<times> 'w"
  os_chdir :: "string \<Rightarrow> 'w \<Rightarrow> exn option \<times> 'w"
  os_open_log :: "string \<Rightarrow> 'w \<Rightarrow> exn option \<times> 'w"
  os_serve :: "string \<Rightarrow> int \<Rightarrow> 'w \<Rightarrow> serve_end \<times> 'w"
  os_urlopen :: "string \<Rightarrow> real \<Rightarrow> 'w \<Rightarrow> (string + int) \<times> 'w"

record args =
  a_cmd :: string
  a_port :: "int option"
  a_bind :: string
  a_dir :: string
  a_log_file :: string
  a_no_color :: bool
  a_timeout :: real

definition DEFAULT_PORT :: int where
  "DEFAULT_PORT = 8000"

subsection \<open>Formatting\<close>

function decimal :: "int \<Rightarrow> string" where
  \<comment> \<open>the decimal digits of a number that is not negative\<close>
  "decimal n = (if n < 10 then [char_of (48 + n)] else decimal (n div 10) @ [char_of (48 + n mod 10)])"
  by pat_completeness auto
termination
  by (relation "measure nat") auto

definition str :: "int \<Rightarrow> string" where
  \<comment> \<open>\<open>str(i)\<close> of an integer\<close>
  "str i = (if i < 0 then CHR ''-'' # decimal (- i) else decimal i)"

fun join :: "string \<Rightarrow> string list \<Rightarrow> string" where
  "join sep [] = []"
| "join sep [x] = x"
| "join sep (x # y # zs) = x @ sep @ join sep (y # zs)"

definition ports_text :: "int list \<Rightarrow> string" where
  \<comment> \<open>\<open>','.join(map(str, sorted(ports)))\<close>\<close>
  "ports_text ports = join '','' (map str (sort ports))"

definition parent :: "string \<Rightarrow> string" where
  \<comment> \<open>\<open>Path.parent\<close> of a normalised path\<close>
  "parent p =
     (if CHR ''/'' \<notin> set p then ''.''
      else let q = rev (tl (dropWhile (\<lambda>c. c \<noteq> CHR ''/'') (rev p)))
           in if q = [] then ''/'' else q)"

subsection \<open>Discovery in a world, and grouping by pid\<close>

definition scan :: "'w os \<Rightarrow> 'w \<Rightarrow> (exn + (int \<times> int) list) \<times> 'w" where
  \<comment> \<open>one call of \<open>discover_servers()\<close>\<close>
  "scan os w = (case os_scan os w of (P, w1) \<Rightarrow> (discover_servers P, w1))"

fun group_by_pid :: "(int \<times> int) list \<Rightarrow> (int \<times> int list) list \<Rightarrow> (int \<times> int list) list" where
  \<comment> \<open>\<open>grouped.setdefault(spid, []).append(port)\<close> for every pair; a dictionary in
      insertion order\<close>
  "group_by_pid [] grouped = grouped"
| "group_by_pid ((spid, port) # rest) grouped =
     group_by_pid rest
       (case map_of grouped spid of
          None \<Rightarrow> grouped @ [(spid, [port])]
        | Some pl \<Rightarrow> AList.update spid (pl @ [port]) grouped)"

definition pid_lines :: "string \<Rightarrow> (int \<times> int list) list \<Rightarrow> event list" where
  \<comment> \<open>one line per pid with its ports\<close>
  "pid_lines word grouped =
     map (\<lambda>(spid, pl). Cprint (''  PID '' @ str spid @ word @ ports_text pl) Color_Y) grouped"

subsection \<open>stop\<close>

definition send_signal :: "'w os \<Rightarrow> int \<Rightarrow> signal \<Rightarrow> 'w \<Rightarrow> exn option \<times> 'w \<times> event list" where
  \<comment> \<open>\<open>try: os.kill(pid, sig)\<close> with \<open>except ProcessLookupError: pass\<close>\<close>
  "send_signal os pid sig w =
     (case os_kill os pid sig w of
        (None, w1) \<Rightarrow> (None, w1, [Kill pid sig None])
      | (Some e, w1) \<Rightarrow>
          (if e = ProcessLookupError then None else Some (OSError e), w1, [Kill pid sig (Some e)]))"

fun wait_gone :: "'w os \<Rightarrow> int \<Rightarrow> nat \<Rightarrow> 'w \<Rightarrow> bool \<times> 'w \<times> event list" where
  \<comment> \<open>the loop \<open>for _ in range(n)\<close> around the liveness check; \<open>True\<close> when it was left by
      \<open>break\<close>, \<open>False\<close> when it ran out\<close>
  "wait_gone os pid 0 w = (False, w, [])"
| "wait_gone os pid (Suc n) w =
     (case os_kill os pid SIG0 w of
        (Some e, w1) \<Rightarrow> (True, w1, [Kill pid SIG0 (Some e)])
      | (None, w1) \<Rightarrow>
          (case wait_gone os pid n (os_sleep os w1) of
             (left, w2, evs) \<Rightarrow> (left, w2, Kill pid SIG0 None # Sleep # evs)))"

definition terminate :: "'w os \<Rightarrow> int \<Rightarrow> 'w \<Rightarrow> outcome \<times> 'w \<times> event list" where
  \<comment> \<open>the graceful signal, the bounded wait, and the forceful signal when the process is
      still alive after it\<close>
  "terminate os pid w =
     (case send_signal os pid SIGTERM w of
        (Some e, w1, ev1) \<Rightarrow> (Raised e, w1, ev1)
      | (None, w1, ev1) \<Rightarrow>
          (case wait_gone os pid 30 w1 of
             (True, w2, ev2) \<Rightarrow> (Returned, w2, ev1 @ ev2 @ [Cprint ''Stopped'' Color_G])
           | (False, w2, ev2) \<Rightarrow>
               (case os_kill os pid SIG0 w2 of
                  (Some e, w3) \<Rightarrow>
                    (Returned, w3, ev1 @ ev2 @ [Kill pid SIG0 (Some e), Cprint ''Stopped'' Color_G])
                | (None, w3) \<Rightarrow>
                    (case send_signal os pid SIGKILL w3 of
                       (Some e, w4, ev4) \<Rightarrow>
                         (Raised e, w4,
                          ev1 @ ev2 @ [Kill pid SIG0 None, Cprint ''Force killing...'' Color_Y] @ ev4)
                     | (None, w4, ev4) \<Rightarrow>
                         (Returned, w4,
                          ev1 @ ev2 @ [Kill pid SIG0 None, Cprint ''Force killing...'' Color_Y] @ ev4
                            @ [Cprint ''Stopped'' Color_G])))))"

definition stop_pid :: "'w os \<Rightarrow> int \<Rightarrow> int list \<Rightarrow> 'w \<Rightarrow> outcome \<times> 'w \<times> event list" where
  \<comment> \<open>\<open>server_stop\<close> once a single pid is chosen\<close>
  "stop_pid os pid ports w =
     (case terminate os pid w of
        (out, w1, evs) \<Rightarrow>
          (out, w1,
           Cprint (''Stopping server PID '' @ str pid @ '' (ports='' @ ports_text ports @ '')'') Color_C # evs))"

definition stop_servers :: "'w os \<Rightarrow> args \<Rightarrow> (int \<times> int) list \<Rightarrow> 'w \<Rightarrow> outcome \<times> 'w \<times> event list" where
  \<comment> \<open>\<open>server_stop\<close> from the grouping on; \<open>servers\<close> is not empty\<close>
  "stop_servers os args servers w =
     (let grouped = group_by_pid servers [] in
      if length grouped > 1 then
        (Returned, w,
         [Cprint ''Multiple servers detected (ambiguous stop):'' Color_Y]
           @ pid_lines '' ports '' grouped
           @ (if a_port args = None then [Cprint ''Hint: specify --port to target a specific one.'' Color_C] else []))
      else (case grouped of
              [] \<Rightarrow> (Raised StopIteration, w, [])
            | (pid, ports) # _ \<Rightarrow> stop_pid os pid ports w))"

definition server_stop :: "'w os \<Rightarrow> args \<Rightarrow> 'w \<Rightarrow> outcome \<times> 'w \<times> event list" where
  "server_stop os args w =
     (case scan os w of
        (Inl e, w1) \<Rightarrow> (Raised e, w1, [Scan (Inl e)])
      | (Inr servers, w1) \<Rightarrow>
          if servers = [] then (Returned, w1, [Scan (Inr servers), Cprint ''No running server detected'' Color_Y])
          else (case a_port args of
                  None \<Rightarrow>
                    (case stop_servers os args servers w1 of
                       (out, w2, evs) \<Rightarrow> (out, w2, Scan (Inr servers) # evs))
                | Some p \<Rightarrow>
                    let servers' = filter (\<lambda>s. snd s = p) servers in
                    if servers' = [] then
                      (Returned, w1, [Scan (Inr servers), Cprint ''No server on specified port'' Color_Y])
                    else (case stop_servers os args servers' w1 of
                            (out, w2, evs) \<Rightarrow> (out, w2, Scan (Inr servers) # evs))))"

subsection \<open>status\<close>

definition health_check :: "'w os \<Rightarrow> args \<Rightarrow> int \<Rightarrow> 'w \<Rightarrow> 'w \<times> event list" where
  "health_check os args p w =
     (let url = ''http://'' @ a_bind args @ '':'' @ str p @ ''/'' in
      case os_urlopen os url (a_timeout args) (os_sleep os w) of
        (Inr status, w1) \<Rightarrow> (w1, [Sleep, UrlOpen url, Cprint (''Health OK HTTP '' @ str status) Color_G])
      | (Inl e, w1) \<Rightarrow>
          (w1, [Sleep, UrlOpen url, Cprint (''Health check failed: '' @ e) Color_R,
                Cprint ''Possible causes: server still starting, port/firewall blocked, wrong bind/port used.'' Color_Y]))"

definition status_servers :: "'w os \<Rightarrow> args \<Rightarrow> (int \<times> int) list \<Rightarrow> 'w \<Rightarrow> outcome \<times> 'w \<times> event list" where
  \<comment> \<open>\<open>server_status\<close> from the grouping on; \<open>servers\<close> is not empty\<close>
  "status_servers os args servers w =
     (let grouped = group_by_pid servers [] in
      if length grouped > 1 \<and> a_port args = None then
        (Returned, w,
         [Cprint ''Multiple servers detected:'' Color_Y]
           @ pid_lines '' ports '' grouped
           @ [Cprint ''Specify --port for detailed health check.'' Color_C])
      else (case grouped of
              [] \<Rightarrow> (Raised IndexError, w, [])
            | (pid, ports) # _ \<Rightarrow>
                let ev0 = [Cprint (''Running (PID '' @ str pid @ '') (ports='' @ ports_text ports @ '')'') Color_G] in
                (case ports of
                   [p] \<Rightarrow> (case health_check os args p w of (w1, evs) \<Rightarrow> (Returned, w1, ev0 @ evs))
                 | _ \<Rightarrow> (Returned, w, ev0))))"

definition server_status :: "'w os \<Rightarrow> args \<Rightarrow> 'w \<Rightarrow> outcome \<times> 'w \<times> event list" where
  "server_status os args w =
     (case scan os w of
        (Inl e, w1) \<Rightarrow> (Raised e, w1, [Scan (Inl e)])
      | (Inr servers, w1) \<Rightarrow>
          if servers = [] then (Returned, w1, [Scan (Inr servers), Cprint ''Not running'' Color_R])
          else (case a_port args of
                  None \<Rightarrow>
                    (case status_servers os args servers w1 of
                       (out, w2, evs) \<Rightarrow> (out, w2, Scan (Inr servers) # evs))
                | Some p \<Rightarrow>
                    let servers' = filter (\<lambda>s. snd s = p) servers in
                    if servers' = [] then
                      (Returned, w1, [Scan (Inr servers), Cprint ''Not running on specified port'' Color_R])
                    else (case status_servers os args servers' w1 of
                            (out, w2, evs) \<Rightarrow> (out, w2, Scan (Inr servers) # evs))))"

subsection \<open>start\<close>

definition migrate_log :: "'w os \<Rightarrow> args \<Rightarrow> 'w \<Rightarrow> 'w \<times> event list" where
  \<comment> \<open>the relocation of the old log file; whatever \<open>mkdir\<close> or \<open>replace\<close> raises is dropped\<close>
  "migrate_log os args w =
     (let log_file = os_resolve os (a_log_file args) w;
          old_root_log = os_resolve os ''.images_http.log'' w in
      if \<not> os_exists os log_file w \<and> os_exists os old_root_log w \<and> old_root_log \<noteq> log_file then
        (case os_mkdir os (parent log_file) w of
           (Some e, w1) \<Rightarrow> (w1, [Mkdir (parent log_file)])
         | (None, w1) \<Rightarrow>
             (case os_replace os old_root_log log_file w1 of
                (r, w2) \<Rightarrow> (w2, [Mkdir (parent log_file), Replace old_root_log log_file])))
      else (w, []))"

fun confirm_poll :: "'w os \<Rightarrow> int \<Rightarrow> nat \<Rightarrow> 'w \<Rightarrow> (exn + int option) \<times> 'w \<times> event list" where
  \<comment> \<open>the parent's loop \<open>for _ in range(n)\<close>: the first pid found on the port, or \<open>None\<close>
      when the loop ran out\<close>
  "confirm_poll os port 0 w = (Inr None, w, [])"
| "confirm_poll os port (Suc n) w =
     (case scan os w of
        (Inl e, w1) \<Rightarrow> (Inl e, w1, [Scan (Inl e)])
      | (Inr servers, w1) \<Rightarrow>
          (case filter (\<lambda>s. snd s = port) servers of
             (spid, _) # _ \<Rightarrow> (Inr (Some spid), w1, [Scan (Inr servers)])
           | [] \<Rightarrow>
               (case confirm_poll os port n (os_sleep os w1) of
                  (r, w2, evs) \<Rightarrow> (r, w2, Scan (Inr servers) # Sleep # evs))))"

definition child :: "'w os \<Rightarrow> args \<Rightarrow> int \<Rightarrow> string \<Rightarrow> string \<Rightarrow> 'w \<Rightarrow> outcome \<times> 'w \<times> event list" where
  \<comment> \<open>the forked child: new session, working directory, log file in place of the standard
      streams, then the HTTP server\<close>
  "child os args port serve_dir log_file w =
     (case os_chdir os serve_dir w of
        (Some e, w1) \<Rightarrow> (Raised e, w1, [Setsid, Chdir serve_dir])
      | (None, w1) \<Rightarrow>
          (case os_open_log os log_file w1 of
             (Some e, w2) \<Rightarrow> (Raised e, w2, [Setsid, Chdir serve_dir, OpenLog log_file])
           | (None, w2) \<Rightarrow>
               (case os_mkdir os (parent log_file) w2 of
                  (Some e, w3) \<Rightarrow>
                    (Raised e, w3, [Setsid, Chdir serve_dir, OpenLog log_file, Mkdir (parent log_file)])
                | (None, w3) \<Rightarrow>
                    (let evs = [Setsid, Chdir serve_dir, OpenLog log_file, Mkdir (parent log_file),
                                Serve (a_bind args) port] in
                     case os_serve os (a_bind args) port w3 of
                       (BindFailed e, w4) \<Rightarrow>
                         (Exited 1, w4,
                          evs @ [LogWrite (''Failed to bind '' @ a_bind args @ '':'' @ str port @ '' -> '' @ e
                                   @ [CHR 0x0A])])
                     | (Interrupted, w4) \<Rightarrow> (Exited 0, w4, evs)
                     | (Forever, w4) \<Rightarrow> (Serving, w4, evs)))))"

definition start_new :: "'w os \<Rightarrow> args \<Rightarrow> int \<Rightarrow> string \<Rightarrow> string \<Rightarrow> 'w \<Rightarrow> outcome \<times> 'w \<times> event list" where
  \<comment> \<open>\<open>server_start\<close> from the probe of the port on\<close>
  "start_new os args port serve_dir log_file w =
     (case os_connect os (a_bind args) port w of
        (Inl e, w1) \<Rightarrow> (Raised e, w1, [Connect (a_bind args) port])
      | (Inr True, w1) \<Rightarrow>
          (Returned, w1,
           [Connect (a_bind args) port,
            Cprint (''Port '' @ str port @ '' already in use on '' @ a_bind args @ ''. Abort start.'') Color_R,
            Cprint (''Suggestion: use '' @ [CHR 0x27] @ ''ss -lntp | grep :'' @ str port @ [CHR 0x27]
                      @ '' to find process or choose --port.'') Color_Y])
      | (Inr False, w1) \<Rightarrow>
          (let ev1 = [Connect (a_bind args) port]
                 @ (if a_bind args = ''0.0.0.0''
                    then [Cprint ''WARNING: Serving on 0.0.0.0 (all interfaces). Ensure this is intended; consider firewalling or using --bind specific IP.'' Color_Y]
                    else [])
                 @ [Cprint (''Starting HTTP server on '' @ a_bind args @ '':'' @ str port @ '' serving '' @ serve_dir) Color_C,
                    Fork] in
           case os_fork os w1 of
             (Inl e, w2) \<Rightarrow> (Raised e, w2, ev1)
           | (Inr pid, w2) \<Rightarrow>
               if pid > 0 then
                 (case confirm_poll os port 30 w2 of
                    (Inl e, w3, evs) \<Rightarrow> (Raised e, w3, ev1 @ evs)
                  | (Inr (Some m), w3, evs) \<Rightarrow>
                      (Returned, w3, ev1 @ evs @ [Cprint (''Started (PID '' @ str m @ '')'') Color_G])
                  | (Inr None, w3, evs) \<Rightarrow>
                      (Returned, w3,
                       ev1 @ evs @ [Cprint (''Started (child PID '' @ str pid @ '') but listener not confirmed'') Color_Y]))
               else (case child os args port serve_dir log_file w2 of
                       (out, w3, evs) \<Rightarrow> (out, w3, ev1 @ evs))))"

definition msg_port :: "args \<Rightarrow> (int \<times> int) list \<Rightarrow> string" where
  "msg_port args existing =
     (case a_port args of
        Some p \<Rightarrow> str p
      | None \<Rightarrow> join ''/'' (sort (remdups (map (\<lambda>s. str (snd s)) existing))))"

definition server_start :: "'w os \<Rightarrow> args \<Rightarrow> 'w \<Rightarrow> outcome \<times> 'w \<times> event list" where
  "server_start os args0 w =
     (let port = (case a_port args0 of None \<Rightarrow> DEFAULT_PORT | Some p \<Rightarrow> p);
          args = args0\<lparr>a_port := Some port\<rparr>;
          log_file = os_resolve os (a_log_file args) w;
          serve_dir = os_resolve os (a_dir args) w in
      case migrate_log os args w of
        (w1, ev1) \<Rightarrow>
          if \<not> os_is_dir os serve_dir w1 then
            (Exited 1, w1, ev1 @ [Cprint (''Directory not found: '' @ serve_dir) Color_R])
          else (case scan os w1 of
                  (Inl e, w2) \<Rightarrow> (Raised e, w2, ev1 @ [Scan (Inl e)])
                | (Inr servers, w2) \<Rightarrow>
                    (let existing = filter (\<lambda>s. a_port args = None \<or> Some (snd s) = a_port args) servers in
                     if existing \<noteq> [] \<and> (a_port args = None \<or> list_ex (\<lambda>s. Some (snd s) = a_port args) existing)
                     then
                       (Returned, w2,
                        ev1 @ [Scan (Inr servers),
                               Cprint (''Server already running (PID '' @ str (fst (hd existing)) @ '') on port ''
                                         @ msg_port args existing @ ''.'') Color_Y])
                     else (case start_new os args port serve_dir log_file w2 of
                             (out, w3, evs) \<Rightarrow> (out, w3, ev1 @ Scan (Inr servers) # evs)))))"

subsection \<open>restart and the entry point\<close>

definition server_restart :: "'w os \<Rightarrow> args \<Rightarrow> 'w \<Rightarrow> outcome \<times> 'w \<times> event list" where
  "server_restart os args w =
     (case server_stop os args w of
        (out, w1, ev1) \<Rightarrow>
          if out = Returned then
            (case server_start os args w1 of (out2, w2, ev2) \<Rightarrow> (out2, w2, ev1 @ ev2))
          else (out, w1, ev1))"

definition main :: "'w os \<Rightarrow> args \<Rightarrow> 'w \<Rightarrow> outcome \<times> 'w \<times> event list" where
  \<comment> \<open>\<open>main\<close> after \<open>parse_args\<close>; the colours are kept by name, so \<open>--no-color\<close> changes
      nothing here\<close>
  "main os args w =
     (if a_cmd args = ''start'' then server_start os args w
      else if a_cmd args = ''stop'' then server_stop os args w
      else if a_cmd args = ''status'' then server_status os args w
      else if a_cmd args = ''restart'' then server_restart os args w
      else (Exited 2, w, [Print ''Unknown command'']))"

fun exit_code :: "outcome \<Rightarrow> int option" where
  \<comment> \<open>the exit status of the interpreter; a process that serves has none yet\<close>
  "exit_code Returned = Some 0"
| "exit_code (Exited n) = Some n"
| "exit_code (Raised e) = Some 1"
| "exit_code Serving = None"

section \<open>What the specification says of discovery\<close>

text \<open>
  The words of the specification, as predicates over one scan of \<open>/proc\<close>: the table of
  listening sockets, a managed process, a descriptor of a socket that the table maps to a
  port, a row the reader must skip. They are stated apart from the loops of
  \<open>discover_servers\<close> and compared with them below.
\<close>

definition table_rows :: "table_file \<Rightarrow> string list" where
  \<comment> \<open>the lines after the header, of a table that could be opened\<close>
  "table_rows t = (case t of Lines (header # rows) e \<Rightarrow> rows | _ \<Rightarrow> [])"

definition readable :: "table_file \<Rightarrow> bool" where
  \<comment> \<open>the table is missing or may not be opened, or it is read to its end and has its header
      line\<close>
  "readable t =
     (case t of Missing \<Rightarrow> True | Denied \<Rightarrow> True | Unopenable \<Rightarrow> False
      | Lines ls e \<Rightarrow> ls \<noteq> [] \<and> e = Eof)"

definition names_ok :: "proc_entry list \<Rightarrow> bool" where
  \<comment> \<open>a name of digits only is a decimal number\<close>
  "names_ok ds = list_all (\<lambda>d. if isdigit (d_name d) then py_int 10 (d_name d) \<noteq> None else True) ds"

definition pid_list :: "proc_entry list \<Rightarrow> int option list" where
  "pid_list ds = map (\<lambda>d. py_int 10 (d_name d)) (filter (\<lambda>d. isdigit (d_name d)) ds)"

definition listening_row :: "string \<Rightarrow> (int \<times> int) option" where
  \<comment> \<open>a row of a socket table: among at least ten columns, the second is \<open>address:port\<close>
      with the port in hexadecimal, the fourth is the state, \<open>0A\<close> for listening, and the
      tenth is the inode; a listening socket gives (inode, port)\<close>
  "listening_row line =
     (let columns = split line in
      if 10 \<le> length columns \<and> columns ! 3 = ''0A'' then
        (case (split_on CHR '':'' (columns ! 1), py_int 10 (columns ! 9)) of
           ([address, port], Some inode) \<Rightarrow> map_option (Pair inode) (py_int 16 port)
         | _ \<Rightarrow> None)
      else None)"

definition listening :: "procfs \<Rightarrow> (int \<times> int) list" where
  \<comment> \<open>the listening sockets of both tables, IPv4 first, in the order of the rows\<close>
  "listening P = List.map_filter listening_row (table_rows (tcp P) @ table_rows (tcp6 P))"

definition socket_table :: "procfs \<Rightarrow> int \<Rightarrow> int option" where
  \<comment> \<open>the listening-socket table: the port of the last listening socket with this inode\<close>
  "socket_table P = map_of (rev (listening P))"

definition well_formed :: "procfs \<Rightarrow> bool" where
  \<comment> \<open>\<open>/proc\<close> as the kernel presents it: a table that opens is text that starts with its
      header line, no socket listens on port 0, the directory can be listed, and there is
      one directory per process, named by the pid in decimal\<close>
  "well_formed P =
     (readable (tcp P) \<and> readable (tcp6 P) \<and> 0 \<notin> set (map snd (listening P))
      \<and> listing P = None \<and> names_ok (entries P) \<and> distinct (pid_list (entries P)))"

definition managed :: "proc_entry \<Rightarrow> bool" where
  \<comment> \<open>the command line can be read and one of its tokens contains the program's name\<close>
  "managed d = (case d_cmdline d of None \<Rightarrow> False | Some raw \<Rightarrow> is_server raw)"

definition holds_socket :: "(int \<Rightarrow> int option) \<Rightarrow> proc_entry \<Rightarrow> int \<Rightarrow> bool" where
  \<comment> \<open>some descriptor of the process is a socket whose inode the table maps to the port\<close>
  "holds_socket table d port =
     (case d_fd d of
        None \<Rightarrow> False
      | Some ls \<Rightarrow>
          list_ex (\<lambda>l. case l of
                         None \<Rightarrow> False
                       | Some target \<Rightarrow>
                           (case socket_inode target of
                              None \<Rightarrow> False
                            | Some i \<Rightarrow> table i = Some port)) ls)"

definition serving :: "(int \<Rightarrow> int option) \<Rightarrow> proc_entry list \<Rightarrow> int \<Rightarrow> int \<Rightarrow> bool" where
  \<comment> \<open>\<open>pid\<close> is a managed process that holds a socket the table maps to \<open>port\<close>\<close>
  "serving table ds pid port =
     list_ex (\<lambda>d. isdigit (d_name d) \<and> py_int 10 (d_name d) = Some pid \<and> managed d
                   \<and> holds_socket table d port) ds"

definition number_char :: "int \<Rightarrow> char \<Rightarrow> bool" where
  \<comment> \<open>a character that the text of a number in this base can hold: a digit of the base, a
      sign, an underscore, the \<open>x\<close> of the prefix \<open>0x\<close>, or white space\<close>
  "number_char base c = (digit_value c < base \<or> c \<in> set ''+-_xX'' \<or> int_space c)"

definition no_number :: "int \<Rightarrow> string \<Rightarrow> bool" where
  \<comment> \<open>text that is a number in no notation: it has no digit of the base, or it has a
      character that no number holds\<close>
  "no_number base s = (list_all (\<lambda>c. base \<le> digit_value c) s \<or> list_ex (\<lambda>c. \<not> number_char base c) s)"

definition malformed :: "string \<Rightarrow> bool" where
  \<comment> \<open>a short row, or one whose local address is not \<open>address:port\<close>, or whose port or
      inode is no number\<close>
  "malformed line =
     (let columns = split line in
      length columns < 10
      \<or> length (split_on CHR '':'' (columns ! 1)) \<noteq> 2
      \<or> no_number 16 (split_on CHR '':'' (columns ! 1) ! 1)
      \<or> no_number 10 (columns ! 9))"

definition entry_pairs :: "inode_map \<Rightarrow> proc_entry \<Rightarrow> (int \<times> int) list" where
  \<comment> \<open>what one entry of \<open>/proc\<close> adds to \<open>results\<close>\<close>
  "entry_pairs m d =
     (if isdigit (d_name d) \<and> managed d then
        (case py_int 10 (d_name d) of
           None \<Rightarrow> []
         | Some pid \<Rightarrow> map (Pair pid) (case d_fd d of None \<Rightarrow> [] | Some ls \<Rightarrow> scan_fds m ls []))
      else [])"

subsection \<open>Scans used as examples\<close>

definition header_line :: string where
  "header_line = ''  sl  local_address rem_address   st tx_queue rx_queue tr tm->when retrnsmt   uid  timeout inode''"

definition row :: "string \<Rightarrow> string \<Rightarrow> string \<Rightarrow> string" where
  \<comment> \<open>a row of \<open>/proc/net/tcp\<close> with this port (hexadecimal), state and inode\<close>
  "row phex st inode =
     ''   0: 00000000:'' @ phex @ '' 00000000:0000 '' @ st
       @ '' 00000000:00000000 00:00000000 00000000  1000        0 '' @ inode
       @ '' 1 0000000000000000 100 0 0 10 0''"

definition server_cmdline :: string where
  "server_cmdline = ''python3'' @ [CHR 0x00] @ ''http_server.py'' @ [CHR 0x00] @ ''start'' @ [CHR 0x00]"

definition other_entries :: "proc_entry list" where
  "other_entries =
     [\<lparr>d_name = ''self'', d_cmdline = None, d_fd = None\<rparr>,
      \<lparr>d_name = ''1'', d_cmdline = Some (''/sbin/init'' @ [CHR 0x00]), d_fd = None\<rparr>]"

definition server_entry :: "string \<Rightarrow> string option list \<Rightarrow> proc_entry" where
  "server_entry pid links = \<lparr>d_name = pid, d_cmdline = Some server_cmdline, d_fd = Some links\<rparr>"

definition two_rows :: table_file where
  \<comment> \<open>inode 111 listens on port 8000; inode 222 has port 8000 in another state\<close>
  "two_rows = Lines [header_line, row ''1F40'' ''0A'' ''111'', row ''1F40'' ''01'' ''222''] Eof"

definition example_111 :: procfs where
  "example_111 =
     \<lparr>tcp = two_rows, tcp6 = Missing,
      entries = other_entries
        @ [server_entry ''4242'' [Some ''/dev/null'', Some ''socket:[111]'', Some ''socket:[111]'']],
      listing = None\<rparr>"

definition example_222 :: procfs where
  "example_222 =
     \<lparr>tcp = two_rows, tcp6 = Missing,
      entries = other_entries @ [server_entry ''4242'' [Some ''/dev/null'', Some ''socket:[222]'']],
      listing = None\<rparr>"

definition row6 :: "string \<Rightarrow> string \<Rightarrow> string \<Rightarrow> string" where
  \<comment> \<open>a row of \<open>/proc/net/tcp6\<close>\<close>
  "row6 phex st inode =
     ''   0: 00000000000000000000000000000000:'' @ phex @ '' 00000000000000000000000000000000:0000 '' @ st
       @ '' 00000000:00000000 00:00000000 00000000  1000        0 '' @ inode
       @ '' 1 0000000000000000 100 0 0 10 0''"

definition example_tcp6 :: procfs where
  \<comment> \<open>the server listens on port 8080 with an IPv6 socket, inode 333, which only the second
      table lists\<close>
  "example_tcp6 =
     \<lparr>tcp = two_rows, tcp6 = Lines [header_line, row6 ''1F90'' ''0A'' ''333''] Eof,
      entries = other_entries @ [server_entry ''4242'' [Some ''/dev/null'', Some ''socket:[333]'']],
      listing = None\<rparr>"

definition example_broken_link :: procfs where
  \<comment> \<open>a row that is no row, a table that may not be read, a process that is gone, and a
      server whose first link cannot be read while the second is the listening socket\<close>
  "example_broken_link =
     \<lparr>tcp = Lines [header_line, ''bogus'', row ''1F40'' ''0A'' ''111''] Eof, tcp6 = Denied,
      entries = [\<lparr>d_name = ''77'', d_cmdline = None, d_fd = None\<rparr>,
                 server_entry ''4242'' [None, Some ''socket:[111]'']],
      listing = None\<rparr>"

definition example_two_pids :: procfs where
  \<comment> \<open>inode 111 listens on port 8000 and inode 112 on port 9000; process 4242 holds the
      first socket, process 4343 holds both\<close>
  "example_two_pids =
     \<lparr>tcp = Lines [header_line, row ''1F40'' ''0A'' ''111'', row ''2328'' ''0A'' ''112''] Eof, tcp6 = Missing,
      entries = [server_entry ''4242'' [Some ''socket:[111]''],
                 server_entry ''4343'' [Some ''socket:[112]'', Some ''socket:[111]'']],
      listing = None\<rparr>"

definition example_9000 :: procfs where
  \<comment> \<open>one server, pid 4343, on port 9000\<close>
  "example_9000 =
     \<lparr>tcp = Lines [header_line, row ''2328'' ''0A'' ''112''] Eof, tcp6 = Missing,
      entries = other_entries @ [server_entry ''4343'' [Some ''socket:[112]'']],
      listing = None\<rparr>"

definition example_started :: procfs where
  \<comment> \<open>the same, and a second server, pid 5000, on port 8000\<close>
  "example_started =
     \<lparr>tcp = Lines [header_line, row ''2328'' ''0A'' ''112'', row ''1F40'' ''0A'' ''113''] Eof, tcp6 = Missing,
      entries = other_entries @ [server_entry ''4343'' [Some ''socket:[112]''],
                                 server_entry ''5000'' [Some ''socket:[113]'']],
      listing = None\<rparr>"

definition example_idle :: procfs where
  \<comment> \<open>no server runs\<close>
  "example_idle = \<lparr>tcp = two_rows, tcp6 = Missing, entries = other_entries, listing = None\<rparr>"

definition example_empty_table :: procfs where
  \<comment> \<open>the first table is a file without any line\<close>
  "example_empty_table = example_111\<lparr>tcp := Lines [] Eof\<rparr>"

definition example_undecodable :: procfs where
  \<comment> \<open>after its first row the first table holds a byte that the codec rejects\<close>
  "example_undecodable = example_111\<lparr>tcp := Lines [header_line, row ''1F40'' ''0A'' ''111''] Undecodable\<rparr>"

definition example_unopenable :: procfs where
  \<comment> \<open>opening the second table fails with an error that is neither of the two handled\<close>
  "example_unopenable = example_111\<lparr>tcp6 := Unopenable\<rparr>"

definition example_unlistable :: procfs where
  \<comment> \<open>listing \<open>/proc\<close> fails\<close>
  "example_unlistable = example_111\<lparr>listing := Some OtherOSError\<rparr>"

definition example_superscript :: procfs where
  \<comment> \<open>an entry whose name is the superscript two, which \<open>str.isdigit\<close> accepts and \<open>int\<close>
      rejects\<close>
  "example_superscript =
     example_111\<lparr>entries := \<lparr>d_name = [CHR 0xB2], d_cmdline = None, d_fd = None\<rparr> # entries example_111\<rparr>"

section \<open>What the specification says of the controller\<close>

definition selected :: "args \<Rightarrow> (int \<times> int) list \<Rightarrow> (int \<times> int) list" where
  \<comment> \<open>the discovery result after the optional port filter\<close>
  "selected args servers = (case a_port args of None \<Rightarrow> servers | Some p \<Rightarrow> filter (\<lambda>s. snd s = p) servers)"

definition ports_of :: "int \<Rightarrow> (int \<times> int) list \<Rightarrow> int list" where
  "ports_of pid servers = map snd (filter (\<lambda>s. fst s = pid) servers)"

definition is_probe :: "event \<Rightarrow> bool" where
  \<comment> \<open>a liveness check\<close>
  "is_probe e = (case e of Kill pid sig r \<Rightarrow> sig = SIG0 | _ \<Rightarrow> False)"

definition is_signal :: "event \<Rightarrow> bool" where
  \<comment> \<open>a termination signal, graceful or forceful\<close>
  "is_signal e = (case e of Kill pid sig r \<Rightarrow> sig \<noteq> SIG0 | _ \<Rightarrow> False)"

definition is_scan :: "event \<Rightarrow> bool" where
  "is_scan e = (case e of Scan r \<Rightarrow> True | _ \<Rightarrow> False)"

definition refused :: "event \<Rightarrow> bool" where
  \<comment> \<open>a termination signal that failed with an error other than that the process is gone\<close>
  "refused e = (case e of Kill pid sig r \<Rightarrow> sig \<noteq> SIG0 \<and> r \<noteq> None \<and> r \<noteq> Some ProcessLookupError | _ \<Rightarrow> False)"

definition is_migration :: "event \<Rightarrow> bool" where
  "is_migration e = (case e of Mkdir p \<Rightarrow> True | Replace a b \<Rightarrow> True | _ \<Rightarrow> False)"

definition lists_port :: "int \<Rightarrow> event \<Rightarrow> bool" where
  \<comment> \<open>a scan that returned a list with a server on the port\<close>
  "lists_port port e = (case e of Scan (Inr servers) \<Rightarrow> list_ex (\<lambda>s. snd s = port) servers | _ \<Rightarrow> False)"

definition quiet :: "int \<Rightarrow> event \<Rightarrow> bool" where
  \<comment> \<open>not a scan that raised, and not a scan that lists a server on the port\<close>
  "quiet port e =
     (case e of
        Scan (Inr servers) \<Rightarrow> \<not> list_ex (\<lambda>s. snd s = port) servers
      | Scan (Inl x) \<Rightarrow> False
      | _ \<Rightarrow> True)"

definition polls :: "int \<Rightarrow> nat \<Rightarrow> event list" where
  \<comment> \<open>\<open>k\<close> rounds of the loop after the graceful signal in which the process was alive\<close>
  "polls pid k = concat (replicate k [Kill pid SIG0 None, Sleep])"

definition accepted :: "oserror option \<Rightarrow> bool" where
  \<comment> \<open>what \<open>os.kill\<close> answers to a termination signal that is not refused: nothing, or that
      there is no such process\<close>
  "accepted a = (a = None \<or> a = Some ProcessLookupError)"

definition announce :: "int \<Rightarrow> (int \<times> int) list \<Rightarrow> event" where
  \<comment> \<open>the line that names the pid about to be stopped, with its ports\<close>
  "announce pid servers =
     Cprint (''Stopping server PID '' @ str pid @ '' (ports='' @ ports_text (ports_of pid servers) @ '')'') Color_C"

definition alive :: "'w os \<Rightarrow> int \<Rightarrow> 'w \<Rightarrow> bool" where
  \<comment> \<open>the liveness check, made in this world, finds the process\<close>
  "alive os pid w = (fst (os_kill os pid SIG0 w) = None)"

fun waited :: "'w os \<Rightarrow> int \<Rightarrow> nat \<Rightarrow> 'w \<Rightarrow> 'w" where
  \<comment> \<open>the world after \<open>k\<close> rounds of liveness check and sleep\<close>
  "waited os pid 0 w = w"
| "waited os pid (Suc k) w = waited os pid k (os_sleep os (snd (os_kill os pid SIG0 w)))"

definition absent :: "'w os \<Rightarrow> int \<Rightarrow> 'w \<Rightarrow> bool" where
  \<comment> \<open>discovery, run in this world, returns a list without a server on the port\<close>
  "absent os port w =
     (case fst (scan os w) of Inr servers \<Rightarrow> \<not> list_ex (\<lambda>s. snd s = port) servers | Inl e \<Rightarrow> False)"

fun polled :: "'w os \<Rightarrow> nat \<Rightarrow> 'w \<Rightarrow> 'w" where
  \<comment> \<open>the world after \<open>k\<close> rounds of discovery and sleep\<close>
  "polled os 0 w = w"
| "polled os (Suc k) w = polled os k (os_sleep os (snd (scan os w)))"

fun poll_events :: "'w os \<Rightarrow> nat \<Rightarrow> 'w \<Rightarrow> event list" where
  \<comment> \<open>the events of these rounds\<close>
  "poll_events os 0 w = []"
| "poll_events os (Suc k) w = Scan (fst (scan os w)) # Sleep # poll_events os k (os_sleep os (snd (scan os w)))"

definition launch_events :: "args \<Rightarrow> int \<Rightarrow> string \<Rightarrow> event list" where
  \<comment> \<open>the probe of the port that found nothing, the warning for the wildcard address, the
      announcement and the fork\<close>
  "launch_events args port serve_dir =
     [Connect (a_bind args) port]
       @ (if a_bind args = ''0.0.0.0''
          then [Cprint ''WARNING: Serving on 0.0.0.0 (all interfaces). Ensure this is intended; consider firewalling or using --bind specific IP.'' Color_Y]
          else [])
       @ [Cprint (''Starting HTTP server on '' @ a_bind args @ '':'' @ str port @ '' serving '' @ serve_dir) Color_C,
          Fork]"

definition requested_port :: "args \<Rightarrow> int" where
  \<comment> \<open>the port \<open>server_start\<close> works with\<close>
  "requested_port args = (case a_port args of None \<Rightarrow> DEFAULT_PORT | Some p \<Rightarrow> p)"

definition stop_report :: string where
  "stop_report = ''Multiple servers detected (ambiguous stop):''"

definition status_report :: string where
  "status_report = ''Multiple servers detected:''"

subsection \<open>An operating system used as an example\<close>

record sim =
  sim_proc :: procfs
  sim_after :: procfs
  sim_survives :: nat
  sim_files :: "string list"
  sim_dirs :: "string list"
  sim_port_answers :: bool
  sim_fork :: int

definition sim_os :: "sim os" where
  \<comment> \<open>every scan sees \<open>sim_proc\<close>, which a fork replaces by \<open>sim_after\<close>; the process
      survives \<open>sim_survives\<close> more liveness checks; paths are relative to \<open>/srv\<close>\<close>
  "sim_os =
     \<lparr>os_scan = (\<lambda>w. (sim_proc w, w)),
      os_kill = (\<lambda>pid sig w.
        case sig of
          SIGTERM \<Rightarrow> (if sim_survives w = 0 then Some ProcessLookupError else None, w)
        | SIGKILL \<Rightarrow> (None, w\<lparr>sim_survives := 0\<rparr>)
        | SIG0 \<Rightarrow> if sim_survives w = 0 then (Some ProcessLookupError, w)
                  else (None, w\<lparr>sim_survives := sim_survives w - 1\<rparr>)),
      os_sleep = (\<lambda>w. w),
      os_resolve = (\<lambda>p w. if startswith ''/'' p then p else ''/srv/'' @ p),
      os_exists = (\<lambda>p w. p \<in> set (sim_files w) \<or> p \<in> set (sim_dirs w)),
      os_is_dir = (\<lambda>p w. p \<in> set (sim_dirs w)),
      os_mkdir = (\<lambda>p w. (None, w\<lparr>sim_dirs := List.insert p (sim_dirs w)\<rparr>)),
      os_replace = (\<lambda>a b w. (None, w\<lparr>sim_files := b # removeAll a (sim_files w)\<rparr>)),
      os_connect = (\<lambda>b p w. (Inr (sim_port_answers w), w)),
      os_fork = (\<lambda>w. (Inr (sim_fork w), w\<lparr>sim_proc := sim_after w\<rparr>)),
      os_chdir = (\<lambda>p w. (None, w)),
      os_open_log = (\<lambda>p w. (None, w)),
      os_serve = (\<lambda>b p w. (Forever, w)),
      os_urlopen = (\<lambda>u t w. (Inr 200, w))\<rparr>"

definition sim_denied :: "sim os" where
  \<comment> \<open>the same, but the caller may not signal the process: every \<open>os.kill\<close> fails with
      \<open>PermissionError\<close>\<close>
  "sim_denied = sim_os\<lparr>os_kill := (\<lambda>pid sig w. (Some PermissionError, w))\<rparr>"

definition sim_kill_denied :: "sim os" where
  \<comment> \<open>the same as \<open>sim_os\<close>, but SIGKILL fails with \<open>PermissionError\<close>\<close>
  "sim_kill_denied =
     sim_os\<lparr>os_kill := (\<lambda>pid sig w. if sig = SIGKILL then (Some PermissionError, w) else os_kill sim_os pid sig w)\<rparr>"

definition sim0 :: sim where
  \<comment> \<open>one server, pid 4242 on port 8000, that is gone at the third liveness check\<close>
  "sim0 =
     \<lparr>sim_proc = example_111, sim_after = example_111, sim_survives = 2,
      sim_files = [''/srv/IMAGES/.images_http.log''], sim_dirs = [''/srv/IMAGES''],
      sim_port_answers = False, sim_fork = 5000\<rparr>"

definition args0 :: args where
  "args0 =
     \<lparr>a_cmd = ''stop'', a_port = None, a_bind = ''0.0.0.0'', a_dir = ''IMAGES'',
      a_log_file = ''IMAGES/.images_http.log'', a_no_color = False, a_timeout = 3\<rparr>"

definition args_start :: args where
  \<comment> \<open>\<open>start\<close> with the defaults\<close>
  "args_start = args0\<lparr>a_cmd := ''start''\<rparr>"

definition sim_9000 :: sim where
  \<comment> \<open>a server on port 9000 only; once forked, the new server, pid 5000, listens on port 8000\<close>
  "sim_9000 = sim0\<lparr>sim_proc := example_9000, sim_after := example_started\<rparr>"

definition sim_old_log :: sim where
  \<comment> \<open>the server runs on port 8000, and the log file is still at its old place\<close>
  "sim_old_log = sim0\<lparr>sim_files := [''/srv/.images_http.log'']\<rparr>"

definition sim_port_taken :: sim where
  \<comment> \<open>no server runs, but something answers on the port\<close>
  "sim_port_taken = sim0\<lparr>sim_proc := example_idle, sim_after := example_idle, sim_port_answers := True\<rparr>"

definition sim_no_dir :: sim where
  \<comment> \<open>there is no directory yet, and the log file is at its old place\<close>
  "sim_no_dir = sim0\<lparr>sim_files := [''/srv/.images_http.log''], sim_dirs := []\<rparr>"

definition sim_idle :: sim where
  \<comment> \<open>no server runs, and none appears after the fork\<close>
  "sim_idle = sim0\<lparr>sim_proc := example_idle, sim_after := example_idle\<rparr>"

section \<open>Discovery\<close>

subsection \<open>The descriptors of one process\<close>

lemma scan_fds_set:
  "set (scan_fds m ls seen) =
     set seen \<union> {port. port \<noteq> 0 \<and> (\<exists>target i. Some target \<in> set ls \<and> socket_inode target = Some i \<and> map_of m i = Some port)}"
proof (induction ls arbitrary: seen)
  case Nil
  then show ?case by simp
next
  case (Cons l ls)
  show ?case
  proof (cases l)
    case None
    then show ?thesis using Cons.IH by auto
  next
    case (Some target)
    then show ?thesis using Cons.IH
      by (auto split: option.splits)
  qed
qed

lemma scan_fds_distinct: "distinct seen \<Longrightarrow> distinct (scan_fds m ls seen)"
  by (induction ls arbitrary: seen) (auto split: option.splits)

lemma holds_socket_iff:
  "holds_socket t d port \<longleftrightarrow>
     (\<exists>ls target i. d_fd d = Some ls \<and> Some target \<in> set ls \<and> socket_inode target = Some i
        \<and> t i = Some port)"
proof (cases "d_fd d")
  case None
  then show ?thesis by (simp add: holds_socket_def)
next
  case (Some ls)
  have "list_ex (\<lambda>l. case l of None \<Rightarrow> False
                      | Some target \<Rightarrow> (case socket_inode target of None \<Rightarrow> False
                                         | Some i \<Rightarrow> t i = Some port)) ls
        \<longleftrightarrow> (\<exists>target i. Some target \<in> set ls \<and> socket_inode target = Some i \<and> t i = Some port)"
    unfolding list_ex_iff
  proof
    assume "\<exists>l\<in>set ls. case l of None \<Rightarrow> False
              | Some target \<Rightarrow> (case socket_inode target of None \<Rightarrow> False | Some i \<Rightarrow> t i = Some port)"
    then obtain l where l: "l \<in> set ls" "case l of None \<Rightarrow> False
              | Some target \<Rightarrow> (case socket_inode target of None \<Rightarrow> False | Some i \<Rightarrow> t i = Some port)"
      by blast
    from l(2) obtain target where t: "l = Some target" by (cases l) auto
    with l(2) obtain i where "socket_inode target = Some i" "t i = Some port"
      by (cases "socket_inode target") auto
    with l(1) t show "\<exists>target i. Some target \<in> set ls \<and> socket_inode target = Some i \<and> t i = Some port"
      by blast
  next
    assume "\<exists>target i. Some target \<in> set ls \<and> socket_inode target = Some i \<and> t i = Some port"
    then obtain target i where "Some target \<in> set ls" "socket_inode target = Some i" "t i = Some port"
      by blast
    then show "\<exists>l\<in>set ls. case l of None \<Rightarrow> False
              | Some target \<Rightarrow> (case socket_inode target of None \<Rightarrow> False | Some i \<Rightarrow> t i = Some port)"
      by (intro bexI[of _ "Some target"]) auto
  qed
  with Some show ?thesis by (simp add: holds_socket_def)
qed

subsection \<open>The entries of /proc\<close>

lemma entry_pairs_Some:
  assumes "isdigit (d_name d)" "managed d" "py_int 10 (d_name d) = Some q"
  shows "entry_pairs m d = map (Pair q) (case d_fd d of None \<Rightarrow> [] | Some ls \<Rightarrow> scan_fds m ls [])"
  using assms unfolding entry_pairs_def by simp

lemma entry_pairs_Nil:
  assumes "\<not> isdigit (d_name d) \<or> \<not> managed d \<or> py_int 10 (d_name d) = None"
  shows "entry_pairs m d = []"
  using assms unfolding entry_pairs_def by (cases "py_int 10 (d_name d)") auto

lemma scan_procs_step:
  assumes "isdigit (d_name d) \<longrightarrow> py_int 10 (d_name d) \<noteq> None"
  shows "scan_procs m (d # ds) rs = scan_procs m ds (rs @ entry_pairs m d)"
proof (cases "isdigit (d_name d)")
  case False
  then show ?thesis by (simp add: entry_pairs_def)
next
  case True
  with assms obtain pid where pid: "py_int 10 (d_name d) = Some pid" by auto
  show ?thesis
  proof (cases "d_cmdline d")
    case None
    with True pid show ?thesis by (simp add: entry_pairs_def managed_def)
  next
    case (Some raw)
    with True pid show ?thesis by (simp add: entry_pairs_def managed_def)
  qed
qed

lemma scan_procs_pairs:
  "names_ok ds \<Longrightarrow> scan_procs m ds rs = Inr (rs @ concat (map (entry_pairs m) ds))"
proof (induction ds arbitrary: rs)
  case Nil
  then show ?case by simp
next
  case (Cons d ds)
  then have ok: "names_ok ds" and d: "isdigit (d_name d) \<longrightarrow> py_int 10 (d_name d) \<noteq> None"
    by (simp_all add: names_ok_def)
  have "scan_procs m (d # ds) rs = scan_procs m ds (rs @ entry_pairs m d)"
    using d by (rule scan_procs_step)
  also have "\<dots> = Inr ((rs @ entry_pairs m d) @ concat (map (entry_pairs m) ds))"
    using ok by (rule Cons.IH)
  finally show ?case by simp
qed

lemma entry_pairs_fst:
  assumes "(a, b) \<in> set (entry_pairs m d)"
  shows "isdigit (d_name d) \<and> py_int 10 (d_name d) = Some a"
proof (cases "\<not> isdigit (d_name d) \<or> \<not> managed d \<or> py_int 10 (d_name d) = None")
  case True
  then have "entry_pairs m d = []" by (rule entry_pairs_Nil)
  with assms show ?thesis by simp
next
  case False
  then obtain q where q: "isdigit (d_name d)" "managed d" "py_int 10 (d_name d) = Some q" by auto
  from assms have "a = q" unfolding entry_pairs_Some[OF q] by auto
  with q show ?thesis by simp
qed

lemma entry_pairs_distinct: "distinct (entry_pairs m d)"
proof (cases "\<not> isdigit (d_name d) \<or> \<not> managed d \<or> py_int 10 (d_name d) = None")
  case True
  then have "entry_pairs m d = []" by (rule entry_pairs_Nil)
  then show ?thesis by simp
next
  case False
  then obtain q where q: "isdigit (d_name d)" "managed d" "py_int 10 (d_name d) = Some q" by auto
  have "distinct (case d_fd d of None \<Rightarrow> [] | Some ls \<Rightarrow> scan_fds m ls [])"
    by (cases "d_fd d") (simp_all add: scan_fds_distinct)
  then show ?thesis unfolding entry_pairs_Some[OF q] by (simp add: distinct_map inj_on_def)
qed

lemma pairs_pid_list:
  assumes "(a, b) \<in> set (concat (map (entry_pairs m) ds))"
  shows "Some a \<in> set (pid_list ds)"
proof -
  from assms obtain d where d: "d \<in> set ds" "(a, b) \<in> set (entry_pairs m d)" by auto
  then have "isdigit (d_name d)" and a: "py_int 10 (d_name d) = Some a"
    by (auto dest: entry_pairs_fst)
  with d(1) have "d \<in> set (filter (\<lambda>d. isdigit (d_name d)) ds)" by simp
  then have "py_int 10 (d_name d) \<in> (\<lambda>d. py_int 10 (d_name d)) ` set (filter (\<lambda>d. isdigit (d_name d)) ds)"
    by (rule imageI)
  then show ?thesis unfolding pid_list_def a by simp
qed

lemma pairs_distinct:
  "distinct (pid_list ds) \<Longrightarrow> distinct (concat (map (entry_pairs m) ds))"
proof (induction ds)
  case Nil
  then show ?case by simp
next
  case (Cons d ds)
  have disj: "set (entry_pairs m d) \<inter> set (concat (map (entry_pairs m) ds)) = {}"
  proof (rule ccontr)
    assume "\<not> ?thesis"
    then obtain a b where 1: "(a, b) \<in> set (entry_pairs m d)"
      and 2: "(a, b) \<in> set (concat (map (entry_pairs m) ds))" by auto
    from 1 have "isdigit (d_name d)" "py_int 10 (d_name d) = Some a" by (auto dest: entry_pairs_fst)
    moreover from 2 have "Some a \<in> set (pid_list ds)" by (rule pairs_pid_list)
    ultimately show False using Cons.prems by (auto simp: pid_list_def)
  qed
  from Cons have "distinct (concat (map (entry_pairs m) ds))"
    by (auto simp: pid_list_def split: if_splits)
  with disj show ?case by (simp add: entry_pairs_distinct)
qed

lemma entry_pairs_iff:
  "(pid, port) \<in> set (entry_pairs m d) \<longleftrightarrow>
     isdigit (d_name d) \<and> py_int 10 (d_name d) = Some pid \<and> managed d \<and> holds_socket (map_of m) d port \<and> port \<noteq> 0"
proof (cases "\<not> isdigit (d_name d) \<or> \<not> managed d \<or> py_int 10 (d_name d) = None")
  case True
  then have "entry_pairs m d = []" by (rule entry_pairs_Nil)
  with True show ?thesis by auto
next
  case False
  then obtain q where q: "isdigit (d_name d)" "managed d" "py_int 10 (d_name d) = Some q" by auto
  show ?thesis
  proof (cases "d_fd d")
    case None
    then have "\<not> holds_socket (map_of m) d port" by (simp add: holds_socket_iff)
    with None show ?thesis unfolding entry_pairs_Some[OF q] by simp
  next
    case (Some ls)
    have "(pid, port) \<in> set (map (Pair q) (scan_fds m ls [])) \<longleftrightarrow> pid = q \<and> port \<in> set (scan_fds m ls [])"
      by auto
    also have "\<dots> \<longleftrightarrow> pid = q \<and> holds_socket (map_of m) d port \<and> port \<noteq> 0"
      unfolding scan_fds_set holds_socket_iff using Some by auto
    finally show ?thesis unfolding entry_pairs_Some[OF q] using Some q by auto
  qed
qed

lemma entry_pairs_serving:
  "(pid, port) \<in> set (concat (map (entry_pairs m) ds)) \<longleftrightarrow> serving (map_of m) ds pid port \<and> port \<noteq> 0"
proof -
  have "(pid, port) \<in> set (concat (map (entry_pairs m) ds)) \<longleftrightarrow>
          (\<exists>d\<in>set ds. (pid, port) \<in> set (entry_pairs m d))" by auto
  also have "\<dots> \<longleftrightarrow> serving (map_of m) ds pid port \<and> port \<noteq> 0"
    unfolding serving_def list_ex_iff entry_pairs_iff by blast
  finally show ?thesis .
qed

subsection \<open>The socket tables\<close>

lemma listening_row_table_row: "listening_row line = table_row line"
proof (cases "length (split line) < 10 \<or> split line ! 3 \<noteq> ''0A''")
  case True
  then show ?thesis by (auto simp: listening_row_def table_row_def Let_def)
next
  case False
  then have a: "10 \<le> length (split line)" "split line ! 3 = ''0A''" by auto
  show ?thesis
  proof (cases "py_int 10 (split line ! 9)")
    case None
    with a show ?thesis
      by (simp add: listening_row_def table_row_def Let_def split: list.splits option.splits)
  next
    case (Some i)
    with a show ?thesis
      by (simp add: listening_row_def table_row_def Let_def split: list.splits option.splits)
  qed
qed

lemma map_filter_Cons_None: "f x = None \<Longrightarrow> List.map_filter f (x # xs) = List.map_filter f xs"
  by (simp add: List.map_filter_def)

lemma map_filter_Cons_Some: "f x = Some y \<Longrightarrow> List.map_filter f (x # xs) = y # List.map_filter f xs"
  by (simp add: List.map_filter_def)

lemma map_filter_append: "List.map_filter f (xs @ ys) = List.map_filter f xs @ List.map_filter f ys"
  by (simp add: List.map_filter_def)

lemma read_rows_map_of:
  "map_of (read_rows rows m) = map_of (rev (List.map_filter table_row rows) @ m)"
proof (induction rows arbitrary: m)
  case Nil
  then show ?case by (simp add: List.map_filter_def)
next
  case (Cons line rows)
  show ?case
  proof (cases "table_row line")
    case None
    then show ?thesis using Cons.IH[of m] by (simp add: map_filter_Cons_None)
  next
    case (Some ip)
    obtain j q where ip: "ip = (j, q)" by (cases ip)
    have "map_of (read_rows (line # rows) m) = map_of (read_rows rows (AList.update j q m))"
      using Some ip by simp
    also have "\<dots> = map_of (rev (List.map_filter table_row rows) @ AList.update j q m)"
      by (rule Cons.IH)
    also have "\<dots> = map_of (rev (List.map_filter table_row rows) @ (j, q) # m)"
      by (simp add: map_of_append update_conv')
    finally show ?thesis using Some ip by (simp add: map_filter_Cons_Some)
  qed
qed

lemma read_rows_Nil: "read_rows rows m = [] \<longleftrightarrow> m = [] \<and> List.map_filter table_row rows = []"
proof (induction rows arbitrary: m)
  case Nil
  then show ?case by (simp add: List.map_filter_def)
next
  case (Cons line rows)
  show ?case
  proof (cases "table_row line")
    case None
    then show ?thesis using Cons.IH[of m] by (simp add: map_filter_Cons_None)
  next
    case (Some ip)
    obtain j q where ip: "ip = (j, q)" by (cases ip)
    have "AList.update j q m \<noteq> []" by (cases m) (auto split: if_splits)
    then show ?thesis using Some ip Cons.IH[of "AList.update j q m"]
      by (simp add: map_filter_Cons_Some)
  qed
qed

lemma read_table_readable:
  "readable t \<Longrightarrow> read_table t m = Inr (read_rows (table_rows t) m)"
proof (cases t)
  case Missing
  then show ?thesis by (simp add: table_rows_def)
next
  case Denied
  then show ?thesis by (simp add: table_rows_def)
next
  case Unopenable
  assume "readable t"
  with Unopenable show ?thesis by (simp add: readable_def)
next
  case (Lines ls e)
  assume "readable t"
  with Lines obtain h rows where "ls = h # rows" "e = Eof" by (cases ls) (auto simp: readable_def)
  with Lines show ?thesis by (simp add: table_rows_def)
qed

lemma read_table_unreadable: "\<not> readable t \<Longrightarrow> \<exists>e. read_table t m = Inl e"
proof (cases t)
  case (Lines ls e)
  assume "\<not> readable t"
  with Lines show ?thesis by (cases ls; cases e) (auto simp: readable_def)
qed (auto simp: readable_def)

lemma read_rows_append: "read_rows (xs @ ys) m = read_rows ys (read_rows xs m)"
  by (induction xs arbitrary: m) (auto split: option.splits)

lemma read_tables_readable:
  assumes "readable (tcp P)" "readable (tcp6 P)"
  shows "read_tables P = Inr (read_rows (table_rows (tcp P) @ table_rows (tcp6 P)) [])"
  using assms by (simp add: read_tables_def read_table_readable read_rows_append)

lemma read_rows_socket_table:
  "map_of (read_rows (table_rows (tcp P) @ table_rows (tcp6 P)) []) = socket_table P"
proof -
  have "List.map_filter table_row = List.map_filter listening_row"
    by (rule arg_cong[of _ _ List.map_filter]) (rule ext, simp add: listening_row_table_row)
  then show ?thesis by (simp add: read_rows_map_of socket_table_def listening_def)
qed

lemma read_rows_listening:
  "read_rows (table_rows (tcp P) @ table_rows (tcp6 P)) [] = [] \<longleftrightarrow> listening P = []"
proof -
  have "List.map_filter table_row = List.map_filter listening_row"
    by (rule arg_cong[of _ _ List.map_filter]) (rule ext, simp add: listening_row_table_row)
  then show ?thesis by (simp add: read_rows_Nil listening_def)
qed

subsection \<open>The result of discovery\<close>

lemma entry_pairs_empty_map: "entry_pairs [] d = []"
proof (rule ccontr)
  assume "entry_pairs [] d \<noteq> []"
  then obtain a b where "(a, b) \<in> set (entry_pairs [] d)" by (cases "entry_pairs [] d") auto
  then have "holds_socket (map_of []) d b" unfolding entry_pairs_iff by simp
  then show False by (simp add: holds_socket_iff)
qed

lemma discover_servers_pairs:
  assumes "read_tables P = Inr m" "listing P = None" "names_ok (entries P)"
  shows "discover_servers P = Inr (sort (concat (map (entry_pairs m) (entries P))))"
proof (cases "m = []")
  case True
  have c: "concat (map (entry_pairs []) (entries P)) = []" by (simp add: entry_pairs_empty_map)
  from assms show ?thesis unfolding True discover_servers_def c by simp
next
  case False
  with assms show ?thesis by (simp add: discover_servers_def scan_procs_pairs)
qed

lemma socket_table_port:
  assumes "socket_table P i = Some p"
  shows "p \<in> set (map snd (listening P))"
proof -
  from assms have "(i, p) \<in> set (rev (listening P))" unfolding socket_table_def by (rule map_of_SomeD)
  then have "snd (i, p) \<in> snd ` set (listening P)" by (intro imageI) simp
  then show ?thesis by simp
qed

text \<open>
  C1. On a \<open>/proc\<close> as the kernel presents it, \<open>discover_servers\<close> returns a list that is
  sorted by (pid, port), has no pair twice, and holds exactly the pairs (pid, port) such that
  pid is a process whose command-line tokens contain the program's name and which holds a
  descriptor of a socket whose inode the listening-socket table maps to the port. The table
  is the one the rows of both files give, listening state only: so several descriptors of
  one socket give one pair, and a socket in another state gives none.
\<close>

theorem discover_servers_exact:
  assumes "well_formed P"
  shows "\<exists>xs. discover_servers P = Inr xs \<and> sorted xs \<and> distinct xs
           \<and> (\<forall>pid port. (pid, port) \<in> set xs \<longleftrightarrow> serving (socket_table P) (entries P) pid port)"
proof -
  from assms have hdr: "readable (tcp P)" "readable (tcp6 P)"
    and zero: "0 \<notin> set (map snd (listening P))"
    and lst: "listing P = None"
    and names: "names_ok (entries P)" and pids: "distinct (pid_list (entries P))"
    by (simp_all add: well_formed_def)
  define m where "m = read_rows (table_rows (tcp P) @ table_rows (tcp6 P)) []"
  define xs where "xs = sort (concat (map (entry_pairs m) (entries P)))"
  have m: "read_tables P = Inr m" unfolding m_def using hdr by (rule read_tables_readable)
  have tab: "map_of m = socket_table P" unfolding m_def by (rule read_rows_socket_table)
  have xs: "discover_servers P = Inr xs" unfolding xs_def using m lst names by (rule discover_servers_pairs)
  have "sorted xs" unfolding xs_def by simp
  moreover have "distinct xs" unfolding xs_def using pids by (simp add: pairs_distinct)
  moreover have "(pid, port) \<in> set xs \<longleftrightarrow> serving (socket_table P) (entries P) pid port" for pid port
  proof -
    have "serving (socket_table P) (entries P) pid port \<Longrightarrow> port \<noteq> 0"
    proof
      assume s: "serving (socket_table P) (entries P) pid port" and "port = 0"
      then obtain d where "holds_socket (socket_table P) d 0" unfolding serving_def list_ex_iff by blast
      then obtain i where "socket_table P i = Some 0" unfolding holds_socket_iff by blast
      then have "0 \<in> set (map snd (listening P))" by (rule socket_table_port)
      with zero show False by simp
    qed
    then show ?thesis unfolding xs_def set_sort entry_pairs_serving tab by blast
  qed
  ultimately show ?thesis using xs by blast
qed

lemma well_formed_example_111: "well_formed example_111"
  by code_simp

lemma well_formed_example_222: "well_formed example_222"
  by code_simp

lemma well_formed_example_tcp6: "well_formed example_tcp6"
  by code_simp

lemma discover_example_111: "discover_servers example_111 = Inr [(4242, 8000)]"
  by code_simp

lemma discover_example_222: "discover_servers example_222 = Inr []"
  by code_simp

lemma discover_example_tcp6: "discover_servers example_tcp6 = Inr [(4242, 8080)]"
  by code_simp

theorem discover_servers_exact_witness:
  "well_formed example_111 \<and> well_formed example_222 \<and> well_formed example_tcp6
     \<and> discover_servers example_111 = Inr [(4242, 8000)]
     \<and> discover_servers example_222 = Inr []
     \<and> discover_servers example_tcp6 = Inr [(4242, 8080)]
     \<and> serving (socket_table example_111) (entries example_111) 4242 8000
     \<and> \<not> serving (socket_table example_222) (entries example_222) 4242 8000
     \<and> serving (socket_table example_tcp6) (entries example_tcp6) 4242 8080"
proof -
  have a: "(4242, 8000) \<in> set [(4242, 8000) :: int \<times> int]" by simp
  have b: "(4242, 8000) \<notin> set ([] :: (int \<times> int) list)" by simp
  have c: "(4242, 8080) \<in> set [(4242, 8080) :: int \<times> int]" by simp
  from discover_servers_exact[OF well_formed_example_111] a
  have 1: "serving (socket_table example_111) (entries example_111) 4242 8000"
    unfolding discover_example_111 by auto
  from discover_servers_exact[OF well_formed_example_222] b
  have 2: "\<not> serving (socket_table example_222) (entries example_222) 4242 8000"
    unfolding discover_example_222 by auto
  from discover_servers_exact[OF well_formed_example_tcp6] c
  have 3: "serving (socket_table example_tcp6) (entries example_tcp6) 4242 8080"
    unfolding discover_example_tcp6 by auto
  from 1 2 3 show ?thesis
    using well_formed_example_111 well_formed_example_222 well_formed_example_tcp6
      discover_example_111 discover_example_222 discover_example_tcp6
    by simp
qed

subsection \<open>Failures during a scan\<close>

lemma discover_servers_cong:
  "read_tables P = read_tables Q \<Longrightarrow> listing P = listing Q \<Longrightarrow> entries P = entries Q
     \<Longrightarrow> discover_servers P = discover_servers Q"
  by (simp add: discover_servers_def cong: sum.case_cong if_cong option.case_cong)

lemma discover_servers_entries:
  assumes "\<And>m. scan_procs m ds [] = scan_procs m (entries P) []"
  shows "discover_servers (P\<lparr>entries := ds\<rparr>) = discover_servers P"
proof -
  have "read_tables (P\<lparr>entries := ds\<rparr>) = read_tables P"
    by (simp add: read_tables_def cong: sum.case_cong)
  then show ?thesis
    by (simp add: discover_servers_def assms cong: sum.case_cong if_cong option.case_cong)
qed

lemma strip_sign_set:
  assumes "strip_sign s = (neg, s2)"
  shows "set s2 \<subseteq> set s"
proof (cases s)
  case Nil
  with assms show ?thesis by (simp add: strip_sign_def)
next
  case (Cons c r)
  with assms have "s2 = r \<or> s2 = s" by (auto simp: strip_sign_def split: if_splits)
  with Cons show ?thesis by auto
qed

lemma strip_sign_chars:
  assumes "strip_sign s = (neg, s2)" "list_all (number_char base) s2"
  shows "list_all (number_char base) s"
proof (cases s)
  case Nil
  then show ?thesis by simp
next
  case (Cons c r)
  show ?thesis
  proof (cases "c = CHR ''+'' \<or> c = CHR ''-''")
    case True
    with Cons assms(1) have "s2 = r" by (auto simp: strip_sign_def)
    with assms(2) Cons True show ?thesis by (auto simp: number_char_def)
  next
    case False
    with Cons assms(1) have "s2 = s" by (auto simp: strip_sign_def)
    with assms(2) show ?thesis by simp
  qed
qed

lemma digit_in_text:
  assumes "py_int base s = Some n"
  shows "\<exists>c\<in>set s. digit_value c < base"
proof -
  obtain neg s2 where s2: "strip_sign (dropWhile int_space s) = (neg, s2)"
    by (cases "strip_sign (dropWhile int_space s)")
  from assms s2 obtain c r where c: "strip_prefix base s2 = c # r" "digit_value c < base"
    by (cases "strip_prefix base s2") (auto simp: py_int_def split: if_splits)
  have "set (strip_prefix base s2) \<subseteq> set s2"
    by (auto simp: strip_prefix_def split: list.splits if_splits)
  moreover have "set s2 \<subseteq> set (dropWhile int_space s)"
    by (rule strip_sign_set[OF s2])
  moreover have "set (dropWhile int_space s) \<subseteq> set s" by (auto dest: set_dropWhileD)
  ultimately have "c \<in> set s" using c(1) by auto
  with c(2) show ?thesis by blast
qed

lemma int_digits_chars:
  "int_digits base cs acc us = Some v \<Longrightarrow> list_all (number_char base) cs"
proof (induction cs arbitrary: acc us)
  case Nil
  then show ?case by simp
next
  case (Cons c cs)
  show ?case
  proof (cases "c = CHR ''_''")
    case True
    with Cons.prems have "int_digits base cs acc True = Some v" by (simp split: if_splits)
    from Cons.IH[OF this] True show ?thesis by (simp add: number_char_def)
  next
    case False
    note nu = False
    show ?thesis
    proof (cases "digit_value c < base")
      case True
      with nu Cons.prems have "int_digits base cs (acc * base + digit_value c) False = Some v" by simp
      from Cons.IH[OF this] True show ?thesis by (simp add: number_char_def)
    next
      case False
      with nu Cons.prems have "list_all int_space (c # cs)" by (simp split: if_splits)
      then show ?thesis by (simp add: list_all_iff number_char_def)
    qed
  qed
qed

lemma number_chars:
  assumes "py_int base s = Some n"
  shows "list_all (number_char base) s"
proof -
  obtain neg s2 where s2: "strip_sign (dropWhile int_space s) = (neg, s2)"
    by (cases "strip_sign (dropWhile int_space s)")
  from assms s2 obtain c r v where c: "strip_prefix base s2 = c # r" "digit_value c < base"
    and v: "int_digits base r (digit_value c) False = Some v"
    by (cases "strip_prefix base s2") (auto simp: py_int_def split: if_splits option.splits)
  from int_digits_chars[OF v] c have 1: "list_all (number_char base) (strip_prefix base s2)"
    by (simp add: number_char_def)
  have 2: "list_all (number_char base) s2"
  proof (cases "strip_prefix base s2 = s2")
    case True
    with 1 show ?thesis by simp
  next
    case False
    then obtain a b r0 where s2': "s2 = a # b # r0" "base = 16" "a = CHR ''0''" "b = CHR ''x'' \<or> b = CHR ''X''"
      by (auto simp: strip_prefix_def split: list.splits if_splits)
    have ab: "number_char base a" "number_char base b"
      using s2' by (auto simp: number_char_def digit_value_def code_def)
    show ?thesis
    proof (cases r0)
      case Nil
      with s2' ab show ?thesis by simp
    next
      case (Cons u r1)
      show ?thesis
      proof (cases "u = CHR ''_''")
        case True
        with Cons s2' have "strip_prefix base s2 = r1" by (auto simp: strip_prefix_def)
        with 1 True Cons s2'(1) ab show ?thesis by (simp add: number_char_def)
      next
        case False
        with Cons s2' have "strip_prefix base s2 = r0" by (auto simp: strip_prefix_def)
        with 1 s2'(1) ab show ?thesis by simp
      qed
    qed
  qed
  have 3: "list_all (number_char base) (dropWhile int_space s)"
    using s2 2 by (rule strip_sign_chars)
  have "list_all (number_char base) (takeWhile int_space s)"
    by (auto simp: list_all_iff number_char_def dest: set_takeWhileD)
  with 3 have "list_all (number_char base) (takeWhile int_space s @ dropWhile int_space s)"
    by (simp only: list_all_append)
  then show ?thesis by (simp only: takeWhile_dropWhile_id)
qed

lemma no_number_py_int:
  assumes "no_number base s"
  shows "py_int base s = None"
proof (rule ccontr)
  assume "py_int base s \<noteq> None"
  then obtain n where n: "py_int base s = Some n" by auto
  from digit_in_text[OF n] number_chars[OF n] assms show False
    by (auto simp: no_number_def list_all_iff list_ex_iff)
qed

lemma malformed_row:
  assumes "malformed line"
  shows "table_row line = None"
proof (cases "length (split line) < 10")
  case True
  then show ?thesis by (simp add: table_row_def)
next
  case False
  with assms have "length (split_on CHR '':'' (split line ! 1)) \<noteq> 2
      \<or> no_number 16 (split_on CHR '':'' (split line ! 1) ! 1)
      \<or> no_number 10 (split line ! 9)"
    by (simp add: malformed_def Let_def)
  then have bad: "length (split_on CHR '':'' (split line ! 1)) \<noteq> 2
      \<or> py_int 16 (split_on CHR '':'' (split line ! 1) ! 1) = None
      \<or> py_int 10 (split line ! 9) = None"
    by (auto dest: no_number_py_int)
  show ?thesis
  proof (cases "split_on CHR '':'' (split line ! 1)")
    case Nil
    with False show ?thesis by (simp add: table_row_def Let_def)
  next
    case (Cons a r)
    show ?thesis
    proof (cases r)
      case Nil
      with Cons False show ?thesis by (simp add: table_row_def Let_def)
    next
      case (Cons b r')
      show ?thesis
      proof (cases r')
        case Nil
        with bad \<open>split_on CHR '':'' (split line ! 1) = a # r\<close> \<open>r = b # r'\<close>
        have "py_int 16 b = None \<or> py_int 10 (split line ! 9) = None" by simp
        with Nil \<open>split_on CHR '':'' (split line ! 1) = a # r\<close> \<open>r = b # r'\<close> False
        show ?thesis by (auto simp: table_row_def Let_def split: option.splits)
      next
        case (Cons c r'')
        with \<open>split_on CHR '':'' (split line ! 1) = a # r\<close> \<open>r = b # r'\<close> False
        show ?thesis by (simp add: table_row_def Let_def)
      qed
    qed
  qed
qed

lemma read_rows_skip:
  "table_row line = None \<Longrightarrow> read_rows (pre @ line # post) m = read_rows (pre @ post) m"
  by (simp add: read_rows_append)

lemma read_table_skip:
  "table_row line = None \<Longrightarrow>
     read_table (Lines (h # pre @ line # post) e) m = read_table (Lines (h # pre @ post) e) m"
  by (cases e) (simp_all add: read_rows_skip)

lemma scan_fds_append: "scan_fds m (xs @ ys) seen = scan_fds m ys (scan_fds m xs seen)"
  by (induction xs arbitrary: seen) (auto split: option.splits)

lemma scan_procs_append:
  "scan_procs m (xs @ ys) rs = (case scan_procs m xs rs of Inl x \<Rightarrow> Inl x | Inr rs' \<Rightarrow> scan_procs m ys rs')"
proof (induction xs arbitrary: rs)
  case Nil
  then show ?case by simp
next
  case (Cons d xs)
  show ?case
  proof (cases "isdigit (d_name d)")
    case False
    then show ?thesis using Cons.IH by simp
  next
    case True
    note dg = True
    show ?thesis
    proof (cases "py_int 10 (d_name d)")
      case None
      with dg show ?thesis by simp
    next
      case (Some pid)
      note pid = Some
      show ?thesis
      proof (cases "d_cmdline d")
        case None
        with dg pid show ?thesis using Cons.IH by simp
      next
        case (Some raw)
        with dg pid show ?thesis using Cons.IH by (simp add: Let_def)
      qed
    qed
  qed
qed

lemma scan_procs_unreadable:
  assumes "d_cmdline d = None \<or> d_fd d = None" "names_ok [d]"
  shows "scan_procs m (d # ds) rs = scan_procs m ds rs"
proof -
  from assms(2) have "isdigit (d_name d) \<longrightarrow> py_int 10 (d_name d) \<noteq> None"
    by (simp add: names_ok_def)
  then have "scan_procs m (d # ds) rs = scan_procs m ds (rs @ entry_pairs m d)"
    by (rule scan_procs_step)
  moreover have "entry_pairs m d = []"
  proof (cases "d_cmdline d")
    case None
    then have "\<not> managed d" by (simp add: managed_def)
    then show ?thesis by (simp add: entry_pairs_Nil)
  next
    case (Some raw)
    with assms have "d_fd d = None" by simp
    then show ?thesis by (simp add: entry_pairs_def split: option.splits)
  qed
  ultimately show ?thesis by simp
qed

lemma scan_procs_broken_link:
  assumes "d_fd d = Some (ls1 @ None # ls2)"
  shows "scan_procs m (d\<lparr>d_fd := Some (ls1 @ ls2)\<rparr> # ds) rs = scan_procs m (d # ds) rs"
  using assms by (simp add: scan_fds_append cong: option.case_cong if_cong)

text \<open>
  C2. Discovery returns a list on every \<open>/proc\<close> where each table is missing, may not be
  opened, or is read to its end and has its header line, where \<open>/proc\<close> can be listed, and
  where every name of digits is a decimal number. Whether it returns or raises: a table that
  is missing or may not be opened counts as one with a header only; a malformed or short row
  counts as absent; a process whose command line or descriptor directory cannot be read
  counts as absent; a link that cannot be read counts as absent, and the other links of the
  same process are still looked at.
\<close>

theorem discover_servers_robust:
  "(readable (tcp P) \<and> readable (tcp6 P) \<and> listing P = None \<and> names_ok (entries P)
      \<longrightarrow> (\<exists>xs. discover_servers P = Inr xs))
   \<and> (tcp P = Missing \<or> tcp P = Denied \<longrightarrow>
        discover_servers P = discover_servers (P\<lparr>tcp := Lines [h] Eof\<rparr>))
   \<and> (tcp6 P = Missing \<or> tcp6 P = Denied \<longrightarrow>
        discover_servers P = discover_servers (P\<lparr>tcp6 := Lines [h] Eof\<rparr>))
   \<and> (tcp P = Lines (h # before @ line # after) e \<and> malformed line \<longrightarrow>
        discover_servers P = discover_servers (P\<lparr>tcp := Lines (h # before @ after) e\<rparr>))
   \<and> (tcp6 P = Lines (h # before @ line # after) e \<and> malformed line \<longrightarrow>
        discover_servers P = discover_servers (P\<lparr>tcp6 := Lines (h # before @ after) e\<rparr>))
   \<and> (entries P = ds1 @ d # ds2 \<and> (d_cmdline d = None \<or> d_fd d = None) \<and> names_ok [d] \<longrightarrow>
        discover_servers P = discover_servers (P\<lparr>entries := ds1 @ ds2\<rparr>))
   \<and> (entries P = es1 @ s # es2 \<and> d_fd s = Some (ls1 @ None # ls2) \<longrightarrow>
        discover_servers P
          = discover_servers (P\<lparr>entries := es1 @ s\<lparr>d_fd := Some (ls1 @ ls2)\<rparr> # es2\<rparr>))"
proof (intro conjI impI)
  assume a: "readable (tcp P) \<and> readable (tcp6 P) \<and> listing P = None \<and> names_ok (entries P)"
  then have "read_tables P = Inr (read_rows (table_rows (tcp P) @ table_rows (tcp6 P)) [])"
    by (simp add: read_tables_readable)
  with a show "\<exists>xs. discover_servers P = Inr xs" by (simp add: discover_servers_pairs)
next
  assume "tcp P = Missing \<or> tcp P = Denied"
  then have "read_tables P = read_tables (P\<lparr>tcp := Lines [h] Eof\<rparr>)"
    by (auto simp: read_tables_def)
  then show "discover_servers P = discover_servers (P\<lparr>tcp := Lines [h] Eof\<rparr>)"
    by (rule discover_servers_cong) simp_all
next
  assume "tcp6 P = Missing \<or> tcp6 P = Denied"
  then have "read_tables P = read_tables (P\<lparr>tcp6 := Lines [h] Eof\<rparr>)"
    by (auto simp: read_tables_def split: sum.splits)
  then show "discover_servers P = discover_servers (P\<lparr>tcp6 := Lines [h] Eof\<rparr>)"
    by (rule discover_servers_cong) simp_all
next
  assume a: "tcp P = Lines (h # before @ line # after) e \<and> malformed line"
  then have "table_row line = None" by (simp add: malformed_row)
  with a have "read_tables P = read_tables (P\<lparr>tcp := Lines (h # before @ after) e\<rparr>)"
    by (simp add: read_tables_def read_table_skip cong: sum.case_cong)
  then show "discover_servers P = discover_servers (P\<lparr>tcp := Lines (h # before @ after) e\<rparr>)"
    by (rule discover_servers_cong) simp_all
next
  assume a: "tcp6 P = Lines (h # before @ line # after) e \<and> malformed line"
  then have "table_row line = None" by (simp add: malformed_row)
  with a have "read_tables P = read_tables (P\<lparr>tcp6 := Lines (h # before @ after) e\<rparr>)"
    by (simp add: read_tables_def read_table_skip split: sum.splits)
  then show "discover_servers P = discover_servers (P\<lparr>tcp6 := Lines (h # before @ after) e\<rparr>)"
    by (rule discover_servers_cong) simp_all
next
  assume a: "entries P = ds1 @ d # ds2 \<and> (d_cmdline d = None \<or> d_fd d = None) \<and> names_ok [d]"
  then have e: "entries P = ds1 @ d # ds2" and u: "d_cmdline d = None \<or> d_fd d = None"
    and n: "names_ok [d]" by simp_all
  have "scan_procs m (ds1 @ ds2) [] = scan_procs m (entries P) []" for m
    unfolding e scan_procs_append scan_procs_unreadable[OF u n] ..
  then show "discover_servers P = discover_servers (P\<lparr>entries := ds1 @ ds2\<rparr>)"
    by (simp add: discover_servers_entries)
next
  assume a: "entries P = es1 @ s # es2 \<and> d_fd s = Some (ls1 @ None # ls2)"
  then have e: "entries P = es1 @ s # es2" and f: "d_fd s = Some (ls1 @ None # ls2)" by simp_all
  have "scan_procs m (es1 @ s\<lparr>d_fd := Some (ls1 @ ls2)\<rparr> # es2) [] = scan_procs m (entries P) []" for m
    unfolding e scan_procs_append scan_procs_broken_link[OF f] ..
  then show "discover_servers P
      = discover_servers (P\<lparr>entries := es1 @ s\<lparr>d_fd := Some (ls1 @ ls2)\<rparr> # es2\<rparr>)"
    by (simp add: discover_servers_entries)
qed

lemma example_broken_link_ok:
  "readable (tcp example_broken_link) \<and> readable (tcp6 example_broken_link)
     \<and> listing example_broken_link = None \<and> names_ok (entries example_broken_link)"
  by code_simp

lemma malformed_bogus: "malformed ''bogus''"
  by code_simp

lemma malformed_port: "malformed (row ''1F4G'' ''0A'' ''111'')"
  by code_simp

lemma malformed_inode: "malformed (row ''1F40'' ''0A'' ''-'')"
  by code_simp

lemma names_ok_77: "names_ok [\<lparr>d_name = ''77'', d_cmdline = None, d_fd = None\<rparr>]"
  by code_simp

lemma discover_example_broken_link: "discover_servers example_broken_link = Inr [(4242, 8000)]"
  by code_simp

theorem discover_servers_robust_witness:
  "readable (tcp example_broken_link) \<and> readable (tcp6 example_broken_link)
     \<and> listing example_broken_link = None \<and> names_ok (entries example_broken_link)
     \<and> malformed ''bogus''
     \<and> names_ok [\<lparr>d_name = ''77'', d_cmdline = None, d_fd = None\<rparr>]
     \<and> discover_servers example_broken_link = Inr [(4242, 8000)]
     \<and> discover_servers (example_broken_link\<lparr>tcp6 := Lines [header_line] Eof\<rparr>) = Inr [(4242, 8000)]
     \<and> discover_servers (example_broken_link\<lparr>tcp := Lines [header_line, row ''1F40'' ''0A'' ''111''] Eof\<rparr>)
          = Inr [(4242, 8000)]
     \<and> discover_servers (example_broken_link\<lparr>entries := [server_entry ''4242'' [None, Some ''socket:[111]'']]\<rparr>)
          = Inr [(4242, 8000)]
     \<and> discover_servers
          (example_broken_link\<lparr>entries := [\<lparr>d_name = ''77'', d_cmdline = None, d_fd = None\<rparr>,
             (server_entry ''4242'' [None, Some ''socket:[111]''])\<lparr>d_fd := Some [Some ''socket:[111]'']\<rparr>]\<rparr>)
          = Inr [(4242, 8000)]"
proof -
  note ok = example_broken_link_ok
  have t: "tcp example_broken_link = Lines (header_line # [] @ ''bogus'' # [row ''1F40'' ''0A'' ''111'']) Eof"
    and t6: "tcp6 example_broken_link = Denied"
    and es: "entries example_broken_link
              = [] @ \<lparr>d_name = ''77'', d_cmdline = None, d_fd = None\<rparr> # [server_entry ''4242'' [None, Some ''socket:[111]'']]"
    and es': "entries example_broken_link
              = [\<lparr>d_name = ''77'', d_cmdline = None, d_fd = None\<rparr>] @ server_entry ''4242'' [None, Some ''socket:[111]''] # []"
    and fd: "d_fd (server_entry ''4242'' [None, Some ''socket:[111]'']) = Some ([] @ None # [Some ''socket:[111]''])"
    by (simp_all add: example_broken_link_def server_entry_def)
  note r = discover_servers_robust[where P = example_broken_link and h = header_line and before = "[]"
      and line = "''bogus''" and after = "[row ''1F40'' ''0A'' ''111'']" and e = Eof
      and ?ds1.0 = "[]" and d = "\<lparr>d_name = ''77'', d_cmdline = None, d_fd = None\<rparr>"
      and ?ds2.0 = "[server_entry ''4242'' [None, Some ''socket:[111]'']]"
      and ?es1.0 = "[\<lparr>d_name = ''77'', d_cmdline = None, d_fd = None\<rparr>]"
      and s = "server_entry ''4242'' [None, Some ''socket:[111]'']" and ?es2.0 = "[]"
      and ?ls1.0 = "[]" and ?ls2.0 = "[Some ''socket:[111]'']"]
  note e = discover_example_broken_link
  from r t6 have "discover_servers example_broken_link
      = discover_servers (example_broken_link\<lparr>tcp6 := Lines [header_line] Eof\<rparr>)" by blast
  then have 1: "discover_servers (example_broken_link\<lparr>tcp6 := Lines [header_line] Eof\<rparr>) = Inr [(4242, 8000)]"
    unfolding e by (rule sym)
  from r t malformed_bogus have "discover_servers example_broken_link
      = discover_servers (example_broken_link\<lparr>tcp := Lines (header_line # [] @ [row ''1F40'' ''0A'' ''111'']) Eof\<rparr>)"
    by blast
  then have 2: "discover_servers (example_broken_link\<lparr>tcp := Lines [header_line, row ''1F40'' ''0A'' ''111''] Eof\<rparr>)
      = Inr [(4242, 8000)]"
    unfolding e by simp
  from r es names_ok_77 have "discover_servers example_broken_link
      = discover_servers (example_broken_link\<lparr>entries := [] @ [server_entry ''4242'' [None, Some ''socket:[111]'']]\<rparr>)"
    by simp
  then have 3: "discover_servers (example_broken_link\<lparr>entries := [server_entry ''4242'' [None, Some ''socket:[111]'']]\<rparr>)
      = Inr [(4242, 8000)]"
    unfolding e by simp
  from r es' fd have "discover_servers example_broken_link
      = discover_servers (example_broken_link\<lparr>entries := [\<lparr>d_name = ''77'', d_cmdline = None, d_fd = None\<rparr>]
          @ (server_entry ''4242'' [None, Some ''socket:[111]''])\<lparr>d_fd := Some ([] @ [Some ''socket:[111]''])\<rparr> # []\<rparr>)"
    by blast
  then have 4: "discover_servers
          (example_broken_link\<lparr>entries := [\<lparr>d_name = ''77'', d_cmdline = None, d_fd = None\<rparr>,
             (server_entry ''4242'' [None, Some ''socket:[111]''])\<lparr>d_fd := Some [Some ''socket:[111]'']\<rparr>]\<rparr>)
          = Inr [(4242, 8000)]"
    unfolding e by simp
  from ok malformed_bogus names_ok_77 e 1 2 3 4 show ?thesis by blast
qed

lemma discover_example_empty_table: "discover_servers example_empty_table = Inl StopIteration"
  by code_simp

lemma discover_example_undecodable: "discover_servers example_undecodable = Inl UnicodeDecodeError"
  by code_simp

lemma discover_example_unopenable: "discover_servers example_unopenable = Inl (OSError OtherOSError)"
  by code_simp

lemma discover_example_unlistable: "discover_servers example_unlistable = Inl (OSError OtherOSError)"
  by code_simp

lemma discover_example_superscript: "discover_servers example_superscript = Inl ValueError"
  by code_simp

theorem discover_servers_counterexample:
  "entries example_broken_link
     = [\<lparr>d_name = ''77'', d_cmdline = None, d_fd = None\<rparr>,
        \<lparr>d_name = ''4242'', d_cmdline = Some server_cmdline, d_fd = Some [None, Some ''socket:[111]'']\<rparr>]
   \<and> discover_servers example_broken_link = Inr [(4242, 8000)]
   \<and> discover_servers example_empty_table = Inl StopIteration
   \<and> discover_servers example_undecodable = Inl UnicodeDecodeError
   \<and> discover_servers example_unopenable = Inl (OSError OtherOSError)
   \<and> discover_servers example_unlistable = Inl (OSError OtherOSError)
   \<and> discover_servers example_superscript = Inl ValueError"
  using discover_example_broken_link discover_example_empty_table discover_example_undecodable
    discover_example_unopenable discover_example_unlistable discover_example_superscript
  by (simp add: example_broken_link_def server_entry_def)

section \<open>Grouping by pid\<close>

lemma group_step_keys:
  assumes "distinct (map fst acc)"
  shows "distinct (map fst (case map_of acc k of None \<Rightarrow> acc @ [(k, [v])] | Some pl \<Rightarrow> AList.update k (pl @ [v]) acc))
       \<and> set (map fst (case map_of acc k of None \<Rightarrow> acc @ [(k, [v])] | Some pl \<Rightarrow> AList.update k (pl @ [v]) acc))
           = insert k (fst ` set acc)"
proof (cases "map_of acc k")
  case None
  then have "k \<notin> fst ` set acc" by (simp add: map_of_eq_None_iff)
  with None assms show ?thesis by auto
next
  case (Some pl)
  then have "k \<in> fst ` set acc" by (metis map_of_eq_None_iff option.distinct(1))
  with Some assms show ?thesis
    by (auto simp: distinct_update update_keys)
qed

lemma group_by_pid_keys:
  "distinct (map fst acc) \<Longrightarrow>
     distinct (map fst (group_by_pid xs acc))
     \<and> set (map fst (group_by_pid xs acc)) = fst ` set acc \<union> fst ` set xs"
proof (induction xs arbitrary: acc)
  case Nil
  then show ?case by simp
next
  case (Cons x xs)
  obtain k v where x: "x = (k, v)" by (cases x)
  let ?acc = "case map_of acc k of None \<Rightarrow> acc @ [(k, [v])] | Some pl \<Rightarrow> AList.update k (pl @ [v]) acc"
  from group_step_keys[OF Cons.prems, of k v]
  have d: "distinct (map fst ?acc)" and s: "set (map fst ?acc) = insert k (fst ` set acc)" by simp_all
  from Cons.IH[OF d] s show ?case unfolding x by auto
qed

lemma group_step_lookup:
  "map_of (case map_of acc k of None \<Rightarrow> acc @ [(k, [v])] | Some pl \<Rightarrow> AList.update k (pl @ [v]) acc) q
     = (if q = k then Some ((case map_of acc k of None \<Rightarrow> [] | Some pl \<Rightarrow> pl) @ [v]) else map_of acc q)"
proof (cases "map_of acc k")
  case None
  then show ?thesis by (auto simp: map_add_def split: option.splits)
next
  case (Some pl)
  then show ?thesis by (simp add: update_conv')
qed

lemma group_by_pid_lookup:
  "map_of (group_by_pid xs acc) q
     = (case map_of acc q of
          None \<Rightarrow> if q \<in> fst ` set xs then Some (ports_of q xs) else None
        | Some pl \<Rightarrow> Some (pl @ ports_of q xs))"
proof (induction xs arbitrary: acc)
  case Nil
  then show ?case by (simp add: ports_of_def split: option.splits)
next
  case (Cons x xs)
  obtain k v where x: "x = (k, v)" by (cases x)
  show ?case unfolding x group_by_pid.simps Cons.IH group_step_lookup
    by (auto simp: ports_of_def split: option.splits)
qed

lemma group_by_pid_length: "length (group_by_pid xs []) = card (fst ` set xs)"
proof -
  have d: "distinct (map fst (group_by_pid xs []))"
    and s: "set (map fst (group_by_pid xs [])) = fst ` set xs"
    using group_by_pid_keys[of "[]" xs] by simp_all
  have "length (group_by_pid xs []) = length (map fst (group_by_pid xs []))" by simp
  also have "\<dots> = card (set (map fst (group_by_pid xs [])))" using d by (simp only: distinct_card)
  finally show ?thesis using s by simp
qed

lemma group_by_pid_member:
  assumes "q \<in> fst ` set xs"
  shows "(q, ports_of q xs) \<in> set (group_by_pid xs [])"
proof -
  have "map_of (group_by_pid xs []) q = Some (ports_of q xs)"
    using assms by (simp add: group_by_pid_lookup)
  then show ?thesis by (rule map_of_SomeD)
qed

lemma group_by_pid_single:
  assumes "fst ` set xs = {q}"
  shows "group_by_pid xs [] = [(q, ports_of q xs)]"
proof -
  have "length (group_by_pid xs []) = 1" using assms by (simp add: group_by_pid_length)
  then obtain g where g: "group_by_pid xs [] = [g]"
    by (cases "group_by_pid xs []") auto
  have "(q, ports_of q xs) \<in> set (group_by_pid xs [])"
    using assms by (intro group_by_pid_member) simp
  with g show ?thesis by simp
qed

lemma pid_lines_member:
  "(q, pl) \<in> set grouped \<Longrightarrow> Cprint (''  PID '' @ str q @ word @ ports_text pl) Color_Y \<in> set (pid_lines word grouped)"
  unfolding pid_lines_def by force

lemma pid_lines_no_kill: "Kill q sig r \<notin> set (pid_lines word grouped)"
  unfolding pid_lines_def by auto

section \<open>stop\<close>

lemma server_stop_selected:
  assumes "scan os w = (Inr servers, w1)" "selected args servers \<noteq> []"
  shows "server_stop os args w
           = (case stop_servers os args (selected args servers) w1 of
                (out, w2, evs) \<Rightarrow> (out, w2, Scan (Inr servers) # evs))"
proof (cases "a_port args")
  case None
  with assms show ?thesis by (simp add: server_stop_def selected_def)
next
  case (Some p)
  with assms have "servers \<noteq> []" by (auto simp: selected_def)
  with Some assms show ?thesis by (simp add: server_stop_def selected_def Let_def)
qed

text \<open>
  C3. When the discovery result, after the optional port filter, holds two or more
  distinct pids, stop prints the ambiguity report and one line for each pid with its
  ports, sends no signal at all, leaves the world as the scan left it, and the
  invocation exits with code 0.
\<close>

theorem stop_ambiguous:
  assumes "scan os w = (Inr servers, w1)"
      and "2 \<le> card (fst ` set (selected args servers))"
      and "a_cmd args = ''stop''"
  shows "\<exists>evs. main os args w = (Returned, w1, evs)
           \<and> exit_code (fst (main os args w)) = Some 0
           \<and> (\<forall>q sig r. Kill q sig r \<notin> set evs)
           \<and> Cprint ''Multiple servers detected (ambiguous stop):'' Color_Y \<in> set evs
           \<and> (\<forall>q \<in> fst ` set (selected args servers).
                 Cprint (''  PID '' @ str q @ '' ports '' @ ports_text (ports_of q (selected args servers))) Color_Y
                   \<in> set evs)"
proof -
  let ?sel = "selected args servers"
  let ?G = "group_by_pid ?sel []"
  let ?evs = "Scan (Inr servers) # [Cprint ''Multiple servers detected (ambiguous stop):'' Color_Y]
      @ pid_lines '' ports '' ?G
      @ (if a_port args = None then [Cprint ''Hint: specify --port to target a specific one.'' Color_C] else [])"
  from assms(2) have ne: "?sel \<noteq> []" by auto
  from assms(2) have len: "length ?G > 1" by (simp add: group_by_pid_length)
  then have s: "stop_servers os args ?sel w1 = (Returned, w1, tl ?evs)"
    by (simp add: stop_servers_def Let_def)
  have m: "main os args w = (Returned, w1, ?evs)"
    using assms(3) by (simp add: main_def server_stop_selected[OF assms(1) ne] s)
  have k: "\<forall>q sig r. Kill q sig r \<notin> set ?evs" by (simp add: pid_lines_no_kill)
  have l: "\<forall>q \<in> fst ` set ?sel.
      Cprint (''  PID '' @ str q @ '' ports '' @ ports_text (ports_of q ?sel)) Color_Y \<in> set ?evs"
  proof
    fix q assume "q \<in> fst ` set ?sel"
    then have "(q, ports_of q ?sel) \<in> set ?G" by (rule group_by_pid_member)
    then have "Cprint (''  PID '' @ str q @ '' ports '' @ ports_text (ports_of q ?sel)) Color_Y
        \<in> set (pid_lines '' ports '' ?G)" by (rule pid_lines_member)
    then show "Cprint (''  PID '' @ str q @ '' ports '' @ ports_text (ports_of q ?sel)) Color_Y \<in> set ?evs"
      by simp
  qed
  have r: "Cprint ''Multiple servers detected (ambiguous stop):'' Color_Y \<in> set ?evs" by simp
  from m k l r show ?thesis by (intro exI[of _ ?evs]) (simp only: fst_conv exit_code.simps simp_thms)
qed

lemma scan_two_pids:
  "scan sim_os (sim0\<lparr>sim_proc := example_two_pids\<rparr>)
     = (Inr [(4242, 8000), (4343, 8000), (4343, 9000)], sim0\<lparr>sim_proc := example_two_pids\<rparr>)"
  by code_simp

theorem stop_ambiguous_witness:
  "scan sim_os (sim0\<lparr>sim_proc := example_two_pids\<rparr>)
     = (Inr [(4242, 8000), (4343, 8000), (4343, 9000)], sim0\<lparr>sim_proc := example_two_pids\<rparr>)
   \<and> card (fst ` set (selected args0 [(4242, 8000), (4343, 8000), (4343, 9000)])) = 2
   \<and> a_cmd args0 = ''stop''
   \<and> main sim_os args0 (sim0\<lparr>sim_proc := example_two_pids\<rparr>)
       = (Returned, sim0\<lparr>sim_proc := example_two_pids\<rparr>,
          [Scan (Inr [(4242, 8000), (4343, 8000), (4343, 9000)]),
           Cprint ''Multiple servers detected (ambiguous stop):'' Color_Y,
           Cprint ''  PID 4242 ports 8000'' Color_Y,
           Cprint ''  PID 4343 ports 8000,9000'' Color_Y,
           Cprint ''Hint: specify --port to target a specific one.'' Color_C])"
proof -
  have sel: "selected args0 [(4242, 8000), (4343, 8000), (4343, 9000)] = [(4242, 8000), (4343, 8000), (4343, 9000)]"
    by (simp add: selected_def args0_def)
  have c: "2 \<le> card (fst ` set (selected args0 [(4242, 8000), (4343, 8000), (4343, 9000)]))"
    unfolding sel by simp
  have a: "a_cmd args0 = ''stop''" by (simp add: args0_def)
  from stop_ambiguous[OF scan_two_pids c a]
  obtain evs where m: "main sim_os args0 (sim0\<lparr>sim_proc := example_two_pids\<rparr>)
      = (Returned, sim0\<lparr>sim_proc := example_two_pids\<rparr>, evs)" by blast
  have e: "snd (snd (main sim_os args0 (sim0\<lparr>sim_proc := example_two_pids\<rparr>)))
      = [Scan (Inr [(4242, 8000), (4343, 8000), (4343, 9000)]),
           Cprint ''Multiple servers detected (ambiguous stop):'' Color_Y,
           Cprint ''  PID 4242 ports 8000'' Color_Y,
           Cprint ''  PID 4343 ports 8000,9000'' Color_Y,
           Cprint ''Hint: specify --port to target a specific one.'' Color_C]"
    unfolding main_def server_stop_def scan_two_pids
    by (simp add: args0_def stop_servers_def pid_lines_def) code_simp
  from m e scan_two_pids sel a show ?thesis by simp
qed

subsection \<open>Signalling one process\<close>

lemma polls_Suc: "polls pid (Suc k) = Kill pid SIG0 None # Sleep # polls pid k"
  by (simp add: polls_def)

lemma polls_0: "polls pid 0 = []"
  by (simp add: polls_def)

lemma polls_probes: "filter is_probe (polls pid k) = replicate k (Kill pid SIG0 None)"
  by (induction k) (simp_all add: polls_0 polls_Suc is_probe_def)

lemma polls_sleeps: "filter (\<lambda>e. e = Sleep) (polls pid k) = replicate k Sleep"
  by (induction k) (simp_all add: polls_0 polls_Suc)

lemma polls_set: "set (polls pid k) \<subseteq> {Kill pid SIG0 None, Sleep}"
  by (induction k) (auto simp: polls_0 polls_Suc)

lemma polls_signals: "filter is_signal (polls pid k) = []"
  by (induction k) (simp_all add: polls_0 polls_Suc is_signal_def)

lemma polls_scans: "filter is_scan (polls pid k) = []"
  by (induction k) (simp_all add: polls_0 polls_Suc is_scan_def)

lemma wait_gone_shape:
  "wait_gone os pid n w = (left, w', evs) \<Longrightarrow>
     (if left then \<exists>k e. k < n \<and> evs = polls pid k @ [Kill pid SIG0 (Some e)] else evs = polls pid n)"
proof (induction n arbitrary: w left w' evs)
  case 0
  then show ?case by (auto simp: polls_0)
next
  case (Suc n)
  obtain r w1 where k: "os_kill os pid SIG0 w = (r, w1)" by (cases "os_kill os pid SIG0 w")
  show ?case
  proof (cases r)
    case (Some e)
    with Suc.prems k have "left" "evs = polls pid 0 @ [Kill pid SIG0 (Some e)]"
      by (simp_all add: polls_0)
    then show ?thesis by auto
  next
    case None
    obtain l2 w2 ev2 where rec: "wait_gone os pid n (os_sleep os w1) = (l2, w2, ev2)"
      by (cases "wait_gone os pid n (os_sleep os w1)")
    with Suc.prems k None have l: "left = l2" and e: "evs = Kill pid SIG0 None # Sleep # ev2" by simp_all
    from Suc.IH[OF rec] have ih: "if l2 then \<exists>k e. k < n \<and> ev2 = polls pid k @ [Kill pid SIG0 (Some e)]
        else ev2 = polls pid n" .
    show ?thesis
    proof (cases l2)
      case True
      with ih obtain k e where "k < n" "ev2 = polls pid k @ [Kill pid SIG0 (Some e)]" by auto
      then have "Suc k < Suc n" "evs = polls pid (Suc k) @ [Kill pid SIG0 (Some e)]"
        using e by (simp_all add: polls_Suc)
      with True l show ?thesis by auto
    next
      case False
      with ih e l show ?thesis by (simp add: polls_Suc)
    qed
  qed
qed

lemma send_signal_shape:
  "send_signal os pid sig w = (x, w1, evs) \<Longrightarrow>
     evs = [Kill pid sig (fst (os_kill os pid sig w))]
     \<and> (case x of
           None \<Rightarrow> \<not> refused (Kill pid sig (fst (os_kill os pid sig w))) \<or> sig = SIG0
         | Some e \<Rightarrow> (\<exists>e'. e = OSError e' \<and> e' \<noteq> ProcessLookupError \<and> fst (os_kill os pid sig w) = Some e'))"
  by (cases "os_kill os pid sig w") (auto simp: send_signal_def refused_def split: option.splits if_splits)

text \<open>The ways in which signalling one process can go.\<close>

lemma terminate_cases:
  assumes "terminate os pid w = (out, w', evs)"
  obtains
    (refused_term) e where
      "evs = [Kill pid SIGTERM (Some e)]" "e \<noteq> ProcessLookupError" "out = Raised (OSError e)"
      "fst (os_kill os pid SIGTERM w) = Some e"
  | (gone) a k e where
      "evs = Kill pid SIGTERM a # polls pid k @ [Kill pid SIG0 (Some e), Cprint ''Stopped'' Color_G]"
      "k \<le> 30" "\<not> refused (Kill pid SIGTERM a)" "out = Returned"
  | (killed) a b w3 where
      "evs = Kill pid SIGTERM a # polls pid 30
               @ [Kill pid SIG0 None, Cprint ''Force killing...'' Color_Y, Kill pid SIGKILL b,
                  Cprint ''Stopped'' Color_G]"
      "\<not> refused (Kill pid SIGTERM a)" "\<not> refused (Kill pid SIGKILL b)" "out = Returned"
      "b = fst (os_kill os pid SIGKILL w3)"
  | (refused_kill) a e w3 where
      "evs = Kill pid SIGTERM a # polls pid 30
               @ [Kill pid SIG0 None, Cprint ''Force killing...'' Color_Y, Kill pid SIGKILL (Some e)]"
      "\<not> refused (Kill pid SIGTERM a)" "e \<noteq> ProcessLookupError" "out = Raised (OSError e)"
      "fst (os_kill os pid SIGKILL w3) = Some e"
proof -
  let ?first = "fst (os_kill os pid SIGTERM w)"
  obtain x w1 ev1 where s1: "send_signal os pid SIGTERM w = (x, w1, ev1)"
    by (cases "send_signal os pid SIGTERM w")
  from send_signal_shape[OF s1] have ev1: "ev1 = [Kill pid SIGTERM ?first]"
    and x: "case x of None \<Rightarrow> \<not> refused (Kill pid SIGTERM ?first) \<or> SIGTERM = SIG0
              | Some e \<Rightarrow> (\<exists>e'. e = OSError e' \<and> e' \<noteq> ProcessLookupError \<and> ?first = Some e')"
    by simp_all
  show ?thesis
  proof (cases x)
    case (Some e)
    with x obtain e' where e': "e = OSError e'" "e' \<noteq> ProcessLookupError" "?first = Some e'" by auto
    from assms s1 Some have o: "out = Raised e" and "evs = ev1" unfolding terminate_def by simp_all
    with ev1 e' have E: "evs = [Kill pid SIGTERM (Some e')]" by simp
    from E e'(2) o[unfolded e'(1)] e'(3) show ?thesis by (rule refused_term)
  next
    case None
    with x have ok: "\<not> refused (Kill pid SIGTERM ?first)" by simp
    obtain left w2 ev2 where wg: "wait_gone os pid 30 w1 = (left, w2, ev2)"
      by (cases "wait_gone os pid 30 w1")
    note sh = wait_gone_shape[OF wg]
    show ?thesis
    proof (cases left)
      case True
      with sh obtain k e where k: "k < 30" "ev2 = polls pid k @ [Kill pid SIG0 (Some e)]" by auto
      from assms s1 None wg True have o: "out = Returned"
        and "evs = ev1 @ ev2 @ [Cprint ''Stopped'' Color_G]"
        unfolding terminate_def by simp_all
      with k ev1 have E: "evs = Kill pid SIGTERM ?first # polls pid k
          @ [Kill pid SIG0 (Some e), Cprint ''Stopped'' Color_G]"
        by simp
      from k(1) have "k \<le> 30" by simp
      with E show ?thesis using ok o by (rule gone)
    next
      case False
      with sh have ev2: "ev2 = polls pid 30" by simp
      obtain r3 w3 where k3: "os_kill os pid SIG0 w2 = (r3, w3)" by (cases "os_kill os pid SIG0 w2")
      show ?thesis
      proof (cases r3)
        case (Some e)
        from assms s1 \<open>x = None\<close> wg False k3 Some have o: "out = Returned" and
          "evs = ev1 @ ev2 @ [Kill pid SIG0 (Some e), Cprint ''Stopped'' Color_G]"
          unfolding terminate_def by simp_all
        with ev1 ev2 have E: "evs = Kill pid SIGTERM ?first # polls pid 30
            @ [Kill pid SIG0 (Some e), Cprint ''Stopped'' Color_G]"
          by simp
        have "(30::nat) \<le> 30" by simp
        with E show ?thesis using ok o by (rule gone)
      next
        case None
        note r3 = None
        obtain y w4 ev4 where s4: "send_signal os pid SIGKILL w3 = (y, w4, ev4)"
          by (cases "send_signal os pid SIGKILL w3")
        let ?second = "fst (os_kill os pid SIGKILL w3)"
        from send_signal_shape[OF s4] have ev4: "ev4 = [Kill pid SIGKILL ?second]"
          and y: "case y of None \<Rightarrow> \<not> refused (Kill pid SIGKILL ?second) \<or> SIGKILL = SIG0
              | Some e \<Rightarrow> (\<exists>e'. e = OSError e' \<and> e' \<noteq> ProcessLookupError \<and> ?second = Some e')"
          by simp_all
        show ?thesis
        proof (cases y)
          case None
          with y have okr: "\<not> refused (Kill pid SIGKILL ?second)" by simp
          from assms s1 \<open>x = None\<close> wg False k3 r3 s4 None have o: "out = Returned" and
            "evs = ev1 @ ev2 @ [Kill pid SIG0 None, Cprint ''Force killing...'' Color_Y] @ ev4
                     @ [Cprint ''Stopped'' Color_G]"
            unfolding terminate_def by simp_all
          with ev1 ev2 ev4 have E: "evs = Kill pid SIGTERM ?first # polls pid 30
              @ [Kill pid SIG0 None, Cprint ''Force killing...'' Color_Y, Kill pid SIGKILL ?second,
                 Cprint ''Stopped'' Color_G]"
            by simp
          from E ok okr o show ?thesis by (rule killed) simp
        next
          case (Some e)
          with y obtain e' where e': "e = OSError e'" "e' \<noteq> ProcessLookupError" "?second = Some e'" by auto
          from assms s1 \<open>x = None\<close> wg False k3 r3 s4 Some have o: "out = Raised e" and
            "evs = ev1 @ ev2 @ [Kill pid SIG0 None, Cprint ''Force killing...'' Color_Y] @ ev4"
            unfolding terminate_def by simp_all
          with ev1 ev2 ev4 e' have E: "evs = Kill pid SIGTERM ?first # polls pid 30
              @ [Kill pid SIG0 None, Cprint ''Force killing...'' Color_Y, Kill pid SIGKILL (Some e')]"
            by simp
          from E ok e'(2) o[unfolded e'(1)] e'(3) show ?thesis by (rule refused_kill)
        qed
      qed
    qed
  qed
qed

lemma server_stop_single:
  assumes "scan os w = (Inr servers, w1)" "fst ` set (selected args servers) = {pid}"
  shows "server_stop os args w
           = (case terminate os pid w1 of
                (out, w2, evs) \<Rightarrow>
                  (out, w2,
                   Scan (Inr servers)
                     # Cprint (''Stopping server PID '' @ str pid @ '' (ports=''
                                 @ ports_text (ports_of pid (selected args servers)) @ '')'') Color_C
                     # evs))"
proof -
  from assms(2) have ne: "selected args servers \<noteq> []" by auto
  have g: "group_by_pid (selected args servers) [] = [(pid, ports_of pid (selected args servers))]"
    using assms(2) by (rule group_by_pid_single)
  show ?thesis unfolding server_stop_selected[OF assms(1) ne]
    by (simp add: stop_servers_def g stop_pid_def split: prod.splits)
qed

lemma polls_no_kill: "Kill pid SIGKILL b \<notin> set (polls pid k)"
  using polls_set[of pid k] by auto

lemma polls_no_failure: "Kill pid SIG0 (Some e) \<notin> set (polls pid k)"
  using polls_set[of pid k] by auto

subsection \<open>The wait, world by world\<close>

lemma wait_gone_alive:
  "(\<And>j. j < n \<Longrightarrow> alive os pid (waited os pid j w)) \<Longrightarrow>
     wait_gone os pid n w = (False, waited os pid n w, polls pid n)"
proof (induction n arbitrary: w)
  case 0
  then show ?case by (simp add: polls_0)
next
  case (Suc n)
  obtain r w1 where k: "os_kill os pid SIG0 w = (r, w1)" by (cases "os_kill os pid SIG0 w")
  from Suc.prems[of 0] k have r: "r = None" by (simp add: alive_def)
  have "alive os pid (waited os pid j (os_sleep os w1))" if "j < n" for j
    using Suc.prems[of "Suc j"] that k by simp
  then have "wait_gone os pid n (os_sleep os w1) = (False, waited os pid n (os_sleep os w1), polls pid n)"
    by (rule Suc.IH)
  with k r show ?case by (simp add: polls_Suc)
qed

lemma wait_gone_gone:
  "k < n \<Longrightarrow> (\<And>j. j < k \<Longrightarrow> alive os pid (waited os pid j w)) \<Longrightarrow> \<not> alive os pid (waited os pid k w) \<Longrightarrow>
     wait_gone os pid n w
       = (True, snd (os_kill os pid SIG0 (waited os pid k w)),
          polls pid k @ [Kill pid SIG0 (fst (os_kill os pid SIG0 (waited os pid k w)))])"
proof (induction n arbitrary: w k)
  case 0
  then show ?case by simp
next
  case (Suc n)
  obtain r w1 where kl: "os_kill os pid SIG0 w = (r, w1)" by (cases "os_kill os pid SIG0 w")
  show ?case
  proof (cases k)
    case 0
    with Suc.prems(3) kl obtain e where "r = Some e" by (cases r) (auto simp: alive_def)
    with 0 kl show ?thesis by (simp add: polls_0)
  next
    case (Suc k')
    from Suc.prems(2)[of 0] Suc kl have r: "r = None" by (simp add: alive_def)
    have a: "alive os pid (waited os pid j (os_sleep os w1))" if "j < k'" for j
      using Suc.prems(2)[of "Suc j"] that kl Suc by simp
    have b: "\<not> alive os pid (waited os pid k' (os_sleep os w1))"
      using Suc.prems(3) kl Suc by simp
    from Suc.prems(1) Suc have "k' < n" by simp
    from Suc.IH[OF this a b]
    have "wait_gone os pid n (os_sleep os w1)
       = (True, snd (os_kill os pid SIG0 (waited os pid k' (os_sleep os w1))),
          polls pid k' @ [Kill pid SIG0 (fst (os_kill os pid SIG0 (waited os pid k' (os_sleep os w1))))])" .
    with kl r Suc show ?thesis by (simp add: polls_Suc)
  qed
qed

lemma send_signal_accepted:
  assumes "os_kill os pid sig w = (a, w2)" "accepted a"
  shows "send_signal os pid sig w = (None, w2, [Kill pid sig a])"
  using assms by (auto simp: send_signal_def accepted_def)

lemma send_signal_refused:
  assumes "os_kill os pid sig w = (Some e, w2)" "e \<noteq> ProcessLookupError"
  shows "send_signal os pid sig w = (Some (OSError e), w2, [Kill pid sig (Some e)])"
  using assms by (simp add: send_signal_def)

lemma terminate_refused:
  assumes "os_kill os pid SIGTERM w = (Some e, w2)" "e \<noteq> ProcessLookupError"
  shows "terminate os pid w = (Raised (OSError e), w2, [Kill pid SIGTERM (Some e)])"
  by (simp add: terminate_def send_signal_refused[OF assms])

lemma terminate_gone:
  assumes t: "os_kill os pid SIGTERM w = (a, w2)" "accepted a"
    and k: "k \<le> 30"
    and al: "\<And>j. j < k \<Longrightarrow> alive os pid (waited os pid j w2)"
    and gone: "\<not> alive os pid (waited os pid k w2)"
  shows "terminate os pid w
           = (Returned, snd (os_kill os pid SIG0 (waited os pid k w2)),
              Kill pid SIGTERM a # polls pid k
                @ [Kill pid SIG0 (fst (os_kill os pid SIG0 (waited os pid k w2))), Cprint ''Stopped'' Color_G])"
proof (cases "k < 30")
  case True
  from wait_gone_gone[OF True al gone]
  show ?thesis by (simp add: terminate_def send_signal_accepted[OF t])
next
  case False
  with k have k30: "k = 30" by simp
  have "wait_gone os pid 30 w2 = (False, waited os pid 30 w2, polls pid 30)"
    using al unfolding k30 by (rule wait_gone_alive)
  moreover obtain r w3 where kl: "os_kill os pid SIG0 (waited os pid 30 w2) = (r, w3)"
    by (cases "os_kill os pid SIG0 (waited os pid 30 w2)")
  moreover from gone kl k30 obtain e where "r = Some e" by (cases r) (auto simp: alive_def)
  ultimately show ?thesis unfolding k30 by (simp add: terminate_def send_signal_accepted[OF t])
qed

lemma terminate_alive:
  assumes t: "os_kill os pid SIGTERM w = (a, w2)" "accepted a"
    and al: "\<And>j. j \<le> 30 \<Longrightarrow> alive os pid (waited os pid j w2)"
  shows "terminate os pid w
           = (case send_signal os pid SIGKILL (snd (os_kill os pid SIG0 (waited os pid 30 w2))) of
                (None, w4, ev4) \<Rightarrow>
                  (Returned, w4,
                   Kill pid SIGTERM a # polls pid 30
                     @ [Kill pid SIG0 None, Cprint ''Force killing...'' Color_Y] @ ev4 @ [Cprint ''Stopped'' Color_G])
              | (Some e, w4, ev4) \<Rightarrow>
                  (Raised e, w4,
                   Kill pid SIGTERM a # polls pid 30
                     @ [Kill pid SIG0 None, Cprint ''Force killing...'' Color_Y] @ ev4))"
proof -
  have "wait_gone os pid 30 w2 = (False, waited os pid 30 w2, polls pid 30)"
    using al by (intro wait_gone_alive) simp
  moreover obtain r w3 where kl: "os_kill os pid SIG0 (waited os pid 30 w2) = (r, w3)"
    by (cases "os_kill os pid SIG0 (waited os pid 30 w2)")
  moreover from al[of 30] kl have "r = None" by (simp add: alive_def)
  ultimately show ?thesis
    by (simp add: terminate_def send_signal_accepted[OF t] split: prod.splits option.splits)
qed

text \<open>
  C4. When the discovery result, after the optional port filter, holds exactly one pid, stop
  announces the pid and sends it SIGTERM. If the signal is refused with an error other than
  that there is no such process, stop ends with that error, and nothing else happens.
  Otherwise stop checks whether the process is alive, up to 31 times with a sleep after each
  of the first 30 checks that finds it alive, each check in the world that the signal and
  the rounds before it left. At the first check that fails, stop reports "Stopped" and
  returns, and has sent no SIGKILL. If all 31 checks find the process alive, stop prints
  "Force killing..." and sends SIGKILL; then it reports "Stopped" and returns, unless that
  signal is refused, in which case it ends with the error and without the report. In each
  case the events and the world that stop leaves are exactly those given here.
\<close>

theorem stop_single_pid:
  assumes "scan os w = (Inr servers, w1)" and "fst ` set (selected args servers) = {pid}"
      and "os_kill os pid SIGTERM w1 = (a, w2)"
  shows "(a = Some e \<and> e \<noteq> ProcessLookupError \<longrightarrow>
            server_stop os args w
              = (Raised (OSError e), w2,
                 [Scan (Inr servers), announce pid (selected args servers), Kill pid SIGTERM a]))
       \<and> (accepted a \<and> k \<le> 30 \<and> (\<forall>j<k. alive os pid (waited os pid j w2))
            \<and> \<not> alive os pid (waited os pid k w2) \<longrightarrow>
            server_stop os args w
              = (Returned, snd (os_kill os pid SIG0 (waited os pid k w2)),
                 [Scan (Inr servers), announce pid (selected args servers), Kill pid SIGTERM a]
                   @ polls pid k
                   @ [Kill pid SIG0 (fst (os_kill os pid SIG0 (waited os pid k w2))),
                      Cprint ''Stopped'' Color_G]))
       \<and> (accepted a \<and> (\<forall>j\<le>30. alive os pid (waited os pid j w2))
            \<and> os_kill os pid SIGKILL (snd (os_kill os pid SIG0 (waited os pid 30 w2))) = (b, w4)
            \<and> accepted b \<longrightarrow>
            server_stop os args w
              = (Returned, w4,
                 [Scan (Inr servers), announce pid (selected args servers), Kill pid SIGTERM a]
                   @ polls pid 30
                   @ [Kill pid SIG0 None, Cprint ''Force killing...'' Color_Y, Kill pid SIGKILL b,
                      Cprint ''Stopped'' Color_G]))
       \<and> (accepted a \<and> (\<forall>j\<le>30. alive os pid (waited os pid j w2))
            \<and> os_kill os pid SIGKILL (snd (os_kill os pid SIG0 (waited os pid 30 w2))) = (Some e, w4)
            \<and> e \<noteq> ProcessLookupError \<longrightarrow>
            server_stop os args w
              = (Raised (OSError e), w4,
                 [Scan (Inr servers), announce pid (selected args servers), Kill pid SIGTERM a]
                   @ polls pid 30
                   @ [Kill pid SIG0 None, Cprint ''Force killing...'' Color_Y, Kill pid SIGKILL (Some e)]))"
proof (intro conjI impI)
  note s = server_stop_single[OF assms(1,2), folded announce_def]
  {
    assume "a = Some e \<and> e \<noteq> ProcessLookupError"
    with assms(3) have "os_kill os pid SIGTERM w1 = (Some e, w2)" "e \<noteq> ProcessLookupError" by simp_all
    from terminate_refused[OF this] \<open>a = Some e \<and> e \<noteq> ProcessLookupError\<close>
    show "server_stop os args w
              = (Raised (OSError e), w2,
                 [Scan (Inr servers), announce pid (selected args servers), Kill pid SIGTERM a])"
      unfolding s by simp
  next
    assume h: "accepted a \<and> k \<le> 30 \<and> (\<forall>j<k. alive os pid (waited os pid j w2))
            \<and> \<not> alive os pid (waited os pid k w2)"
    then have "accepted a" "k \<le> 30" "\<And>j. j < k \<Longrightarrow> alive os pid (waited os pid j w2)"
      "\<not> alive os pid (waited os pid k w2)" by simp_all
    from terminate_gone[OF assms(3) this]
    show "server_stop os args w
              = (Returned, snd (os_kill os pid SIG0 (waited os pid k w2)),
                 [Scan (Inr servers), announce pid (selected args servers), Kill pid SIGTERM a]
                   @ polls pid k
                   @ [Kill pid SIG0 (fst (os_kill os pid SIG0 (waited os pid k w2))),
                      Cprint ''Stopped'' Color_G])"
      unfolding s by simp
  next
    assume h: "accepted a \<and> (\<forall>j\<le>30. alive os pid (waited os pid j w2))
            \<and> os_kill os pid SIGKILL (snd (os_kill os pid SIG0 (waited os pid 30 w2))) = (b, w4)
            \<and> accepted b"
    then have a: "accepted a" "\<And>j. j \<le> 30 \<Longrightarrow> alive os pid (waited os pid j w2)"
      and b: "os_kill os pid SIGKILL (snd (os_kill os pid SIG0 (waited os pid 30 w2))) = (b, w4)" "accepted b"
      by simp_all
    show "server_stop os args w
              = (Returned, w4,
                 [Scan (Inr servers), announce pid (selected args servers), Kill pid SIGTERM a]
                   @ polls pid 30
                   @ [Kill pid SIG0 None, Cprint ''Force killing...'' Color_Y, Kill pid SIGKILL b,
                      Cprint ''Stopped'' Color_G])"
      unfolding s using terminate_alive[OF assms(3) a] by (simp add: send_signal_accepted[OF b])
  next
    assume h: "accepted a \<and> (\<forall>j\<le>30. alive os pid (waited os pid j w2))
            \<and> os_kill os pid SIGKILL (snd (os_kill os pid SIG0 (waited os pid 30 w2))) = (Some e, w4)
            \<and> e \<noteq> ProcessLookupError"
    then have a: "accepted a" "\<And>j. j \<le> 30 \<Longrightarrow> alive os pid (waited os pid j w2)"
      and b: "os_kill os pid SIGKILL (snd (os_kill os pid SIG0 (waited os pid 30 w2))) = (Some e, w4)"
        "e \<noteq> ProcessLookupError"
      by simp_all
    show "server_stop os args w
              = (Raised (OSError e), w4,
                 [Scan (Inr servers), announce pid (selected args servers), Kill pid SIGTERM a]
                   @ polls pid 30
                   @ [Kill pid SIG0 None, Cprint ''Force killing...'' Color_Y, Kill pid SIGKILL (Some e)])"
      unfolding s using terminate_alive[OF assms(3) a] by (simp add: send_signal_refused[OF b])
  }
qed

lemma discover_sim0: "discover_servers (sim_proc sim0) = Inr [(4242, 8000)]"
  unfolding sim0_def by (simp add: discover_example_111)

lemma scan_sim0: "scan sim_os (sim0\<lparr>sim_survives := n\<rparr>) = (Inr [(4242, 8000)], sim0\<lparr>sim_survives := n\<rparr>)"
  using discover_sim0 by (simp add: scan_def sim_os_def)

lemma selected_args0: "selected args0 servers = servers"
  by (simp add: selected_def args0_def)

subsection \<open>The example operating system\<close>

lemma scan_sim_any:
  assumes "os_scan os = os_scan sim_os"
  shows "scan os (sim0\<lparr>sim_survives := n\<rparr>) = (Inr [(4242, 8000)], sim0\<lparr>sim_survives := n\<rparr>)"
  using discover_sim0 by (simp add: scan_def assms sim_os_def)

lemma waited_sim_any:
  assumes "os_kill os pid SIG0 = os_kill sim_os pid SIG0" "os_sleep os = os_sleep sim_os"
  shows "waited os pid j (sim0\<lparr>sim_survives := n\<rparr>) = sim0\<lparr>sim_survives := n - j\<rparr>"
proof (induction j arbitrary: n)
  case 0
  then show ?case by simp
next
  case (Suc j)
  show ?case
  proof (cases n)
    case 0
    then show ?thesis using Suc[of 0] by (simp add: assms sim_os_def)
  next
    case (Suc m)
    then show ?thesis using Suc.IH[of m] by (simp add: assms sim_os_def)
  qed
qed

lemma alive_sim_any:
  assumes "os_kill os pid SIG0 = os_kill sim_os pid SIG0"
  shows "alive os pid (sim0\<lparr>sim_survives := n\<rparr>) \<longleftrightarrow> n \<noteq> 0"
  by (simp add: alive_def assms sim_os_def)

lemma sel_4242: "fst ` set (selected args0 [(4242, 8000)]) = {4242}"
  by (simp add: selected_args0)

lemma announce_4242:
  "announce 4242 (selected args0 [(4242, 8000)]) = Cprint ''Stopping server PID 4242 (ports=8000)'' Color_C"
  unfolding selected_args0 by code_simp

lemma polls_2: "polls pid 2 = [Kill pid SIG0 None, Sleep, Kill pid SIG0 None, Sleep]"
  by (simp add: polls_def numeral_2_eq_2)

theorem stop_single_pid_witness:
  "server_stop sim_os args0 (sim0\<lparr>sim_survives := 2\<rparr>)
     = (Returned, sim0\<lparr>sim_survives := 0\<rparr>,
        [Scan (Inr [(4242, 8000)]),
         Cprint ''Stopping server PID 4242 (ports=8000)'' Color_C,
         Kill 4242 SIGTERM None,
         Kill 4242 SIG0 None, Sleep, Kill 4242 SIG0 None, Sleep,
         Kill 4242 SIG0 (Some ProcessLookupError),
         Cprint ''Stopped'' Color_G])
   \<and> server_stop sim_os args0 (sim0\<lparr>sim_survives := 40\<rparr>)
     = (Returned, sim0\<lparr>sim_survives := 0\<rparr>,
        [Scan (Inr [(4242, 8000)]),
         Cprint ''Stopping server PID 4242 (ports=8000)'' Color_C,
         Kill 4242 SIGTERM None]
          @ polls 4242 30
          @ [Kill 4242 SIG0 None, Cprint ''Force killing...'' Color_Y, Kill 4242 SIGKILL None,
             Cprint ''Stopped'' Color_G])
   \<and> server_stop sim_kill_denied args0 (sim0\<lparr>sim_survives := 40\<rparr>)
     = (Raised (OSError PermissionError), sim0\<lparr>sim_survives := 9\<rparr>,
        [Scan (Inr [(4242, 8000)]),
         Cprint ''Stopping server PID 4242 (ports=8000)'' Color_C,
         Kill 4242 SIGTERM None]
          @ polls 4242 30
          @ [Kill 4242 SIG0 None, Cprint ''Force killing...'' Color_Y, Kill 4242 SIGKILL (Some PermissionError)])
   \<and> server_stop sim_denied args0 (sim0\<lparr>sim_survives := 2\<rparr>)
     = (Raised (OSError PermissionError), sim0\<lparr>sim_survives := 2\<rparr>,
        [Scan (Inr [(4242, 8000)]),
         Cprint ''Stopping server PID 4242 (ports=8000)'' Color_C,
         Kill 4242 SIGTERM (Some PermissionError)])"
proof -
  have w: "waited sim_os 4242 j (sim0\<lparr>sim_survives := n\<rparr>) = sim0\<lparr>sim_survives := n - j\<rparr>" for j n
    by (rule waited_sim_any) simp_all
  have al: "alive sim_os 4242 (sim0\<lparr>sim_survives := n\<rparr>) \<longleftrightarrow> n \<noteq> 0" for n
    by (rule alive_sim_any) simp
  have wk: "waited sim_kill_denied 4242 j (sim0\<lparr>sim_survives := n\<rparr>) = sim0\<lparr>sim_survives := n - j\<rparr>" for j n
    by (rule waited_sim_any) (simp_all add: sim_kill_denied_def)
  have alk: "alive sim_kill_denied 4242 (sim0\<lparr>sim_survives := n\<rparr>) \<longleftrightarrow> n \<noteq> 0" for n
    by (rule alive_sim_any) (simp add: sim_kill_denied_def)
  have s: "scan sim_os (sim0\<lparr>sim_survives := n\<rparr>) = (Inr [(4242, 8000)], sim0\<lparr>sim_survives := n\<rparr>)" for n
    by (rule scan_sim_any) simp
  have sk: "scan sim_kill_denied (sim0\<lparr>sim_survives := n\<rparr>) = (Inr [(4242, 8000)], sim0\<lparr>sim_survives := n\<rparr>)" for n
    by (rule scan_sim_any) (simp add: sim_kill_denied_def)
  have sd: "scan sim_denied (sim0\<lparr>sim_survives := n\<rparr>) = (Inr [(4242, 8000)], sim0\<lparr>sim_survives := n\<rparr>)" for n
    by (rule scan_sim_any) (simp add: sim_denied_def)
  have c0: "os_kill sim_os 4242 SIG0 (sim0\<lparr>sim_survives := n\<rparr>)
      = (if n = 0 then (Some ProcessLookupError, sim0\<lparr>sim_survives := 0\<rparr>)
         else (None, sim0\<lparr>sim_survives := n - 1\<rparr>))" for n
    by (simp add: sim_os_def)
  have ck: "os_kill sim_os 4242 SIGKILL (sim0\<lparr>sim_survives := n\<rparr>) = (None, sim0\<lparr>sim_survives := 0\<rparr>)" for n
    by (simp add: sim_os_def)
  have d0: "os_kill sim_kill_denied 4242 SIG0 (sim0\<lparr>sim_survives := n\<rparr>)
      = (if n = 0 then (Some ProcessLookupError, sim0\<lparr>sim_survives := 0\<rparr>)
         else (None, sim0\<lparr>sim_survives := n - 1\<rparr>))" for n
    by (simp add: sim_kill_denied_def sim_os_def)
  have dk: "os_kill sim_kill_denied 4242 SIGKILL (sim0\<lparr>sim_survives := n\<rparr>)
      = (Some PermissionError, sim0\<lparr>sim_survives := n\<rparr>)" for n
    by (simp add: sim_kill_denied_def)
  have t2: "os_kill sim_os 4242 SIGTERM (sim0\<lparr>sim_survives := 2\<rparr>) = (None, sim0\<lparr>sim_survives := 2\<rparr>)"
    by (simp add: sim_os_def)
  have t40: "os_kill sim_os 4242 SIGTERM (sim0\<lparr>sim_survives := 40\<rparr>) = (None, sim0\<lparr>sim_survives := 40\<rparr>)"
    by (simp add: sim_os_def)
  have tk: "os_kill sim_kill_denied 4242 SIGTERM (sim0\<lparr>sim_survives := 40\<rparr>) = (None, sim0\<lparr>sim_survives := 40\<rparr>)"
    by (simp add: sim_kill_denied_def sim_os_def)
  have td: "os_kill sim_denied 4242 SIGTERM (sim0\<lparr>sim_survives := 2\<rparr>)
      = (Some PermissionError, sim0\<lparr>sim_survives := 2\<rparr>)"
    by (simp add: sim_denied_def)
  have 1: "server_stop sim_os args0 (sim0\<lparr>sim_survives := 2\<rparr>)
     = (Returned, sim0\<lparr>sim_survives := 0\<rparr>,
        [Scan (Inr [(4242, 8000)]),
         Cprint ''Stopping server PID 4242 (ports=8000)'' Color_C,
         Kill 4242 SIGTERM None,
         Kill 4242 SIG0 None, Sleep, Kill 4242 SIG0 None, Sleep,
         Kill 4242 SIG0 (Some ProcessLookupError),
         Cprint ''Stopped'' Color_G])"
    using stop_single_pid[OF s sel_4242 t2, where k = 2]
    by (simp add: w al accepted_def announce_4242 polls_2 c0)
  have 2: "server_stop sim_os args0 (sim0\<lparr>sim_survives := 40\<rparr>)
     = (Returned, sim0\<lparr>sim_survives := 0\<rparr>,
        [Scan (Inr [(4242, 8000)]),
         Cprint ''Stopping server PID 4242 (ports=8000)'' Color_C,
         Kill 4242 SIGTERM None]
          @ polls 4242 30
          @ [Kill 4242 SIG0 None, Cprint ''Force killing...'' Color_Y, Kill 4242 SIGKILL None,
             Cprint ''Stopped'' Color_G])"
    using stop_single_pid[OF s sel_4242 t40, where b = None and ?w4.0 = "sim0\<lparr>sim_survives := 0\<rparr>"]
    by (simp add: w al accepted_def announce_4242 c0 ck)
  have 3: "server_stop sim_kill_denied args0 (sim0\<lparr>sim_survives := 40\<rparr>)
     = (Raised (OSError PermissionError), sim0\<lparr>sim_survives := 9\<rparr>,
        [Scan (Inr [(4242, 8000)]),
         Cprint ''Stopping server PID 4242 (ports=8000)'' Color_C,
         Kill 4242 SIGTERM None]
          @ polls 4242 30
          @ [Kill 4242 SIG0 None, Cprint ''Force killing...'' Color_Y, Kill 4242 SIGKILL (Some PermissionError)])"
    using stop_single_pid[OF sk sel_4242 tk, where e = PermissionError and ?w4.0 = "sim0\<lparr>sim_survives := 9\<rparr>"]
    by (simp add: wk alk accepted_def announce_4242 d0 dk)
  have 4: "server_stop sim_denied args0 (sim0\<lparr>sim_survives := 2\<rparr>)
     = (Raised (OSError PermissionError), sim0\<lparr>sim_survives := 2\<rparr>,
        [Scan (Inr [(4242, 8000)]),
         Cprint ''Stopping server PID 4242 (ports=8000)'' Color_C,
         Kill 4242 SIGTERM (Some PermissionError)])"
    using stop_single_pid[OF sd sel_4242 td, where e = PermissionError]
    by (simp add: announce_4242)
  from 1 2 3 4 show ?thesis by simp
qed

lemma stop_sim_denied:
  "server_stop sim_denied args0 sim0
     = (Raised (OSError PermissionError), sim0,
        [Scan (Inr [(4242, 8000)]),
         Cprint ''Stopping server PID 4242 (ports=8000)'' Color_C,
         Kill 4242 SIGTERM (Some PermissionError)])"
  by code_simp

theorem stop_refused_counterexample:
  "scan sim_denied sim0 = (Inr [(4242, 8000)], sim0)
   \<and> fst ` set (selected args0 [(4242, 8000)]) = {4242}
   \<and> server_stop sim_denied args0 sim0
     = (Raised (OSError PermissionError), sim0,
        [Scan (Inr [(4242, 8000)]),
         Cprint ''Stopping server PID 4242 (ports=8000)'' Color_C,
         Kill 4242 SIGTERM (Some PermissionError)])"
proof -
  have "sim0 = sim0\<lparr>sim_survives := 2\<rparr>" by (simp add: sim0_def)
  moreover have "scan sim_denied (sim0\<lparr>sim_survives := 2\<rparr>) = (Inr [(4242, 8000)], sim0\<lparr>sim_survives := 2\<rparr>)"
    by (rule scan_sim_any) (simp add: sim_denied_def)
  ultimately have "scan sim_denied sim0 = (Inr [(4242, 8000)], sim0)" by simp
  with sel_4242 stop_sim_denied show ?thesis by simp
qed

text \<open>
  C10. When the only way in which sending a signal to the pid can fail is that the
  process is gone, stop on a single matched pid returns, whatever the liveness checks
  answer, and its last message is "Stopped"; a liveness check that fails during the wait
  ends the wait, and then no SIGKILL is sent.
\<close>

theorem stop_process_gone:
  assumes "scan os w = (Inr servers, w1)" and "fst ` set (selected args servers) = {pid}"
      and "\<forall>sig w'. sig \<noteq> SIG0 \<longrightarrow>
             fst (os_kill os pid sig w') = None \<or> fst (os_kill os pid sig w') = Some ProcessLookupError"
  shows "\<exists>w' evs. server_stop os args w = (Returned, w', evs)
           \<and> last evs = Cprint ''Stopped'' Color_G
           \<and> ((\<exists>e. Kill pid SIG0 (Some e) \<in> set evs) \<longrightarrow> (\<forall>b. Kill pid SIGKILL b \<notin> set evs))"
proof -
  obtain out w' evs where t: "terminate os pid w1 = (out, w', evs)" by (cases "terminate os pid w1")
  define ev0 where "ev0 = Cprint (''Stopping server PID '' @ str pid @ '' (ports=''
                         @ ports_text (ports_of pid (selected args servers)) @ '')'') Color_C"
  have s: "server_stop os args w = (out, w', Scan (Inr servers) # ev0 # evs)"
    unfolding server_stop_single[OF assms(1,2)] t ev0_def by simp
  have k0: "\<forall>q sig r. ev0 \<noteq> Kill q sig r" by (simp add: ev0_def)
  have "out = Returned \<and> evs \<noteq> [] \<and> last evs = Cprint ''Stopped'' Color_G
      \<and> ((\<exists>e. Kill pid SIG0 (Some e) \<in> set evs) \<longrightarrow> (\<forall>b. Kill pid SIGKILL b \<notin> set evs))"
  using t proof (cases rule: terminate_cases)
    case (refused_term e)
    from assms(3) have "fst (os_kill os pid SIGTERM w1) = None
        \<or> fst (os_kill os pid SIGTERM w1) = Some ProcessLookupError" by simp
    with refused_term show ?thesis by auto
  next
    case (gone a k e)
    then show ?thesis by (simp add: polls_no_kill)
  next
    case (killed a b w3)
    then show ?thesis by (simp add: polls_no_failure)
  next
    case (refused_kill a e w3)
    from assms(3) have "fst (os_kill os pid SIGKILL w3) = None
        \<or> fst (os_kill os pid SIGKILL w3) = Some ProcessLookupError" by simp
    with refused_kill show ?thesis by auto
  qed
  with s k0 show ?thesis by auto
qed

lemma sim_os_signals:
  "\<forall>sig w'. sig \<noteq> SIG0 \<longrightarrow>
     fst (os_kill sim_os 4242 sig w') = None \<or> fst (os_kill sim_os 4242 sig w') = Some ProcessLookupError"
  by (simp add: sim_os_def split: signal.splits)

lemma stop_sim0_gone:
  "server_stop sim_os args0 (sim0\<lparr>sim_survives := 0\<rparr>)
     = (Returned, sim0\<lparr>sim_survives := 0\<rparr>,
        [Scan (Inr [(4242, 8000)]),
         Cprint ''Stopping server PID 4242 (ports=8000)'' Color_C,
         Kill 4242 SIGTERM (Some ProcessLookupError),
         Kill 4242 SIG0 (Some ProcessLookupError),
         Cprint ''Stopped'' Color_G])"
  unfolding server_stop_def scan_sim0 by code_simp

theorem stop_process_gone_witness:
  "scan sim_os (sim0\<lparr>sim_survives := 0\<rparr>) = (Inr [(4242, 8000)], sim0\<lparr>sim_survives := 0\<rparr>)
   \<and> fst ` set (selected args0 [(4242, 8000)]) = {4242}
   \<and> (\<exists>w' evs. server_stop sim_os args0 (sim0\<lparr>sim_survives := 0\<rparr>) = (Returned, w', evs)
         \<and> last evs = Cprint ''Stopped'' Color_G)
   \<and> server_stop sim_os args0 (sim0\<lparr>sim_survives := 0\<rparr>)
     = (Returned, sim0\<lparr>sim_survives := 0\<rparr>,
        [Scan (Inr [(4242, 8000)]),
         Cprint ''Stopping server PID 4242 (ports=8000)'' Color_C,
         Kill 4242 SIGTERM (Some ProcessLookupError),
         Kill 4242 SIG0 (Some ProcessLookupError),
         Cprint ''Stopped'' Color_G])"
proof -
  note sel = sel_4242
  from stop_process_gone[OF scan_sim0 sel sim_os_signals]
  have "\<exists>w' evs. server_stop sim_os args0 (sim0\<lparr>sim_survives := 0\<rparr>) = (Returned, w', evs)
         \<and> last evs = Cprint ''Stopped'' Color_G" by blast
  with scan_sim0[of 0] sel stop_sim0_gone show ?thesis by blast
qed

section \<open>status\<close>

lemma server_status_selected:
  assumes "scan os w = (Inr servers, w1)" "selected args servers \<noteq> []"
  shows "server_status os args w
           = (case status_servers os args (selected args servers) w1 of
                (out, w2, evs) \<Rightarrow> (out, w2, Scan (Inr servers) # evs))"
proof (cases "a_port args")
  case None
  with assms show ?thesis by (simp add: server_status_def selected_def)
next
  case (Some p)
  with assms have "servers \<noteq> []" by (auto simp: selected_def)
  with Some assms show ?thesis by (simp add: server_status_def selected_def Let_def)
qed

lemma server_stop_nothing:
  assumes "scan os w = (Inr servers, w1)" "selected args servers = []"
  shows "\<exists>msg. server_stop os args w = (Returned, w1, [Scan (Inr servers), Cprint msg Color_Y])
           \<and> msg \<noteq> ''Multiple servers detected (ambiguous stop):''"
proof (cases "a_port args")
  case None
  with assms show ?thesis by (simp add: server_stop_def selected_def)
next
  case (Some p)
  with assms show ?thesis by (cases "servers = []") (simp_all add: server_stop_def selected_def)
qed

lemma server_status_nothing:
  assumes "scan os w = (Inr servers, w1)" "selected args servers = []"
  shows "\<exists>msg. server_status os args w = (Returned, w1, [Scan (Inr servers), Cprint msg Color_R])"
proof (cases "a_port args")
  case None
  with assms show ?thesis by (simp add: server_status_def selected_def)
next
  case (Some p)
  with assms show ?thesis by (cases "servers = []") (simp_all add: server_status_def selected_def)
qed

lemma group_step_head:
  assumes "acc \<noteq> []"
  shows "(case map_of acc k of None \<Rightarrow> acc @ [(k, [v])] | Some pl \<Rightarrow> AList.update k (pl @ [v]) acc) \<noteq> []
       \<and> fst (hd (case map_of acc k of None \<Rightarrow> acc @ [(k, [v])] | Some pl \<Rightarrow> AList.update k (pl @ [v]) acc))
           = fst (hd acc)"
proof -
  obtain a rest where acc: "acc = a # rest" using assms by (cases acc) auto
  obtain k' v' where a: "a = (k', v')" by (cases a)
  show ?thesis unfolding acc a by (cases "map_of ((k', v') # rest) k") auto
qed

lemma group_by_pid_head_acc:
  "acc \<noteq> [] \<Longrightarrow> group_by_pid xs acc \<noteq> [] \<and> fst (hd (group_by_pid xs acc)) = fst (hd acc)"
proof (induction xs arbitrary: acc)
  case Nil
  then show ?case by simp
next
  case (Cons x xs)
  obtain k v where x: "x = (k, v)" by (cases x)
  let ?acc = "case map_of acc k of None \<Rightarrow> acc @ [(k, [v])] | Some pl \<Rightarrow> AList.update k (pl @ [v]) acc"
  from group_step_head[OF Cons.prems, of k v] have 1: "?acc \<noteq> []" and 2: "fst (hd ?acc) = fst (hd acc)"
    by simp_all
  from Cons.IH[OF 1] 2 show ?case unfolding x by simp
qed

lemma group_by_pid_head:
  assumes "xs \<noteq> []"
  shows "\<exists>rest. group_by_pid xs [] = (fst (hd xs), ports_of (fst (hd xs)) xs) # rest"
proof -
  obtain x xs' where xs: "xs = x # xs'" using assms by (cases xs) auto
  obtain k v where x: "x = (k, v)" by (cases x)
  have e: "group_by_pid xs [] = group_by_pid xs' [(k, [v])]" unfolding xs x by simp
  have "group_by_pid xs' [(k, [v])] \<noteq> [] \<and> fst (hd (group_by_pid xs' [(k, [v])])) = k"
    using group_by_pid_head_acc[of "[(k, [v])]" xs'] by simp
  then have ne: "group_by_pid xs [] \<noteq> []" and h: "fst (hd (group_by_pid xs [])) = k"
    unfolding e by simp_all
  from ne obtain g rest where g0: "group_by_pid xs [] = g # rest" by (cases "group_by_pid xs []") auto
  with h have g: "group_by_pid xs [] = g # rest" "fst g = k" by simp_all
  have "map_of (group_by_pid xs []) k = Some (ports_of k xs)"
    unfolding group_by_pid_lookup by (simp add: xs x)
  with g have "snd g = ports_of k xs" by (cases g) simp
  with g show ?thesis unfolding xs x by (cases g) simp
qed

lemma terminate_no_report:
  assumes "terminate os pid w = (out, w', evs)"
  shows "Cprint ''Multiple servers detected (ambiguous stop):'' Color_Y \<notin> set evs"
  using assms
proof (cases rule: terminate_cases)
  case (refused_term e)
  then show ?thesis by simp
next
  case (gone a k e)
  then show ?thesis using polls_set[of pid k] by auto
next
  case (killed a b w3)
  then show ?thesis using polls_set[of pid 30] by auto
next
  case (refused_kill a e w3)
  then show ?thesis using polls_set[of pid 30] by auto
qed

lemma pid_lines_no_report: "msg \<noteq> [] \<Longrightarrow> hd msg \<noteq> CHR '' '' \<Longrightarrow> Cprint msg c \<notin> set (pid_lines word grouped)"
  unfolding pid_lines_def by auto

lemma health_check_events:
  assumes "health_check os args p w = (w', evs)"
  shows "Cprint ''Multiple servers detected:'' Color_Y \<notin> set evs \<and> (\<forall>q sig r. Kill q sig r \<notin> set evs)"
proof -
  obtain r w1 where u: "os_urlopen os (''http://'' @ a_bind args @ '':'' @ str p @ ''/'') (a_timeout args) (os_sleep os w) = (r, w1)"
    by (cases "os_urlopen os (''http://'' @ a_bind args @ '':'' @ str p @ ''/'') (a_timeout args) (os_sleep os w)")
  show ?thesis using assms u by (cases r) (auto simp: health_check_def Let_def)
qed

lemma stop_servers_report:
  assumes "sel \<noteq> []"
  shows "Cprint ''Multiple servers detected (ambiguous stop):'' Color_Y \<in> set (snd (snd (stop_servers os args sel w)))
           \<longleftrightarrow> 2 \<le> card (fst ` set sel)"
proof (cases "length (group_by_pid sel []) > 1")
  case True
  then have "2 \<le> card (fst ` set sel)" by (simp add: group_by_pid_length)
  with True show ?thesis by (simp add: stop_servers_def Let_def)
next
  case False
  then have c: "\<not> 2 \<le> card (fst ` set sel)" by (simp add: group_by_pid_length)
  from group_by_pid_head[OF assms] obtain rest where
    g: "group_by_pid sel [] = (fst (hd sel), ports_of (fst (hd sel)) sel) # rest" by blast
  obtain out w' evs where t: "terminate os (fst (hd sel)) w = (out, w', evs)"
    by (cases "terminate os (fst (hd sel)) w")
  have "snd (snd (stop_servers os args sel w))
      = Cprint (''Stopping server PID '' @ str (fst (hd sel)) @ '' (ports=''
                  @ ports_text (ports_of (fst (hd sel)) sel) @ '')'') Color_C # evs"
    using False g t by (simp add: stop_servers_def stop_pid_def)
  with terminate_no_report[OF t] c show ?thesis by simp
qed

lemma status_servers_report:
  assumes "sel \<noteq> []"
  shows "(Cprint ''Multiple servers detected:'' Color_Y \<in> set (snd (snd (status_servers os args sel w)))
           \<longleftrightarrow> 2 \<le> card (fst ` set sel) \<and> a_port args = None)
       \<and> (\<forall>q sig r. Kill q sig r \<notin> set (snd (snd (status_servers os args sel w))))
       \<and> (\<not> (2 \<le> card (fst ` set sel) \<and> a_port args = None) \<longrightarrow>
            Cprint (''Running (PID '' @ str (fst (hd sel)) @ '') (ports=''
                      @ ports_text (ports_of (fst (hd sel)) sel) @ '')'') Color_G
              \<in> set (snd (snd (status_servers os args sel w))))"
proof (cases "length (group_by_pid sel []) > 1 \<and> a_port args = None")
  case True
  then have "2 \<le> card (fst ` set sel) \<and> a_port args = None" by (simp add: group_by_pid_length)
  with True show ?thesis by (simp add: status_servers_def Let_def pid_lines_no_kill)
next
  case False
  then have c: "\<not> (2 \<le> card (fst ` set sel) \<and> a_port args = None)"
    by (auto simp: group_by_pid_length)
  from group_by_pid_head[OF assms] obtain rest where
    g: "group_by_pid sel [] = (fst (hd sel), ports_of (fst (hd sel)) sel) # rest" by blast
  define running where "running = Cprint (''Running (PID '' @ str (fst (hd sel)) @ '') (ports=''
                      @ ports_text (ports_of (fst (hd sel)) sel) @ '')'') Color_G"
  have r: "running \<noteq> Cprint ''Multiple servers detected:'' Color_Y" "\<forall>q sig r. running \<noteq> Kill q sig r"
    by (simp_all add: running_def)
  show ?thesis
  proof (cases "\<exists>p. ports_of (fst (hd sel)) sel = [p]")
    case True
    then obtain p where p: "ports_of (fst (hd sel)) sel = [p]" by blast
    obtain w' evs where h: "health_check os args p w = (w', evs)" by (cases "health_check os args p w")
    have "snd (snd (status_servers os args sel w)) = running # evs"
      using False g h by (auto simp: status_servers_def p running_def)
    with health_check_events[OF h] r c show ?thesis unfolding running_def[symmetric] by auto
  next
    case False
    note np = False
    have "snd (snd (status_servers os args sel w)) = [running]"
    proof (cases "ports_of (fst (hd sel)) sel")
      case Nil
      with \<open>\<not> (length (group_by_pid sel []) > 1 \<and> a_port args = None)\<close> g show ?thesis
        by (auto simp: status_servers_def running_def)
    next
      case (Cons a l)
      with np obtain b l' where "l = b # l'" by (cases l) auto
      with Cons \<open>\<not> (length (group_by_pid sel []) > 1 \<and> a_port args = None)\<close> g show ?thesis
        by (auto simp: status_servers_def running_def)
    qed
    with r c show ?thesis unfolding running_def[symmetric] by auto
  qed
qed

lemma status_servers_ambiguous:
  assumes "2 \<le> card (fst ` set sel)" "a_port args = None"
  shows "status_servers os args sel w
           = (Returned, w,
              Cprint ''Multiple servers detected:'' Color_Y # pid_lines '' ports '' (group_by_pid sel [])
                @ [Cprint ''Specify --port for detailed health check.'' Color_C])"
proof -
  from assms(1) have "length (group_by_pid sel []) > 1" by (simp add: group_by_pid_length)
  with assms(2) show ?thesis by (simp add: status_servers_def Let_def)
qed

lemma status_servers_selects:
  assumes "sel \<noteq> []" "a_port args \<noteq> None"
  shows "status_servers os args sel w
           = (case ports_of (fst (hd sel)) sel of
                [p] \<Rightarrow>
                  (case health_check os args p w of
                     (w2, evs) \<Rightarrow>
                       (Returned, w2,
                        Cprint (''Running (PID '' @ str (fst (hd sel)) @ '') (ports=''
                                  @ ports_text (ports_of (fst (hd sel)) sel) @ '')'') Color_G # evs))
              | _ \<Rightarrow>
                  (Returned, w,
                   [Cprint (''Running (PID '' @ str (fst (hd sel)) @ '') (ports=''
                              @ ports_text (ports_of (fst (hd sel)) sel) @ '')'') Color_G]))"
proof -
  from group_by_pid_head[OF assms(1)] obtain rest where
    g: "group_by_pid sel [] = (fst (hd sel), ports_of (fst (hd sel)) sel) # rest" by blast
  from assms(2) obtain y where y: "a_port args = Some y" by auto
  define P where "P = ports_of (fst (hd sel)) sel"
  define running where "running = Cprint (''Running (PID '' @ str (fst (hd sel)) @ '') (ports=''
                              @ ports_text P @ '')'') Color_G"
  have "status_servers os args sel w
      = (case P of
           [p] \<Rightarrow> (case health_check os args p w of (w2, evs) \<Rightarrow> (Returned, w2, running # evs))
         | _ \<Rightarrow> (Returned, w, [running]))"
    unfolding status_servers_def g[folded P_def] running_def using y
    by (simp add: Let_def split: list.splits prod.splits)
  then show ?thesis unfolding running_def P_def .
qed

text \<open>
  C7. stop reports an ambiguity exactly when the discovery result, after the optional port
  filter, holds two or more distinct pids. In that case status, when no port filter was
  given, prints its own ambiguity report with one line for each pid and leaves the world as
  the scan left it; when a port filter was given, status reports no ambiguity: it reports
  the first of the pids as running and, when that pid has one port, checks its health.
  status never sends a signal.
\<close>

theorem status_ambiguity:
  assumes "scan os w = (Inr servers, w1)"
  shows "(Cprint ''Multiple servers detected (ambiguous stop):'' Color_Y \<in> set (snd (snd (server_stop os args w)))
            \<longleftrightarrow> 2 \<le> card (fst ` set (selected args servers)))
       \<and> (2 \<le> card (fst ` set (selected args servers)) \<and> a_port args = None \<longrightarrow>
            server_status os args w
              = (Returned, w1,
                 Scan (Inr servers) # Cprint ''Multiple servers detected:'' Color_Y
                   # pid_lines '' ports '' (group_by_pid (selected args servers) [])
                   @ [Cprint ''Specify --port for detailed health check.'' Color_C]))
       \<and> (2 \<le> card (fst ` set (selected args servers)) \<and> a_port args \<noteq> None \<longrightarrow>
            server_status os args w
              = (case ports_of (fst (hd (selected args servers))) (selected args servers) of
                   [p] \<Rightarrow>
                     (case health_check os args p w1 of
                        (w2, evs) \<Rightarrow>
                          (Returned, w2,
                           Scan (Inr servers)
                             # Cprint (''Running (PID '' @ str (fst (hd (selected args servers))) @ '') (ports=''
                                         @ ports_text (ports_of (fst (hd (selected args servers))) (selected args servers))
                                         @ '')'') Color_G
                             # evs))
                 | _ \<Rightarrow>
                     (Returned, w1,
                      [Scan (Inr servers),
                       Cprint (''Running (PID '' @ str (fst (hd (selected args servers))) @ '') (ports=''
                                 @ ports_text (ports_of (fst (hd (selected args servers))) (selected args servers))
                                 @ '')'') Color_G])))
       \<and> (\<forall>q sig r. Kill q sig r \<notin> set (snd (snd (server_status os args w))))"
proof (cases "selected args servers = []")
  case True
  from server_stop_nothing[OF assms True] obtain msg where
    "server_stop os args w = (Returned, w1, [Scan (Inr servers), Cprint msg Color_Y])"
    "msg \<noteq> ''Multiple servers detected (ambiguous stop):''" by blast
  moreover from server_status_nothing[OF assms True] obtain msg' where
    "server_status os args w = (Returned, w1, [Scan (Inr servers), Cprint msg' Color_R])" by blast
  ultimately show ?thesis using True by simp
next
  case False
  let ?sel = "selected args servers"
  obtain o1 v1 e1 where s1: "stop_servers os args ?sel w1 = (o1, v1, e1)"
    by (cases "stop_servers os args ?sel w1")
  obtain o2 v2 e2 where s2: "status_servers os args ?sel w1 = (o2, v2, e2)"
    by (cases "status_servers os args ?sel w1")
  have stop: "snd (snd (server_stop os args w)) = Scan (Inr servers) # e1"
    unfolding server_stop_selected[OF assms False] s1 by simp
  have status: "snd (snd (server_status os args w)) = Scan (Inr servers) # e2"
    unfolding server_status_selected[OF assms False] s2 by simp
  from stop_servers_report[OF False, of os args w1] s1
  have a: "Cprint ''Multiple servers detected (ambiguous stop):'' Color_Y \<in> set e1
      \<longleftrightarrow> 2 \<le> card (fst ` set ?sel)" by simp
  from status_servers_report[OF False, of os args w1] s2
  have c: "\<forall>q sig r. Kill q sig r \<notin> set e2" by simp
  have 1: "Cprint ''Multiple servers detected (ambiguous stop):'' Color_Y \<in> set (snd (snd (server_stop os args w)))
            \<longleftrightarrow> 2 \<le> card (fst ` set ?sel)"
    unfolding stop using a by simp
  have 4: "\<forall>q sig r. Kill q sig r \<notin> set (snd (snd (server_status os args w)))"
    unfolding status using c by simp
  have 2: "server_status os args w
              = (Returned, w1,
                 Scan (Inr servers) # Cprint ''Multiple servers detected:'' Color_Y
                   # pid_lines '' ports '' (group_by_pid ?sel [])
                   @ [Cprint ''Specify --port for detailed health check.'' Color_C])"
    if "2 \<le> card (fst ` set ?sel) \<and> a_port args = None"
    unfolding server_status_selected[OF assms False] using that
    by (simp add: status_servers_ambiguous)
  have 3: "server_status os args w
              = (case ports_of (fst (hd ?sel)) ?sel of
                   [p] \<Rightarrow>
                     (case health_check os args p w1 of
                        (w2, evs) \<Rightarrow>
                          (Returned, w2,
                           Scan (Inr servers)
                             # Cprint (''Running (PID '' @ str (fst (hd ?sel)) @ '') (ports=''
                                         @ ports_text (ports_of (fst (hd ?sel)) ?sel)
                                         @ '')'') Color_G
                             # evs))
                 | _ \<Rightarrow>
                     (Returned, w1,
                      [Scan (Inr servers),
                       Cprint (''Running (PID '' @ str (fst (hd ?sel)) @ '') (ports=''
                                 @ ports_text (ports_of (fst (hd ?sel)) ?sel)
                                 @ '')'') Color_G]))"
    if "2 \<le> card (fst ` set ?sel) \<and> a_port args \<noteq> None"
  proof -
    from that have p: "a_port args \<noteq> None" by simp
    show ?thesis
      unfolding server_status_selected[OF assms False] status_servers_selects[OF False p]
      by (simp split: list.splits prod.splits)
  qed
  from 1 2 3 4 show ?thesis by blast
qed

lemma scan_two_pids_8000:
  "selected (args0\<lparr>a_port := Some 8000\<rparr>) [(4242, 8000), (4343, 8000), (4343, 9000)]
     = [(4242, 8000), (4343, 8000)]"
  by (simp add: selected_def args0_def)

lemma stop_two_pids_8000:
  "server_stop sim_os (args0\<lparr>a_port := Some 8000\<rparr>) (sim0\<lparr>sim_proc := example_two_pids\<rparr>)
     = (Returned, sim0\<lparr>sim_proc := example_two_pids\<rparr>,
        [Scan (Inr [(4242, 8000), (4343, 8000), (4343, 9000)]),
         Cprint ''Multiple servers detected (ambiguous stop):'' Color_Y,
         Cprint ''  PID 4242 ports 8000'' Color_Y,
         Cprint ''  PID 4343 ports 8000'' Color_Y])"
  unfolding server_stop_def scan_two_pids by code_simp

lemma status_two_pids_8000:
  "server_status sim_os (args0\<lparr>a_port := Some 8000\<rparr>) (sim0\<lparr>sim_proc := example_two_pids\<rparr>)
     = (Returned, sim0\<lparr>sim_proc := example_two_pids\<rparr>,
        [Scan (Inr [(4242, 8000), (4343, 8000), (4343, 9000)]),
         Cprint ''Running (PID 4242) (ports=8000)'' Color_G,
         Sleep, UrlOpen ''http://0.0.0.0:8000/'',
         Cprint ''Health OK HTTP 200'' Color_G])"
  unfolding server_status_def scan_two_pids by code_simp

lemma lines_two_pids:
  "pid_lines '' ports '' [(4242, [8000]), (4343, [8000, 9000])]
     = [Cprint ''  PID 4242 ports 8000'' Color_Y, Cprint ''  PID 4343 ports 8000,9000'' Color_Y]"
  by code_simp

lemma health_two_pids:
  "health_check sim_os (args0\<lparr>a_port := Some 8000\<rparr>) 8000 (sim0\<lparr>sim_proc := example_two_pids\<rparr>)
     = (sim0\<lparr>sim_proc := example_two_pids\<rparr>,
        [Sleep, UrlOpen ''http://0.0.0.0:8000/'', Cprint ''Health OK HTTP 200'' Color_G])"
  by code_simp

lemma str_4242: "str 4242 = ''4242''"
  by code_simp

lemma ports_text_8000: "ports_text [8000] = ''8000''"
  by code_simp

theorem status_ambiguity_witness:
  "card (fst ` set (selected (args0\<lparr>a_port := Some 8000\<rparr>) [(4242, 8000), (4343, 8000), (4343, 9000)])) = 2
   \<and> card (fst ` set (selected args0 [(4242, 8000), (4343, 8000), (4343, 9000)])) = 2
   \<and> Cprint ''Multiple servers detected (ambiguous stop):'' Color_Y
        \<in> set (snd (snd (server_stop sim_os (args0\<lparr>a_port := Some 8000\<rparr>) (sim0\<lparr>sim_proc := example_two_pids\<rparr>))))
   \<and> server_status sim_os args0 (sim0\<lparr>sim_proc := example_two_pids\<rparr>)
       = (Returned, sim0\<lparr>sim_proc := example_two_pids\<rparr>,
          [Scan (Inr [(4242, 8000), (4343, 8000), (4343, 9000)]),
           Cprint ''Multiple servers detected:'' Color_Y,
           Cprint ''  PID 4242 ports 8000'' Color_Y,
           Cprint ''  PID 4343 ports 8000,9000'' Color_Y,
           Cprint ''Specify --port for detailed health check.'' Color_C])
   \<and> server_status sim_os (args0\<lparr>a_port := Some 8000\<rparr>) (sim0\<lparr>sim_proc := example_two_pids\<rparr>)
       = (Returned, sim0\<lparr>sim_proc := example_two_pids\<rparr>,
          [Scan (Inr [(4242, 8000), (4343, 8000), (4343, 9000)]),
           Cprint ''Running (PID 4242) (ports=8000)'' Color_G,
           Sleep, UrlOpen ''http://0.0.0.0:8000/'',
           Cprint ''Health OK HTTP 200'' Color_G])"
proof -
  have c: "card (fst ` set (selected (args0\<lparr>a_port := Some 8000\<rparr>) [(4242, 8000), (4343, 8000), (4343, 9000)])) = 2"
    unfolding scan_two_pids_8000 by simp
  have c0: "card (fst ` set (selected args0 [(4242, 8000), (4343, 8000), (4343, 9000)])) = 2"
    unfolding selected_args0 by simp
  have p: "a_port (args0\<lparr>a_port := Some 8000\<rparr>) \<noteq> None" "a_port args0 = None" by (simp_all add: args0_def)
  have h: "fst (hd (selected (args0\<lparr>a_port := Some 8000\<rparr>) [(4242, 8000), (4343, 8000), (4343, 9000)])) = 4242"
    "ports_of 4242 (selected (args0\<lparr>a_port := Some 8000\<rparr>) [(4242, 8000), (4343, 8000), (4343, 9000)]) = [8000]"
    unfolding scan_two_pids_8000 by (simp_all add: ports_of_def)
  note t8 = status_ambiguity[OF scan_two_pids, of "args0\<lparr>a_port := Some 8000\<rparr>"]
  note t0 = status_ambiguity[OF scan_two_pids, of args0]
  from t8 c have 1: "Cprint ''Multiple servers detected (ambiguous stop):'' Color_Y
        \<in> set (snd (snd (server_stop sim_os (args0\<lparr>a_port := Some 8000\<rparr>) (sim0\<lparr>sim_proc := example_two_pids\<rparr>))))"
    by simp
  from t0 c0 p(2) have 2: "server_status sim_os args0 (sim0\<lparr>sim_proc := example_two_pids\<rparr>)
       = (Returned, sim0\<lparr>sim_proc := example_two_pids\<rparr>,
          [Scan (Inr [(4242, 8000), (4343, 8000), (4343, 9000)]),
           Cprint ''Multiple servers detected:'' Color_Y,
           Cprint ''  PID 4242 ports 8000'' Color_Y,
           Cprint ''  PID 4343 ports 8000,9000'' Color_Y,
           Cprint ''Specify --port for detailed health check.'' Color_C])"
    by (simp add: selected_args0 lines_two_pids)
  from t8 c p(1) have 3: "server_status sim_os (args0\<lparr>a_port := Some 8000\<rparr>) (sim0\<lparr>sim_proc := example_two_pids\<rparr>)
       = (Returned, sim0\<lparr>sim_proc := example_two_pids\<rparr>,
          [Scan (Inr [(4242, 8000), (4343, 8000), (4343, 9000)]),
           Cprint ''Running (PID 4242) (ports=8000)'' Color_G,
           Sleep, UrlOpen ''http://0.0.0.0:8000/'',
           Cprint ''Health OK HTTP 200'' Color_G])"
    by (simp add: h health_two_pids str_4242 ports_text_8000)
  from c c0 1 2 3 show ?thesis by simp
qed

theorem status_selects_counterexample:
  "server_stop sim_os (args0\<lparr>a_port := Some 8000\<rparr>) (sim0\<lparr>sim_proc := example_two_pids\<rparr>)
     = (Returned, sim0\<lparr>sim_proc := example_two_pids\<rparr>,
        [Scan (Inr [(4242, 8000), (4343, 8000), (4343, 9000)]),
         Cprint ''Multiple servers detected (ambiguous stop):'' Color_Y,
         Cprint ''  PID 4242 ports 8000'' Color_Y,
         Cprint ''  PID 4343 ports 8000'' Color_Y])
   \<and> server_status sim_os (args0\<lparr>a_port := Some 8000\<rparr>) (sim0\<lparr>sim_proc := example_two_pids\<rparr>)
     = (Returned, sim0\<lparr>sim_proc := example_two_pids\<rparr>,
        [Scan (Inr [(4242, 8000), (4343, 8000), (4343, 9000)]),
         Cprint ''Running (PID 4242) (ports=8000)'' Color_G,
         Sleep, UrlOpen ''http://0.0.0.0:8000/'',
         Cprint ''Health OK HTTP 200'' Color_G])"
  using stop_two_pids_8000 status_two_pids_8000 by simp

section \<open>start\<close>

lemma is_scan_simps:
  "is_scan (Scan r)" "\<not> is_scan (Cprint m c)" "\<not> is_scan (Print m)" "\<not> is_scan (Kill p sg a)"
  "\<not> is_scan Sleep" "\<not> is_scan (Mkdir d)" "\<not> is_scan (Replace x y)" "\<not> is_scan (Connect h p)"
  "\<not> is_scan Fork" "\<not> is_scan Setsid" "\<not> is_scan (Chdir d)" "\<not> is_scan (OpenLog d)"
  "\<not> is_scan (Serve h p)" "\<not> is_scan (LogWrite m)" "\<not> is_scan (UrlOpen u)"
  by (simp_all add: is_scan_def)

lemma migrate_log_port: "migrate_log os (args\<lparr>a_port := p\<rparr>) w = migrate_log os args w"
  by (simp add: migrate_log_def)

lemma migrate_log_nothing:
  assumes "os_exists os (os_resolve os (a_log_file args) w) w
           \<or> \<not> os_exists os (os_resolve os ''.images_http.log'' w) w
           \<or> os_resolve os ''.images_http.log'' w = os_resolve os (a_log_file args) w"
  shows "migrate_log os args w = (w, [])"
  using assms by (auto simp: migrate_log_def Let_def)

lemma migrate_log_moves:
  assumes "\<not> os_exists os (os_resolve os (a_log_file args) w) w"
    "os_exists os (os_resolve os ''.images_http.log'' w) w"
    "os_resolve os ''.images_http.log'' w \<noteq> os_resolve os (a_log_file args) w"
    "os_mkdir os (parent (os_resolve os (a_log_file args) w)) w = (None, w0)"
  shows "migrate_log os args w
           = (snd (os_replace os (os_resolve os ''.images_http.log'' w) (os_resolve os (a_log_file args) w) w0),
              [Mkdir (parent (os_resolve os (a_log_file args) w)),
               Replace (os_resolve os ''.images_http.log'' w) (os_resolve os (a_log_file args) w)])"
  using assms by (simp add: migrate_log_def Let_def split: prod.splits)

lemma migrate_log_events:
  "filter is_scan (snd (migrate_log os args w)) = [] \<and> filter (\<lambda>e. e = Sleep) (snd (migrate_log os args w)) = []
     \<and> Setsid \<notin> set (snd (migrate_log os args w))"
  by (auto simp: migrate_log_def Let_def is_scan_simps split: prod.splits option.splits)

lemma filter_port_ex: "filter (\<lambda>s. snd s = port) servers \<noteq> [] \<longleftrightarrow> list_ex (\<lambda>s. snd s = port) servers"
  by (simp add: filter_empty_conv list_ex_iff)

lemma server_start_no_dir:
  assumes "migrate_log os args w = (w1, ev1)" "\<not> os_is_dir os (os_resolve os (a_dir args) w) w1"
  shows "server_start os args w
           = (Exited 1, w1, ev1 @ [Cprint (''Directory not found: '' @ os_resolve os (a_dir args) w) Color_R])"
  using assms by (simp add: server_start_def Let_def migrate_log_port)

lemma server_start_scan_raises:
  assumes "migrate_log os args w = (w1, ev1)" "os_is_dir os (os_resolve os (a_dir args) w) w1"
    "scan os w1 = (Inl e, w2)"
  shows "server_start os args w = (Raised e, w2, ev1 @ [Scan (Inl e)])"
  using assms by (simp add: server_start_def Let_def migrate_log_port)

lemma server_start_existing:
  assumes "migrate_log os args w = (w1, ev1)" "os_is_dir os (os_resolve os (a_dir args) w) w1"
    "scan os w1 = (Inr servers, w2)" "list_ex (\<lambda>s. snd s = requested_port args) servers"
  shows "server_start os args w
           = (Returned, w2,
              ev1 @ [Scan (Inr servers),
                     Cprint (''Server already running (PID ''
                               @ str (fst (hd (filter (\<lambda>s. snd s = requested_port args) servers)))
                               @ '') on port '' @ str (requested_port args) @ ''.'') Color_Y])"
proof -
  define port where "port = requested_port args"
  have p: "(case a_port args of None \<Rightarrow> DEFAULT_PORT | Some p \<Rightarrow> p) = port"
    by (simp add: port_def requested_port_def)
  from assms(4) have ex: "list_ex (\<lambda>s. snd s = port) servers" by (simp add: port_def)
  then have ne: "filter (\<lambda>s. snd s = port) servers \<noteq> []" by (simp add: filter_port_ex)
  have ex': "list_ex (\<lambda>s. snd s = port) (filter (\<lambda>s. snd s = port) servers)"
    using ex by (auto simp: list_ex_iff)
  show ?thesis
    unfolding port_def[symmetric] server_start_def p
    using assms(1,2,3) ne ex' by (simp add: Let_def migrate_log_port msg_port_def)
qed

lemma server_start_new:
  assumes "migrate_log os args w = (w1, ev1)" "os_is_dir os (os_resolve os (a_dir args) w) w1"
    "scan os w1 = (Inr servers, w2)" "\<not> list_ex (\<lambda>s. snd s = requested_port args) servers"
  shows "server_start os args w
           = (case start_new os (args\<lparr>a_port := Some (requested_port args)\<rparr>) (requested_port args)
                     (os_resolve os (a_dir args) w) (os_resolve os (a_log_file args) w) w2 of
                (out, w3, evs) \<Rightarrow> (out, w3, ev1 @ Scan (Inr servers) # evs))"
proof -
  define port where "port = requested_port args"
  have p: "(case a_port args of None \<Rightarrow> DEFAULT_PORT | Some p \<Rightarrow> p) = port"
    by (simp add: port_def requested_port_def)
  from assms(4) have "\<not> list_ex (\<lambda>s. snd s = port) servers" by (simp add: port_def)
  then have e: "filter (\<lambda>s. snd s = port) servers = []" using filter_port_ex[of port servers] by simp
  show ?thesis
    unfolding port_def[symmetric] server_start_def p
    using assms(1,2,3) e by (simp add: Let_def migrate_log_port)
qed

lemma start_new_in_use:
  assumes "os_connect os (a_bind args) port w = (Inr True, w1)"
  shows "start_new os args port serve_dir log_file w
           = (Returned, w1,
              [Connect (a_bind args) port,
               Cprint (''Port '' @ str port @ '' already in use on '' @ a_bind args @ ''. Abort start.'') Color_R,
               Cprint (''Suggestion: use '' @ [CHR 0x27] @ ''ss -lntp | grep :'' @ str port @ [CHR 0x27]
                         @ '' to find process or choose --port.'') Color_Y])"
  using assms by (simp add: start_new_def)

lemma start_new_parent:
  assumes "os_connect os (a_bind args) port w = (Inr False, w1)" "os_fork os w1 = (Inr pid, w2)" "pid > 0"
  shows "start_new os args port serve_dir log_file w
           = (case confirm_poll os port 30 w2 of
                (Inl e, w3, evs) \<Rightarrow> (Raised e, w3, launch_events args port serve_dir @ evs)
              | (Inr (Some m), w3, evs) \<Rightarrow>
                  (Returned, w3,
                   launch_events args port serve_dir @ evs @ [Cprint (''Started (PID '' @ str m @ '')'') Color_G])
              | (Inr None, w3, evs) \<Rightarrow>
                  (Returned, w3,
                   launch_events args port serve_dir @ evs
                     @ [Cprint (''Started (child PID '' @ str pid @ '') but listener not confirmed'') Color_Y]))"
proof -
  obtain r w3 evs where p: "confirm_poll os port 30 w2 = (r, w3, evs)"
    by (cases "confirm_poll os port 30 w2")
  show ?thesis
  proof (cases r)
    case (Inl e)
    with assms p show ?thesis by (simp add: start_new_def launch_events_def Let_def)
  next
    case (Inr m)
    with assms p show ?thesis by (cases m) (simp_all add: start_new_def launch_events_def Let_def)
  qed
qed

lemma confirm_poll_absent:
  "(\<And>j. j < n \<Longrightarrow> absent os port (polled os j w)) \<Longrightarrow>
     confirm_poll os port n w = (Inr None, polled os n w, poll_events os n w)"
proof (induction n arbitrary: w)
  case 0
  then show ?case by simp
next
  case (Suc n)
  obtain r w1 where s: "scan os w = (r, w1)" by (cases "scan os w")
  from Suc.prems[of 0] s obtain servers where r: "r = Inr servers"
    and no: "\<not> list_ex (\<lambda>s. snd s = port) servers"
    by (cases r) (auto simp: absent_def)
  from no have e: "filter (\<lambda>s. snd s = port) servers = []" using filter_port_ex[of port servers] by simp
  have "absent os port (polled os j (os_sleep os w1))" if "j < n" for j
    using Suc.prems[of "Suc j"] that s by simp
  then have "confirm_poll os port n (os_sleep os w1)
      = (Inr None, polled os n (os_sleep os w1), poll_events os n (os_sleep os w1))"
    by (rule Suc.IH)
  with s r e show ?case by simp
qed

lemma confirm_poll_counts:
  "length (filter is_scan (snd (snd (confirm_poll os port n w)))) \<le> n
     \<and> length (filter (\<lambda>e. e = Sleep) (snd (snd (confirm_poll os port n w)))) \<le> n
     \<and> Setsid \<notin> set (snd (snd (confirm_poll os port n w)))"
proof (induction n arbitrary: w)
  case 0
  then show ?case by simp
next
  case (Suc n)
  obtain r w1 where s: "scan os w = (r, w1)" by (cases "scan os w")
  show ?case
  proof (cases r)
    case (Inl e)
    with s show ?thesis by (simp add: is_scan_simps)
  next
    case (Inr servers)
    show ?thesis
    proof (cases "filter (\<lambda>s. snd s = port) servers")
      case Nil
      obtain r2 w2 ev2 where c: "confirm_poll os port n (os_sleep os w1) = (r2, w2, ev2)"
        by (cases "confirm_poll os port n (os_sleep os w1)")
      from Suc.IH[of "os_sleep os w1"] c
      have "length (filter is_scan ev2) \<le> n" "length (filter (\<lambda>e. e = Sleep) ev2) \<le> n" "Setsid \<notin> set ev2"
        by simp_all
      with s Inr Nil c show ?thesis by (simp add: is_scan_simps)
    next
      case (Cons a rest)
      with s Inr show ?thesis by (cases a) (simp add: is_scan_simps)
    qed
  qed
qed

lemma launch_events_counts:
  "filter is_scan (launch_events args port serve_dir) = []
     \<and> filter (\<lambda>e. e = Sleep) (launch_events args port serve_dir) = []
     \<and> Setsid \<notin> set (launch_events args port serve_dir)"
  by (simp add: launch_events_def is_scan_simps)

lemma child_counts:
  "filter is_scan (snd (snd (child os args port serve_dir log_file w))) = []
     \<and> filter (\<lambda>e. e = Sleep) (snd (snd (child os args port serve_dir log_file w))) = []"
  by (auto simp: child_def Let_def is_scan_simps split: prod.splits option.splits serve_end.splits)

lemma child_serving:
  "fst (child os args port serve_dir log_file w) = Serving \<Longrightarrow>
     Setsid \<in> set (snd (snd (child os args port serve_dir log_file w)))"
  by (auto simp: child_def Let_def split: prod.splits option.splits serve_end.splits)

lemma start_new_counts:
  "length (filter is_scan (snd (snd (start_new os args port serve_dir log_file w)))) \<le> 30
     \<and> length (filter (\<lambda>e. e = Sleep) (snd (snd (start_new os args port serve_dir log_file w)))) \<le> 30
     \<and> (fst (start_new os args port serve_dir log_file w) = Serving
          \<longrightarrow> Setsid \<in> set (snd (snd (start_new os args port serve_dir log_file w))))"
proof -
  obtain c w1 where c: "os_connect os (a_bind args) port w = (c, w1)"
    by (cases "os_connect os (a_bind args) port w")
  show ?thesis
  proof (cases c)
    case (Inl e)
    with c show ?thesis by (simp add: start_new_def is_scan_simps)
  next
    case (Inr used)
    show ?thesis
    proof (cases used)
      case True
      with c Inr show ?thesis by (simp add: start_new_in_use is_scan_simps)
    next
      case False
      obtain f w2 where f: "os_fork os w1 = (f, w2)" by (cases "os_fork os w1")
      show ?thesis
      proof (cases f)
        case (Inl e)
        with c Inr False f show ?thesis by (simp add: start_new_def Let_def is_scan_simps)
      next
        case (Inr pid)
        note pid = Inr
        show ?thesis
        proof (cases "pid > 0")
          case True
          obtain r w3 evs where p: "confirm_poll os port 30 w2 = (r, w3, evs)"
            by (cases "confirm_poll os port 30 w2")
          from confirm_poll_counts[of os port 30 w2] p
          have n: "length (filter is_scan evs) \<le> 30" "length (filter (\<lambda>e. e = Sleep) evs) \<le> 30"
            by simp_all
          from c \<open>c = Inr used\<close> False f pid True
          have s: "start_new os args port serve_dir log_file w
              = (case confirm_poll os port 30 w2 of
                (Inl e, w3, evs) \<Rightarrow> (Raised e, w3, launch_events args port serve_dir @ evs)
              | (Inr (Some m), w3, evs) \<Rightarrow>
                  (Returned, w3,
                   launch_events args port serve_dir @ evs @ [Cprint (''Started (PID '' @ str m @ '')'') Color_G])
              | (Inr None, w3, evs) \<Rightarrow>
                  (Returned, w3,
                   launch_events args port serve_dir @ evs
                     @ [Cprint (''Started (child PID '' @ str pid @ '') but listener not confirmed'') Color_Y]))"
            by (intro start_new_parent) simp_all
          show ?thesis unfolding s p using n launch_events_counts[of args port serve_dir]
            by (cases r) (auto simp: is_scan_simps split: option.splits)
        next
          case False
          note nonpos = False
          obtain out w3 evs where ch: "child os args port serve_dir log_file w2 = (out, w3, evs)"
            by (cases "child os args port serve_dir log_file w2")
          from child_counts[of os args port serve_dir log_file w2] ch
          have n: "filter is_scan evs = []" "filter (\<lambda>e. e = Sleep) evs = []" by simp_all
          from child_serving[of os args port serve_dir log_file w2] ch
          have sv: "out = Serving \<Longrightarrow> Setsid \<in> set evs" by simp
          have "start_new os args port serve_dir log_file w
              = (out, w3, launch_events args port serve_dir @ evs)"
            using c \<open>c = Inr used\<close> \<open>\<not> used\<close> f pid nonpos ch
            by (simp add: start_new_def launch_events_def Let_def)
          then show ?thesis using n sv launch_events_counts[of args port serve_dir] by auto
        qed
      qed
    qed
  qed
qed

lemma server_start_counts:
  "length (filter is_scan (snd (snd (server_start os args w)))) \<le> 31
     \<and> length (filter (\<lambda>e. e = Sleep) (snd (snd (server_start os args w)))) \<le> 30
     \<and> (fst (server_start os args w) = Serving \<longrightarrow> Setsid \<in> set (snd (snd (server_start os args w))))"
proof -
  obtain w1 ev1 where m: "migrate_log os args w = (w1, ev1)" by (cases "migrate_log os args w")
  from migrate_log_events[of os args w] m
  have e1: "filter is_scan ev1 = []" "filter (\<lambda>e. e = Sleep) ev1 = []" by simp_all
  show ?thesis
  proof (cases "os_is_dir os (os_resolve os (a_dir args) w) w1")
    case False
    with m e1 show ?thesis by (simp add: server_start_no_dir is_scan_simps)
  next
    case True
    obtain r w2 where s: "scan os w1 = (r, w2)" by (cases "scan os w1")
    show ?thesis
    proof (cases r)
      case (Inl e)
      with m True s e1 show ?thesis by (simp add: server_start_scan_raises is_scan_simps)
    next
      case (Inr servers)
      show ?thesis
      proof (cases "list_ex (\<lambda>s. snd s = requested_port args) servers")
        case True
        with m \<open>os_is_dir os (os_resolve os (a_dir args) w) w1\<close> s Inr e1 show ?thesis
          by (simp add: server_start_existing is_scan_simps)
      next
        case False
        let ?n = "start_new os (args\<lparr>a_port := Some (requested_port args)\<rparr>) (requested_port args)
                     (os_resolve os (a_dir args) w) (os_resolve os (a_log_file args) w) w2"
        obtain out w3 evs where n: "?n = (out, w3, evs)" by (cases ?n)
        from start_new_counts[of os "args\<lparr>a_port := Some (requested_port args)\<rparr>" "requested_port args"
            "os_resolve os (a_dir args) w" "os_resolve os (a_log_file args) w" w2] n
        have c: "length (filter is_scan evs) \<le> 30" "length (filter (\<lambda>e. e = Sleep) evs) \<le> 30"
          "out = Serving \<longrightarrow> Setsid \<in> set evs" by simp_all
        have "server_start os args w = (out, w3, ev1 @ Scan (Inr servers) # evs)"
          using server_start_new[OF m \<open>os_is_dir os (os_resolve os (a_dir args) w) w1\<close> s[unfolded Inr] False] n
          by simp
        with c e1 show ?thesis by (simp add: is_scan_simps)
      qed
    qed
  qed
qed

subsection \<open>An instance already serves the port\<close>

lemma migrate_log_is_migration: "list_all is_migration (snd (migrate_log os args w))"
  by (auto simp: migrate_log_def Let_def is_migration_def split: prod.splits option.splits)

text \<open>
  C5. start first relocates the old log file, when there is one and the new one is absent;
  when the log file is in place it leaves everything as it was. If the serve directory
  exists and discovery then reports an instance on the requested port, which is port 8000
  when the request names none, start reports that the server is already running and
  returns: the events are those of the relocation, the scan, and the report, and the world
  is the one the scan left, so nothing is probed and nothing is forked.
\<close>

theorem start_already_running:
  assumes "migrate_log os args w = (w1, ev1)"
      and "os_is_dir os (os_resolve os (a_dir args) w) w1"
      and "scan os w1 = (Inr servers, w2)"
      and "list_ex (\<lambda>s. snd s = requested_port args) servers"
  shows "server_start os args w
           = (Returned, w2,
              ev1 @ [Scan (Inr servers),
                     Cprint (''Server already running (PID ''
                               @ str (fst (hd (filter (\<lambda>s. snd s = requested_port args) servers)))
                               @ '') on port '' @ str (requested_port args) @ ''.'') Color_Y])
         \<and> list_all is_migration ev1
         \<and> (os_exists os (os_resolve os (a_log_file args) w) w \<longrightarrow> w1 = w \<and> ev1 = [])"
proof -
  have "list_all is_migration ev1" using migrate_log_is_migration[of os args w] assms(1) by simp
  moreover have "w1 = w \<and> ev1 = []" if "os_exists os (os_resolve os (a_log_file args) w) w"
    using migrate_log_nothing[of os args w] that assms(1) by simp
  ultimately show ?thesis using server_start_existing[OF assms] by simp
qed

lemma discover_example_9000: "discover_servers example_9000 = Inr [(4343, 9000)]"
  by code_simp

lemma discover_example_started: "discover_servers example_started = Inr [(4343, 9000), (5000, 8000)]"
  by code_simp

lemma discover_example_idle: "discover_servers example_idle = Inr []"
  by code_simp

lemma scan_sim_os: "scan sim_os w = (discover_servers (sim_proc w), w)"
  by (simp add: scan_def sim_os_def)

lemma migrate_sim0: "migrate_log sim_os args_start sim0 = (sim0, [])"
  by code_simp

lemma is_dir_sim0: "os_is_dir sim_os (os_resolve sim_os (a_dir args_start) sim0) sim0"
  by code_simp

lemma scan_sim0_start: "scan sim_os sim0 = (Inr [(4242, 8000)], sim0)"
  unfolding scan_sim_os by (simp add: discover_sim0)

lemma port_args_start: "requested_port args_start = 8000"
  by code_simp

lemma running_message:
  "''Server already running (PID '' @ str (fst (hd (filter (\<lambda>s. snd s = 8000) [(4242, 8000 :: int)])))
      @ '') on port '' @ str 8000 @ ''.''
     = ''Server already running (PID 4242) on port 8000.''"
  by code_simp

lemma log_exists_sim0: "os_exists sim_os (os_resolve sim_os (a_log_file args_start) sim0) sim0"
  by code_simp

theorem start_already_running_witness:
  "migrate_log sim_os args_start sim0 = (sim0, [])
   \<and> os_exists sim_os (os_resolve sim_os (a_log_file args_start) sim0) sim0
   \<and> os_is_dir sim_os (os_resolve sim_os (a_dir args_start) sim0) sim0
   \<and> scan sim_os sim0 = (Inr [(4242, 8000)], sim0)
   \<and> requested_port args_start = 8000
   \<and> server_start sim_os args_start sim0
       = (Returned, sim0,
          [Scan (Inr [(4242, 8000)]), Cprint ''Server already running (PID 4242) on port 8000.'' Color_Y])"
proof -
  have ex: "list_ex (\<lambda>s. snd s = requested_port args_start) [(4242, 8000)]"
    unfolding port_args_start by simp
  from start_already_running[OF migrate_sim0 is_dir_sim0 scan_sim0_start ex]
  have "server_start sim_os args_start sim0
       = (Returned, sim0,
          [Scan (Inr [(4242, 8000)]), Cprint ''Server already running (PID 4242) on port 8000.'' Color_Y])"
    unfolding port_args_start running_message by simp
  with migrate_sim0 log_exists_sim0 is_dir_sim0 scan_sim0_start port_args_start show ?thesis by simp
qed

lemma start_sim_9000:
  "server_start sim_os args_start sim_9000
     = (Returned, sim_9000\<lparr>sim_proc := example_started\<rparr>,
        [Scan (Inr [(4343, 9000)]),
         Connect ''0.0.0.0'' 8000,
         Cprint ''WARNING: Serving on 0.0.0.0 (all interfaces). Ensure this is intended; consider firewalling or using --bind specific IP.'' Color_Y,
         Cprint ''Starting HTTP server on 0.0.0.0:8000 serving /srv/IMAGES'' Color_C,
         Fork,
         Scan (Inr [(4343, 9000), (5000, 8000)]),
         Cprint ''Started (PID 5000)'' Color_G])"
  by code_simp

lemma start_sim_old_log:
  "server_start sim_os (args_start\<lparr>a_port := Some 8000\<rparr>) sim_old_log
     = (Returned, sim_old_log\<lparr>sim_files := [''/srv/IMAGES/.images_http.log'']\<rparr>,
        [Mkdir ''/srv/IMAGES'',
         Replace ''/srv/.images_http.log'' ''/srv/IMAGES/.images_http.log'',
         Scan (Inr [(4242, 8000)]),
         Cprint ''Server already running (PID 4242) on port 8000.'' Color_Y])"
  by code_simp

theorem start_not_idempotent_counterexample:
  "a_port args_start = None
   \<and> scan sim_os sim_9000 = (Inr [(4343, 9000)], sim_9000)
   \<and> server_start sim_os args_start sim_9000
     = (Returned, sim_9000\<lparr>sim_proc := example_started\<rparr>,
        [Scan (Inr [(4343, 9000)]),
         Connect ''0.0.0.0'' 8000,
         Cprint ''WARNING: Serving on 0.0.0.0 (all interfaces). Ensure this is intended; consider firewalling or using --bind specific IP.'' Color_Y,
         Cprint ''Starting HTTP server on 0.0.0.0:8000 serving /srv/IMAGES'' Color_C,
         Fork,
         Scan (Inr [(4343, 9000), (5000, 8000)]),
         Cprint ''Started (PID 5000)'' Color_G])
   \<and> scan sim_os sim_old_log = (Inr [(4242, 8000)], sim_old_log)
   \<and> sim_files sim_old_log = [''/srv/.images_http.log'']
   \<and> server_start sim_os (args_start\<lparr>a_port := Some 8000\<rparr>) sim_old_log
     = (Returned, sim_old_log\<lparr>sim_files := [''/srv/IMAGES/.images_http.log'']\<rparr>,
        [Mkdir ''/srv/IMAGES'',
         Replace ''/srv/.images_http.log'' ''/srv/IMAGES/.images_http.log'',
         Scan (Inr [(4242, 8000)]),
         Cprint ''Server already running (PID 4242) on port 8000.'' Color_Y])"
proof -
  have 1: "a_port args_start = None" by (simp add: args_start_def args0_def)
  have 2: "scan sim_os sim_9000 = (Inr [(4343, 9000)], sim_9000)"
    unfolding scan_sim_os by (simp add: sim_9000_def discover_example_9000)
  have 3: "scan sim_os sim_old_log = (Inr [(4242, 8000)], sim_old_log)"
    unfolding scan_sim_os using discover_sim0 by (simp add: sim_old_log_def)
  have 4: "sim_files sim_old_log = [''/srv/.images_http.log'']" by (simp add: sim_old_log_def)
  from 1 2 3 4 start_sim_9000 start_sim_old_log show ?thesis by simp
qed

subsection \<open>The port is in use\<close>

text \<open>
  C6. When the serve directory exists, discovery reports no instance on the requested port,
  and the probe of (bind, port) finds something answering, start prints the two lines of the
  "in use" report and returns, without a fork; and then the invocation ends with exit
  code 0, not 1.
\<close>

theorem start_port_in_use:
  assumes "migrate_log os args w = (w1, ev1)"
      and "os_is_dir os (os_resolve os (a_dir args) w) w1"
      and "scan os w1 = (Inr servers, w2)"
      and "\<not> list_ex (\<lambda>s. snd s = requested_port args) servers"
      and "os_connect os (a_bind args) (requested_port args) w2 = (Inr True, w3)"
      and "a_cmd args = ''start''"
  shows "main os args w
           = (Returned, w3,
              ev1 @ [Scan (Inr servers),
                     Connect (a_bind args) (requested_port args),
                     Cprint (''Port '' @ str (requested_port args) @ '' already in use on '' @ a_bind args
                               @ ''. Abort start.'') Color_R,
                     Cprint (''Suggestion: use '' @ [CHR 0x27] @ ''ss -lntp | grep :''
                               @ str (requested_port args) @ [CHR 0x27]
                               @ '' to find process or choose --port.'') Color_Y])
         \<and> exit_code (fst (main os args w)) = Some 0"
proof -
  have m: "main os args w = server_start os args w" using assms(6) by (simp add: main_def)
  have b: "a_bind (args\<lparr>a_port := Some (requested_port args)\<rparr>) = a_bind args" by simp
  from assms(5) have c: "os_connect os (a_bind (args\<lparr>a_port := Some (requested_port args)\<rparr>))
      (requested_port args) w2 = (Inr True, w3)" unfolding b .
  show ?thesis
    unfolding m server_start_new[OF assms(1-4)] start_new_in_use[OF c] by simp
qed

lemma port_taken_facts:
  "migrate_log sim_os args_start sim_port_taken = (sim_port_taken, [])"
  "os_is_dir sim_os (os_resolve sim_os (a_dir args_start) sim_port_taken) sim_port_taken"
  "os_connect sim_os (a_bind args_start) (requested_port args_start) sim_port_taken = (Inr True, sim_port_taken)"
  "a_cmd args_start = ''start''"
  "a_bind args_start = ''0.0.0.0''"
  by code_simp+

lemma scan_port_taken: "scan sim_os sim_port_taken = (Inr [], sim_port_taken)"
  unfolding scan_sim_os by (simp add: sim_port_taken_def discover_example_idle)

lemma in_use_messages:
  "''Port '' @ str 8000 @ '' already in use on '' @ ''0.0.0.0'' @ ''. Abort start.''
     = ''Port 8000 already in use on 0.0.0.0. Abort start.''"
  "''Suggestion: use '' @ [CHR 0x27] @ ''ss -lntp | grep :'' @ str 8000 @ [CHR 0x27]
      @ '' to find process or choose --port.''
     = ''Suggestion: use '' @ [CHR 0x27] @ ''ss -lntp | grep :8000'' @ [CHR 0x27] @ '' to find process or choose --port.''"
  by code_simp+

theorem start_port_in_use_witness:
  "scan sim_os sim_port_taken = (Inr [], sim_port_taken)
   \<and> os_connect sim_os (a_bind args_start) (requested_port args_start) sim_port_taken = (Inr True, sim_port_taken)
   \<and> main sim_os args_start sim_port_taken
       = (Returned, sim_port_taken,
          [Scan (Inr []),
           Connect ''0.0.0.0'' 8000,
           Cprint ''Port 8000 already in use on 0.0.0.0. Abort start.'' Color_R,
           Cprint (''Suggestion: use '' @ [CHR 0x27] @ ''ss -lntp | grep :8000'' @ [CHR 0x27]
                     @ '' to find process or choose --port.'') Color_Y])
   \<and> exit_code (fst (main sim_os args_start sim_port_taken)) = Some 0"
proof -
  have no: "\<not> list_ex (\<lambda>s. snd s = requested_port args_start) []" by simp
  from start_port_in_use[OF port_taken_facts(1,2) scan_port_taken no port_taken_facts(3,4)]
  have "main sim_os args_start sim_port_taken
       = (Returned, sim_port_taken,
          [Scan (Inr []),
           Connect ''0.0.0.0'' 8000,
           Cprint ''Port 8000 already in use on 0.0.0.0. Abort start.'' Color_R,
           Cprint (''Suggestion: use '' @ [CHR 0x27] @ ''ss -lntp | grep :8000'' @ [CHR 0x27]
                     @ '' to find process or choose --port.'') Color_Y])
     \<and> exit_code (fst (main sim_os args_start sim_port_taken)) = Some 0"
    unfolding port_args_start port_taken_facts(5) in_use_messages by simp
  with scan_port_taken port_taken_facts(3) show ?thesis by simp
qed

subsection \<open>The serve directory is missing\<close>

text \<open>
  C8. The events of start always begin with those of the relocation of the old log file,
  made in the world in which start was called: when the new log file is absent and the old
  one exists, the directory of the log file is created and the old file is moved there.
  Only then is the serve directory looked at, in the world that the relocation left; when it
  is no directory there, start reports "Directory not found" and exits with code 1.
\<close>

theorem start_migrates_first:
  assumes "migrate_log os args w = (w1, ev1)"
  shows "(\<exists>out w' rest. server_start os args w = (out, w', ev1 @ rest))
       \<and> (\<not> os_is_dir os (os_resolve os (a_dir args) w) w1 \<longrightarrow>
            server_start os args w
              = (Exited 1, w1, ev1 @ [Cprint (''Directory not found: '' @ os_resolve os (a_dir args) w) Color_R]))
       \<and> (\<not> os_exists os (os_resolve os (a_log_file args) w) w
            \<and> os_exists os (os_resolve os ''.images_http.log'' w) w
            \<and> os_resolve os ''.images_http.log'' w \<noteq> os_resolve os (a_log_file args) w
            \<and> os_mkdir os (parent (os_resolve os (a_log_file args) w)) w = (None, w0) \<longrightarrow>
            w1 = snd (os_replace os (os_resolve os ''.images_http.log'' w) (os_resolve os (a_log_file args) w) w0)
            \<and> ev1 = [Mkdir (parent (os_resolve os (a_log_file args) w)),
                      Replace (os_resolve os ''.images_http.log'' w) (os_resolve os (a_log_file args) w)])"
proof (intro conjI impI)
  show "\<exists>out w' rest. server_start os args w = (out, w', ev1 @ rest)"
  proof (cases "os_is_dir os (os_resolve os (a_dir args) w) w1")
    case False
    with assms show ?thesis by (simp add: server_start_no_dir)
  next
    case True
    obtain r w2 where s: "scan os w1 = (r, w2)" by (cases "scan os w1")
    show ?thesis
    proof (cases r)
      case (Inl e)
      with assms True s show ?thesis by (simp add: server_start_scan_raises)
    next
      case (Inr servers)
      show ?thesis
      proof (cases "list_ex (\<lambda>s. snd s = requested_port args) servers")
        case True
        with assms \<open>os_is_dir os (os_resolve os (a_dir args) w) w1\<close> s Inr show ?thesis
          by (simp add: server_start_existing)
      next
        case False
        with assms \<open>os_is_dir os (os_resolve os (a_dir args) w) w1\<close> s Inr show ?thesis
          by (simp add: server_start_new split: prod.splits)
      qed
    qed
  qed
next
  assume "\<not> os_is_dir os (os_resolve os (a_dir args) w) w1"
  with assms show "server_start os args w
      = (Exited 1, w1, ev1 @ [Cprint (''Directory not found: '' @ os_resolve os (a_dir args) w) Color_R])"
    by (rule server_start_no_dir)
next
  assume a: "\<not> os_exists os (os_resolve os (a_log_file args) w) w
            \<and> os_exists os (os_resolve os ''.images_http.log'' w) w
            \<and> os_resolve os ''.images_http.log'' w \<noteq> os_resolve os (a_log_file args) w
            \<and> os_mkdir os (parent (os_resolve os (a_log_file args) w)) w = (None, w0)"
  then have m: "migrate_log os args w
           = (snd (os_replace os (os_resolve os ''.images_http.log'' w) (os_resolve os (a_log_file args) w) w0),
              [Mkdir (parent (os_resolve os (a_log_file args) w)),
               Replace (os_resolve os ''.images_http.log'' w) (os_resolve os (a_log_file args) w)])"
    by (intro migrate_log_moves) simp_all
  from m assms
  show "w1 = snd (os_replace os (os_resolve os ''.images_http.log'' w) (os_resolve os (a_log_file args) w) w0)"
    by simp
  from m assms
  show "ev1 = [Mkdir (parent (os_resolve os (a_log_file args) w)),
                      Replace (os_resolve os ''.images_http.log'' w) (os_resolve os (a_log_file args) w)]"
    by simp
qed

lemma no_dir_facts:
  "migrate_log sim_os (args_start\<lparr>a_dir := ''WWW''\<rparr>) sim_no_dir
     = (sim_no_dir\<lparr>sim_dirs := [''/srv/IMAGES''], sim_files := [''/srv/IMAGES/.images_http.log'']\<rparr>,
        [Mkdir ''/srv/IMAGES'', Replace ''/srv/.images_http.log'' ''/srv/IMAGES/.images_http.log''])"
  "\<not> os_is_dir sim_os (os_resolve sim_os (a_dir (args_start\<lparr>a_dir := ''WWW''\<rparr>)) sim_no_dir)
        (sim_no_dir\<lparr>sim_dirs := [''/srv/IMAGES''], sim_files := [''/srv/IMAGES/.images_http.log'']\<rparr>)"
  "os_resolve sim_os (a_dir (args_start\<lparr>a_dir := ''WWW''\<rparr>)) sim_no_dir = ''/srv/WWW''"
  "sim_dirs sim_no_dir = []"
  "sim_files sim_no_dir = [''/srv/.images_http.log'']"
  by code_simp+

lemma start_sim_no_dir:
  "server_start sim_os args_start sim_no_dir
     = (Returned, sim_no_dir\<lparr>sim_dirs := [''/srv/IMAGES''], sim_files := [''/srv/IMAGES/.images_http.log'']\<rparr>,
        [Mkdir ''/srv/IMAGES'',
         Replace ''/srv/.images_http.log'' ''/srv/IMAGES/.images_http.log'',
         Scan (Inr [(4242, 8000)]),
         Cprint ''Server already running (PID 4242) on port 8000.'' Color_Y])"
  by code_simp

theorem start_migrates_first_witness:
  "sim_dirs sim_no_dir = [] \<and> sim_files sim_no_dir = [''/srv/.images_http.log'']
   \<and> server_start sim_os (args_start\<lparr>a_dir := ''WWW''\<rparr>) sim_no_dir
       = (Exited 1,
          sim_no_dir\<lparr>sim_dirs := [''/srv/IMAGES''], sim_files := [''/srv/IMAGES/.images_http.log'']\<rparr>,
          [Mkdir ''/srv/IMAGES'',
           Replace ''/srv/.images_http.log'' ''/srv/IMAGES/.images_http.log'',
           Cprint ''Directory not found: /srv/WWW'' Color_R])
   \<and> server_start sim_os args_start sim_no_dir
       = (Returned, sim_no_dir\<lparr>sim_dirs := [''/srv/IMAGES''], sim_files := [''/srv/IMAGES/.images_http.log'']\<rparr>,
          [Mkdir ''/srv/IMAGES'',
           Replace ''/srv/.images_http.log'' ''/srv/IMAGES/.images_http.log'',
           Scan (Inr [(4242, 8000)]),
           Cprint ''Server already running (PID 4242) on port 8000.'' Color_Y])"
proof -
  from start_migrates_first[OF no_dir_facts(1)] no_dir_facts(2)
  have "server_start sim_os (args_start\<lparr>a_dir := ''WWW''\<rparr>) sim_no_dir
       = (Exited 1,
          sim_no_dir\<lparr>sim_dirs := [''/srv/IMAGES''], sim_files := [''/srv/IMAGES/.images_http.log'']\<rparr>,
          [Mkdir ''/srv/IMAGES'',
           Replace ''/srv/.images_http.log'' ''/srv/IMAGES/.images_http.log'',
           Cprint (''Directory not found: '' @ os_resolve sim_os (a_dir (args_start\<lparr>a_dir := ''WWW''\<rparr>)) sim_no_dir) Color_R])"
    by simp
  then have "server_start sim_os (args_start\<lparr>a_dir := ''WWW''\<rparr>) sim_no_dir
       = (Exited 1,
          sim_no_dir\<lparr>sim_dirs := [''/srv/IMAGES''], sim_files := [''/srv/IMAGES/.images_http.log'']\<rparr>,
          [Mkdir ''/srv/IMAGES'',
           Replace ''/srv/.images_http.log'' ''/srv/IMAGES/.images_http.log'',
           Cprint ''Directory not found: /srv/WWW'' Color_R])"
    unfolding no_dir_facts(3) by simp
  with no_dir_facts(4,5) start_sim_no_dir show ?thesis by simp
qed

subsection \<open>The caps of the polling loops\<close>

lemma is_probe_simps:
  "is_probe (Kill p SIG0 a)" "\<not> is_probe (Kill p SIGTERM a)" "\<not> is_probe (Kill p SIGKILL a)"
  "\<not> is_probe (Scan r)" "\<not> is_probe (Cprint m c)" "\<not> is_probe Sleep"
  by (simp_all add: is_probe_def)

lemma pid_lines_counts:
  "filter is_probe (pid_lines word grouped) = [] \<and> filter (\<lambda>e. e = Sleep) (pid_lines word grouped) = []"
  by (induction grouped) (auto simp: pid_lines_def is_probe_simps)

lemma terminate_counts:
  "length (filter is_probe (snd (snd (terminate os pid w)))) \<le> 31
     \<and> length (filter (\<lambda>e. e = Sleep) (snd (snd (terminate os pid w)))) \<le> 30
     \<and> fst (terminate os pid w) \<noteq> Serving"
proof -
  obtain out w' evs where t: "terminate os pid w = (out, w', evs)" by (cases "terminate os pid w")
  have "length (filter is_probe evs) \<le> 31 \<and> length (filter (\<lambda>e. e = Sleep) evs) \<le> 30 \<and> out \<noteq> Serving"
    using t
  proof (cases rule: terminate_cases)
    case (refused_term e)
    then show ?thesis by (simp add: is_probe_simps)
  next
    case (gone a k e)
    then show ?thesis by (simp add: polls_probes polls_sleeps is_probe_simps)
  next
    case (killed a b w3)
    then show ?thesis by (simp add: polls_probes polls_sleeps is_probe_simps)
  next
    case (refused_kill a e w3)
    then show ?thesis by (simp add: polls_probes polls_sleeps is_probe_simps)
  qed
  with t show ?thesis by simp
qed

lemma stop_servers_counts:
  "length (filter is_probe (snd (snd (stop_servers os args sel w)))) \<le> 31
     \<and> length (filter (\<lambda>e. e = Sleep) (snd (snd (stop_servers os args sel w)))) \<le> 30
     \<and> fst (stop_servers os args sel w) \<noteq> Serving"
proof (cases "length (group_by_pid sel []) > 1")
  case True
  then show ?thesis by (simp add: stop_servers_def Let_def pid_lines_counts is_probe_simps)
next
  case False
  show ?thesis
  proof (cases "group_by_pid sel []")
    case Nil
    then show ?thesis by (simp add: stop_servers_def)
  next
    case (Cons g rest)
    obtain pid ports where g: "g = (pid, ports)" by (cases g)
    obtain out w' evs where t: "terminate os pid w = (out, w', evs)" by (cases "terminate os pid w")
    from terminate_counts[of os pid w] t
    have "length (filter is_probe evs) \<le> 31" "length (filter (\<lambda>e. e = Sleep) evs) \<le> 30" "out \<noteq> Serving"
      by simp_all
    with False Cons g t show ?thesis by (simp add: stop_servers_def stop_pid_def is_probe_simps)
  qed
qed

lemma server_stop_counts:
  "length (filter is_probe (snd (snd (server_stop os args w)))) \<le> 31
     \<and> length (filter (\<lambda>e. e = Sleep) (snd (snd (server_stop os args w)))) \<le> 30
     \<and> fst (server_stop os args w) \<noteq> Serving"
proof -
  obtain r w1 where s: "scan os w = (r, w1)" by (cases "scan os w")
  show ?thesis
  proof (cases r)
    case (Inl e)
    with s show ?thesis by (simp add: server_stop_def is_probe_simps)
  next
    case (Inr servers)
    show ?thesis
    proof (cases "selected args servers = []")
      case True
      from server_stop_nothing[OF s[unfolded Inr] True] show ?thesis by (auto simp: is_probe_simps)
    next
      case False
      obtain out w2 evs where t: "stop_servers os args (selected args servers) w1 = (out, w2, evs)"
        by (cases "stop_servers os args (selected args servers) w1")
      from stop_servers_counts[of os args "selected args servers" w1] t
      have "length (filter is_probe evs) \<le> 31" "length (filter (\<lambda>e. e = Sleep) evs) \<le> 30" "out \<noteq> Serving"
        by simp_all
      then show ?thesis unfolding server_stop_selected[OF s[unfolded Inr] False] t
        by (simp add: is_probe_simps)
    qed
  qed
qed

text \<open>
  C9. Whatever the operating system answers, stop makes at most 31 liveness checks and
  sleeps at most 30 times, and it always ends; start runs discovery at most 31 times and
  sleeps at most 30 times, and the only invocation of start that does not end is the forked
  child, which has detached and serves. When the parent has forked and each of the 30
  rounds of discovery returns a list without a server on the requested port, start sleeps
  after each round and then reports "Started (child PID ...) but listener not confirmed"
  and returns; the events and the world it leaves are exactly those given here.
\<close>

theorem polling_bounded:
  "length (filter is_probe (snd (snd (server_stop os args w)))) \<le> 31
   \<and> length (filter (\<lambda>e. e = Sleep) (snd (snd (server_stop os args w)))) \<le> 30
   \<and> fst (server_stop os args w) \<noteq> Serving
   \<and> length (filter is_scan (snd (snd (server_start os args w)))) \<le> 31
   \<and> length (filter (\<lambda>e. e = Sleep) (snd (snd (server_start os args w)))) \<le> 30
   \<and> (fst (server_start os args w) = Serving \<longrightarrow> Setsid \<in> set (snd (snd (server_start os args w))))
   \<and> (migrate_log os args w = (w1, ev1)
        \<and> os_is_dir os (os_resolve os (a_dir args) w) w1
        \<and> scan os w1 = (Inr servers, w2)
        \<and> \<not> list_ex (\<lambda>s. snd s = requested_port args) servers
        \<and> os_connect os (a_bind args) (requested_port args) w2 = (Inr False, w3)
        \<and> os_fork os w3 = (Inr pid, w4) \<and> 0 < pid
        \<and> (\<forall>j<30. absent os (requested_port args) (polled os j w4)) \<longrightarrow>
        server_start os args w
          = (Returned, polled os 30 w4,
             ev1 @ Scan (Inr servers)
               # launch_events args (requested_port args) (os_resolve os (a_dir args) w)
               @ poll_events os 30 w4
               @ [Cprint (''Started (child PID '' @ str pid @ '') but listener not confirmed'') Color_Y]))"
proof -
  have "server_start os args w
          = (Returned, polled os 30 w4,
             ev1 @ Scan (Inr servers)
               # launch_events args (requested_port args) (os_resolve os (a_dir args) w)
               @ poll_events os 30 w4
               @ [Cprint (''Started (child PID '' @ str pid @ '') but listener not confirmed'') Color_Y])"
    if h: "migrate_log os args w = (w1, ev1)
        \<and> os_is_dir os (os_resolve os (a_dir args) w) w1
        \<and> scan os w1 = (Inr servers, w2)
        \<and> \<not> list_ex (\<lambda>s. snd s = requested_port args) servers
        \<and> os_connect os (a_bind args) (requested_port args) w2 = (Inr False, w3)
        \<and> os_fork os w3 = (Inr pid, w4) \<and> 0 < pid
        \<and> (\<forall>j<30. absent os (requested_port args) (polled os j w4))"
  proof -
    from h have m: "migrate_log os args w = (w1, ev1)"
      and d: "os_is_dir os (os_resolve os (a_dir args) w) w1"
      and s: "scan os w1 = (Inr servers, w2)"
      and n: "\<not> list_ex (\<lambda>s. snd s = requested_port args) servers"
      and c: "os_connect os (a_bind (args\<lparr>a_port := Some (requested_port args)\<rparr>)) (requested_port args) w2
                = (Inr False, w3)"
      and f: "os_fork os w3 = (Inr pid, w4)" and p: "pid > 0"
      and a: "\<And>j. j < 30 \<Longrightarrow> absent os (requested_port args) (polled os j w4)"
      by simp_all
    have l: "launch_events (args\<lparr>a_port := Some (requested_port args)\<rparr>) (requested_port args)
               (os_resolve os (a_dir args) w)
             = launch_events args (requested_port args) (os_resolve os (a_dir args) w)"
      by (simp add: launch_events_def)
    have cp: "confirm_poll os (requested_port args) 30 w4 = (Inr None, polled os 30 w4, poll_events os 30 w4)"
      using a by (rule confirm_poll_absent)
    show ?thesis
      unfolding server_start_new[OF m d s n] start_new_parent[OF c f p] cp l by simp
  qed
  with server_stop_counts[of os args w] server_start_counts[of os args w] show ?thesis by blast
qed

lemma sleep_sim_os: "os_sleep sim_os w = w"
  by (simp add: sim_os_def)

lemma polled_sim_idle: "polled sim_os k sim_idle = sim_idle"
  by (induction k) (simp_all add: scan_sim_os sleep_sim_os)

lemma poll_events_sim_idle: "poll_events sim_os k sim_idle = concat (replicate k [Scan (Inr []), Sleep])"
proof (induction k)
  case 0
  then show ?case by simp
next
  case (Suc k)
  have "scan sim_os sim_idle = (Inr [], sim_idle)"
    unfolding scan_sim_os by (simp add: sim_idle_def discover_example_idle)
  moreover have "os_sleep sim_os sim_idle = sim_idle" by (rule sleep_sim_os)
  ultimately show ?case using Suc by simp
qed

lemma absent_sim_idle: "absent sim_os port sim_idle"
  unfolding absent_def scan_sim_os by (simp add: sim_idle_def discover_example_idle)

lemma idle_facts:
  "migrate_log sim_os args_start sim_idle = (sim_idle, [])"
  "os_is_dir sim_os (os_resolve sim_os (a_dir args_start) sim_idle) sim_idle"
  "os_connect sim_os (a_bind args_start) (requested_port args_start) sim_idle = (Inr False, sim_idle)"
  "os_fork sim_os sim_idle = (Inr 5000, sim_idle)"
  "launch_events args_start 8000 (os_resolve sim_os (a_dir args_start) sim_idle)
     = [Connect ''0.0.0.0'' 8000,
        Cprint ''WARNING: Serving on 0.0.0.0 (all interfaces). Ensure this is intended; consider firewalling or using --bind specific IP.'' Color_Y,
        Cprint ''Starting HTTP server on 0.0.0.0:8000 serving /srv/IMAGES'' Color_C,
        Fork]"
  "''Started (child PID '' @ str 5000 @ '') but listener not confirmed''
     = ''Started (child PID 5000) but listener not confirmed''"
  by code_simp+

lemma scan_sim_idle: "scan sim_os sim_idle = (Inr [], sim_idle)"
  unfolding scan_sim_os by (simp add: sim_idle_def discover_example_idle)

theorem polling_bounded_witness:
  "server_start sim_os args_start sim_idle
     = (Returned, sim_idle,
        [Scan (Inr []),
         Connect ''0.0.0.0'' 8000,
         Cprint ''WARNING: Serving on 0.0.0.0 (all interfaces). Ensure this is intended; consider firewalling or using --bind specific IP.'' Color_Y,
         Cprint ''Starting HTTP server on 0.0.0.0:8000 serving /srv/IMAGES'' Color_C,
         Fork]
          @ concat (replicate 30 [Scan (Inr []), Sleep])
          @ [Cprint ''Started (child PID 5000) but listener not confirmed'' Color_Y])
   \<and> length (filter is_scan (snd (snd (server_start sim_os args_start sim_idle)))) = 31
   \<and> length (filter (\<lambda>e. e = Sleep) (snd (snd (server_start sim_os args_start sim_idle)))) = 30"
proof -
  have no: "\<not> list_ex (\<lambda>s. snd s = requested_port args_start) []" by simp
  have ab: "\<forall>j<30. absent sim_os (requested_port args_start) (polled sim_os j sim_idle)"
    by (simp add: polled_sim_idle absent_sim_idle)
  have p: "(0::int) < 5000" by simp
  from polling_bounded[of sim_os args_start sim_idle sim_idle "[]" "[]" sim_idle sim_idle 5000 sim_idle]
    idle_facts(1,2) scan_sim_idle no idle_facts(3,4) p ab
  have s: "server_start sim_os args_start sim_idle
     = (Returned, sim_idle,
        [Scan (Inr []),
         Connect ''0.0.0.0'' 8000,
         Cprint ''WARNING: Serving on 0.0.0.0 (all interfaces). Ensure this is intended; consider firewalling or using --bind specific IP.'' Color_Y,
         Cprint ''Starting HTTP server on 0.0.0.0:8000 serving /srv/IMAGES'' Color_C,
         Fork]
          @ concat (replicate 30 [Scan (Inr []), Sleep])
          @ [Cprint ''Started (child PID 5000) but listener not confirmed'' Color_Y])"
    unfolding port_args_start idle_facts(5,6) polled_sim_idle poll_events_sim_idle by simp
  have c: "length (filter is_scan (concat (replicate k [Scan (Inr []), Sleep]))) = k
         \<and> length (filter (\<lambda>e. e = Sleep) (concat (replicate k [Scan (Inr []), Sleep]))) = k" for k
    by (induction k) (simp_all add: is_scan_simps)
  from s c[of 30] show ?thesis by (simp add: is_scan_simps)
qed

end
